(* ===== verification/Detour_Prelude.thy ===== *)
theory Detour_Prelude
  imports Main "HOL-Library.Word"
begin

text \<open>
  Shared ground of the development: the integer types of the source, the error type of
  \<^verbatim>\<open>src/error.rs\<close>, results with a panic branch, little-endian byte strings, a byte-addressed
  memory, sign extension and the lemma collections the component theories use.
\<close>

unbundle bit_operations_syntax

section \<open>Integer types, errors and results\<close>

type_synonym u8 = "8 word"
type_synonym u32 = "32 word"
type_synonym u64 = "64 word"

text \<open>
  \<open>region::Error\<close> belongs to a third-party crate. The source names one of its variants,
  \<^verbatim>\<open>FreeMemory\<close>; every other variant is only passed on, so it is kept as an opaque code.
\<close>

datatype region_error = FreeMemory | OtherRegionError nat

datatype error =
    SameAddress
  | InvalidCode
  | NoPatchArea
  | NotExecutable
  | NotInitialized
  | AlreadyInitialized
  | OutOfMemory
  | UnsupportedInstruction
  | RegionFailure region_error

text \<open>A Rust computation returns \<open>Ok\<close>, returns \<open>Err\<close>, or panics.\<close>

datatype 'a res = Ok 'a | Err error | Panic

definition res_bind :: "'a res \<Rightarrow> ('a \<Rightarrow> 'b res) \<Rightarrow> 'b res" where
  "res_bind r f = (case r of Ok x \<Rightarrow> f x | Err e \<Rightarrow> Err e | Panic \<Rightarrow> Panic)"

definition res_map :: "('a \<Rightarrow> 'b) \<Rightarrow> 'a res \<Rightarrow> 'b res" where
  "res_map f r = res_bind r (\<lambda>x. Ok (f x))"

lemma res_bind_simps [simp]:
  "res_bind (Ok x) f = f x"
  "res_bind (Err e) f = Err e"
  "res_bind Panic f = Panic"
  by (simp_all add: res_bind_def)

lemma res_map_simps [simp]:
  "res_map g (Ok x) = Ok (g x)"
  "res_map g (Err e) = Err e"
  "res_map g Panic = Panic"
  by (simp_all add: res_map_def)

lemma res_bind_Ok_iff [simp]:
  "res_bind r f = Ok y \<longleftrightarrow> (\<exists>x. r = Ok x \<and> f x = Ok y)"
  by (cases r) auto

lemma res_map_Ok_iff [simp]:
  "res_map g r = Ok y \<longleftrightarrow> (\<exists>x. r = Ok x \<and> y = g x)"
  by (cases r) auto

lemma res_bind_assoc: "res_bind (res_bind r f) g = res_bind r (\<lambda>x. res_bind (f x) g)"
  by (cases r) auto

lemma res_bind_cong [fundef_cong]:
  "r = r' \<Longrightarrow> (\<And>x. r' = Ok x \<Longrightarrow> f x = f' x) \<Longrightarrow> res_bind r f = res_bind r' f'"
  by (cases r') auto

section \<open>Lemma collections\<close>

named_theorems model_defs \<open>definitions of the operations, unfolded together\<close>
named_theorems cpu_simps \<open>one-step rules of the reference processors\<close>

section \<open>Little-endian byte strings\<close>

text \<open>\<^verbatim>\<open>to_le_bytes\<close> and \<^verbatim>\<open>from_le_bytes\<close> of \<^verbatim>\<open>u32\<close> and \<^verbatim>\<open>u64\<close>.\<close>

definition u32_le :: "u32 \<Rightarrow> u8 list" where
  "u32_le w = [ucast w, ucast (drop_bit 8 w), ucast (drop_bit 16 w), ucast (drop_bit 24 w)]"

definition u64_le :: "u64 \<Rightarrow> u8 list" where
  "u64_le w = u32_le (ucast w) @ u32_le (ucast (drop_bit 32 w))"

definition u32_of_le :: "u8 \<Rightarrow> u8 \<Rightarrow> u8 \<Rightarrow> u8 \<Rightarrow> u32" where
  "u32_of_le b0 b1 b2 b3 =
     ucast b0 OR push_bit 8 (ucast b1) OR push_bit 16 (ucast b2) OR push_bit 24 (ucast b3)"

definition u64_of_u32 :: "u32 \<Rightarrow> u32 \<Rightarrow> u64" where
  "u64_of_u32 lo hi = ucast lo OR push_bit 32 (ucast hi)"

lemma length_u32_le [simp]: "length (u32_le w) = 4"
  by (simp add: u32_le_def)

lemma length_u64_le [simp]: "length (u64_le w) = 8"
  by (simp add: u64_le_def)

lemma u32_of_le_u32_le [simp]:
  "u32_of_le (ucast w) (ucast (drop_bit 8 w)) (ucast (drop_bit 16 w)) (ucast (drop_bit 24 w)) = w"
proof (rule bit_word_eqI)
  fix n
  assume "n < LENGTH(32)"
  then consider "n < 8" | "8 \<le> n" "n < 16" | "16 \<le> n" "n < 24" | "24 \<le> n" "n < 32"
    by fastforce
  then show "bit (u32_of_le (ucast w) (ucast (drop_bit 8 w)) (ucast (drop_bit 16 w))
      (ucast (drop_bit 24 w))) n \<longleftrightarrow> bit w n"
    by cases (auto simp: u32_of_le_def bit_simps)
qed

lemma u64_of_u32_halves [simp]: "u64_of_u32 (ucast w) (ucast (drop_bit 32 w)) = w"
  by (rule bit_word_eqI) (auto simp: u64_of_u32_def bit_simps)

section \<open>Byte-addressed memory\<close>

type_synonym 'u mem = "'u word \<Rightarrow> u8"

definition read_bytes :: "'u::len mem \<Rightarrow> 'u word \<Rightarrow> nat \<Rightarrow> u8 list" where
  "read_bytes m a n = map (\<lambda>i. m (a + of_nat i)) [0..<n]"

definition write_bytes :: "'u::len mem \<Rightarrow> 'u word \<Rightarrow> u8 list \<Rightarrow> 'u mem" where
  "write_bytes m a bs = (\<lambda>x. if unat (x - a) < length bs then bs ! unat (x - a) else m x)"

primrec code_at :: "'u::len mem \<Rightarrow> 'u word \<Rightarrow> u8 list \<Rightarrow> bool" where
  "code_at m a [] = True"
| "code_at m a (b # bs) = (m a = b \<and> code_at m (a + 1) bs)"

definition fetch32 :: "'u::len mem \<Rightarrow> 'u word \<Rightarrow> u32" where
  "fetch32 m a = u32_of_le (m a) (m (a + 1)) (m (a + 2)) (m (a + 3))"

definition fetch64 :: "'u::len mem \<Rightarrow> 'u word \<Rightarrow> u64" where
  "fetch64 m a = u64_of_u32 (fetch32 m a) (fetch32 m (a + 4))"

lemma length_read_bytes [simp]: "length (read_bytes m a n) = n"
  by (simp add: read_bytes_def)

lemma nth_read_bytes [simp]: "i < n \<Longrightarrow> read_bytes m a n ! i = m (a + of_nat i)"
  by (simp add: read_bytes_def)

lemma code_at_append [simp]:
  "code_at m a (xs @ ys) \<longleftrightarrow> code_at m a xs \<and> code_at m (a + of_nat (length xs)) ys"
  by (induction xs arbitrary: a) (simp_all add: add.assoc add.left_commute)

lemma code_at_iff_nth: "code_at m a bs \<longleftrightarrow> (\<forall>i < length bs. m (a + of_nat i) = bs ! i)"
proof (induction bs rule: rev_induct)
  case Nil
  show ?case by simp
next
  case (snoc b bs)
  then show ?case by (auto simp: nth_append less_Suc_eq)
qed

lemma code_at_iff_read: "code_at m a bs \<longleftrightarrow> read_bytes m a (length bs) = bs"
  by (auto simp: code_at_iff_nth list_eq_iff_nth_eq)

lemma code_at_read_bytes [simp]: "code_at m a (read_bytes m a n)"
  by (simp add: code_at_iff_nth)

lemma code_at_u32: "code_at m a (u32_le w) \<Longrightarrow> fetch32 m a = w"
  by (simp add: u32_le_def fetch32_def add.assoc)

lemma code_at_u64: "code_at m a (u64_le w) \<Longrightarrow> fetch64 m a = w"
  by (simp add: u64_le_def fetch64_def code_at_u32 [where w = "ucast w"]
      code_at_u32 [where w = "ucast (drop_bit 32 w)"])

lemma unat_of_nat_small:
  "i < n \<Longrightarrow> n \<le> 2 ^ LENGTH('u::len) \<Longrightarrow> unat (of_nat i :: 'u word) = i"
  by (simp add: unsigned_of_nat take_bit_nat_eq_self)

lemma write_bytes_at [simp]:
  assumes "length bs \<le> 2 ^ LENGTH('u::len)" "i < length bs"
  shows "write_bytes m (a :: 'u word) bs (a + of_nat i) = bs ! i"
  using assms by (simp add: write_bytes_def unat_of_nat_small [of i "length bs"])

lemma code_at_write_bytes [simp]:
  "length bs \<le> 2 ^ LENGTH('u::len) \<Longrightarrow> code_at (write_bytes m (a :: 'u word) bs) a bs"
  by (simp add: code_at_iff_nth)

lemma read_bytes_write_bytes [simp]:
  assumes "length bs \<le> 2 ^ LENGTH('u::len)" "n = length bs"
  shows "read_bytes (write_bytes m (a :: 'u word) bs) a n = bs"
  using assms by (simp add: list_eq_iff_nth_eq)

lemma write_bytes_write_bytes [simp]:
  "length xs = length ys \<Longrightarrow> write_bytes (write_bytes m a xs) a ys = write_bytes m a ys"
  by (simp add: write_bytes_def fun_eq_iff)

lemma write_bytes_read_bytes [simp]: "write_bytes m a (read_bytes m a n) = m"
  by (simp add: write_bytes_def fun_eq_iff)

lemma write_bytes_outside:
  "length bs \<le> unat (x - a) \<Longrightarrow> write_bytes m a bs x = m x"
  by (simp add: write_bytes_def)

section \<open>Saturating arithmetic, ranges and sign extension\<close>

definition saturating_sub :: "'u::len word \<Rightarrow> 'u word \<Rightarrow> 'u word" where
  "saturating_sub a b = (if a < b then 0 else a - b)"

definition saturating_add :: "'u::len word \<Rightarrow> 'u word \<Rightarrow> 'u word" where
  "saturating_add a b = (if a + b < a then - 1 else a + b)"

lemma uint_saturating_sub: "uint (saturating_sub a b) = max 0 (uint a - uint b)"
  by (auto simp: saturating_sub_def word_less_def uint_sub_if')

lemma uint_saturating_add:
  "uint (saturating_add a b) = min (2 ^ LENGTH('u) - 1) (uint a + uint b)"
  for a b :: "'u::len word"
proof -
  have lt: "uint a < 2 ^ LENGTH('u)" "uint b < 2 ^ LENGTH('u)"
    by (rule uint_lt2p)+
  have neg1: "uint (- 1 :: 'u word) = 2 ^ LENGTH('u) - 1"
    by (simp only: unsigned_minus_1_eq_mask mask_eq_exp_minus_1)
  show ?thesis
  proof (cases "uint a + uint b < 2 ^ LENGTH('u)")
    case True
    then have "uint (a + b) = uint a + uint b" by (simp add: uint_plus_if')
    with True show ?thesis by (simp add: saturating_add_def word_less_def)
  next
    case False
    then have "uint (a + b) = uint a + uint b - 2 ^ LENGTH('u)" by (simp add: uint_plus_if')
    with False lt neg1 show ?thesis by (simp add: saturating_add_def word_less_def)
  qed
qed

text \<open>The half-open \<^verbatim>\<open>Range<usize>\<close>: start included, end excluded.\<close>

definition in_range :: "'u::len word \<times> 'u word \<Rightarrow> 'u word \<Rightarrow> bool" where
  "in_range r x \<longleftrightarrow> fst r \<le> x \<and> x < snd r"

text \<open>\<^verbatim>\<open>((value << shift) as isize >> shift) as usize\<close> with \<^verbatim>\<open>shift = usize::BITS - bits\<close>.\<close>

definition sign_extend_bits :: "'u::len word \<Rightarrow> nat \<Rightarrow> 'u word" where
  "sign_extend_bits v bits = (let shift = LENGTH('u) - bits in signed_drop_bit shift (push_bit shift v))"

lemma sign_extend_bits_eq:
  assumes "0 < bits" "bits \<le> LENGTH('u::len)"
  shows "sign_extend_bits v bits = (signed_take_bit (bits - 1) v :: 'u word)"
  using assms
proof (intro bit_word_eqI)
  fix n
  assume n: "n < LENGTH('u)"
  show "bit (sign_extend_bits v bits) n \<longleftrightarrow> bit (signed_take_bit (bits - 1) v) n"
  proof (cases "n < bits")
    case True
    then have "n = bits - 1 \<or> n < bits - 1" by arith
    with True assms n show ?thesis
      by (auto simp: sign_extend_bits_def Let_def bit_simps min_def)
  next
    case False
    with assms n show ?thesis
      by (auto simp: sign_extend_bits_def Let_def bit_simps min_def)
  qed
qed

text \<open>Truncating a displacement and sign-extending it again, as a processor does.\<close>

lemma sint_ucast_narrow:
  assumes "LENGTH('b::len) \<le> LENGTH('a::len)"
  shows "sint (ucast (d :: 'a word) :: 'b word) = signed_take_bit (LENGTH('b) - 1) (sint d)"
  using assms by transfer (simp add: signed_take_bit_signed_take_bit signed_take_bit_take_bit min_def)

lemma scast_ucast_narrow:
  assumes "LENGTH('b::len) \<le> LENGTH('a::len)"
    and "- (2 ^ (LENGTH('b) - 1)) \<le> sint d" "sint d < 2 ^ (LENGTH('b) - 1)"
  shows "scast (ucast (d :: 'a word) :: 'b word) = d"
proof -
  have "sint (ucast d :: 'b word) = sint d"
    using assms by (simp add: sint_ucast_narrow signed_take_bit_int_eq_self)
  then have "(word_of_int (sint (ucast d :: 'b word)) :: 'a word) = word_of_int (sint d)"
    by simp
  then show ?thesis by simp
qed

lemma ucast_up_down [simp]:
  "LENGTH('a::len) \<le> LENGTH('b::len) \<Longrightarrow> ucast (ucast (x :: 'a word) :: 'b word) = x"
  by (rule bit_word_eqI) (auto simp: bit_simps)

text \<open>Truncation commutes with wrapping addition of a number.\<close>

lemma ucast_of_int_trunc:
  assumes "LENGTH('a::len) \<le> LENGTH('b::len)"
  shows "ucast (word_of_int z :: 'b word) = (word_of_int z :: 'a word)"
  using assms by transfer (simp add: min_def)

lemma ucast_add_trunc:
  assumes "LENGTH('a::len) \<le> LENGTH('b::len)"
  shows "ucast (ucast (x :: 'a word) + of_nat n :: 'b word) = x + of_nat n"
proof -
  have wide: "(ucast (x :: 'a word) + of_nat n :: 'b word) = word_of_int (uint x + int n)"
    by simp
  show ?thesis unfolding wide ucast_of_int_trunc [OF assms] by simp
qed

text \<open>Clearing the lowest bit of an even word.\<close>

lemma and_not_1_even: "\<not> bit w 0 \<Longrightarrow> w AND NOT 1 = (w :: 'u::len word)"
  by (rule bit_word_eqI) (auto simp: bit_simps intro!: gr0I)

text \<open>Words of 32 bits, bit by bit, and register numbers.\<close>

lemma u32_eqI:
  assumes "\<And>n. n \<in> set [0..<32] \<Longrightarrow> bit x n = bit y n"
  shows "(x :: u32) = y"
  using assms by (intro bit_word_eqI) auto

lemma and_1F_eq: "rd < 32 \<Longrightarrow> (rd :: u32) AND 0x1F = rd"
proof -
  assume "rd < 32"
  then have "take_bit 5 rd = rd"
    by (simp add: take_bit_eq_mod mod_word_less)
  then show ?thesis by (simp add: take_bit_eq_mask mask_eq_exp_minus_1)
qed

text \<open>An instruction whose bits under one mask are known fails or passes tests under others.\<close>

lemma mask_differ:
  assumes "(i :: u32) AND m1 = v1" "v1 AND m2 \<noteq> v2 AND m1"
  shows "i AND m2 \<noteq> v2"
  using assms by (metis and.assoc and.commute)

lemma mask_agree:
  assumes "(i :: u32) AND m1 = v1" "m1 AND m2 = m2"
  shows "i AND m2 = v1 AND m2"
  using assms by (metis and.assoc)

text \<open>Reading back an integer that fits.\<close>

lemma sint_word_of_int_u32:
  "- (2 ^ 31) \<le> k \<Longrightarrow> k < 2 ^ 31 \<Longrightarrow> sint (word_of_int k :: u32) = k"
  by (simp add: signed_of_int signed_take_bit_int_eq_self)

lemma sint_word_of_int_u64:
  "- (2 ^ 63) \<le> k \<Longrightarrow> k < 2 ^ 63 \<Longrightarrow> sint (word_of_int k :: u64) = k"
  by (simp add: signed_of_int signed_take_bit_int_eq_self)

text \<open>A word below a numeral is one of finitely many constants.\<close>

lemma word_less_of_nat_cases:
  assumes "x < (of_nat k :: 'a::len word)" "k < 2 ^ LENGTH('a)"
  shows "x \<in> of_nat ` set [0..<k]"
proof -
  have "unat x < k"
    using assms by (simp add: word_less_nat_alt unsigned_of_nat take_bit_nat_eq_self)
  then have "x = of_nat (unat x) \<and> unat x \<in> set [0..<k]" by simp
  then show ?thesis by blast
qed

text \<open>The bytes in groups of four, as \<^verbatim>\<open>chunks(4)\<close> gives them.\<close>

fun chunks4 :: "u8 list \<Rightarrow> u8 list list" where
  "chunks4 [] = []"
| "chunks4 (b0 # b1 # b2 # b3 # bs) = [b0, b1, b2, b3] # chunks4 bs"
| "chunks4 bs = [bs]"

lemma concat_chunks4: "concat (chunks4 bs) = bs"
  by (induction bs rule: chunks4.induct) auto

text \<open>\<^verbatim>\<open>Iterator::position\<close>\<close>

primrec iter_position :: "('p \<Rightarrow> bool) \<Rightarrow> 'p list \<Rightarrow> nat option" where
  "iter_position P [] = None"
| "iter_position P (x # xs) = (if P x then Some 0 else map_option Suc (iter_position P xs))"

lemma iter_position_Some:
  "iter_position P xs = Some i \<Longrightarrow> i < length xs \<and> P (xs ! i) \<and> (\<forall>j < i. \<not> P (xs ! j))"
proof (induction xs arbitrary: i)
  case (Cons x xs)
  then show ?case by (auto split: if_splits simp: nth_Cons split: nat.splits)
qed simp

lemma iter_position_None: "iter_position P xs = None \<longleftrightarrow> (\<forall>x \<in> set xs. \<not> P x)"
  by (induction xs) auto

end
