(* ===== verification/Pic.thy ===== *)
theory Pic
  imports Detour_Prelude
begin

text \<open>
  \<^verbatim>\<open>src/pic\<close>: position-independent code segments (thunks) and the emitter that places them
  one after the other at a base address. The trait \<^verbatim>\<open>Thunkable\<close> is the locale
  \<open>thunk_family\<close>: every constructor of thunks of a fixed size promises that the code it
  generates has that size at every address.
\<close>

section \<open>Thunks\<close>

text \<open>
  The implementors of \<^verbatim>\<open>Thunkable\<close>: a byte vector, a \<^verbatim>\<open>FixedThunk<N>\<close> (a closure whose
  result has a length fixed by its type) and an \<^verbatim>\<open>UnsafeThunk\<close> (a closure and a claimed
  size). A closure may panic, so it returns a \<open>res\<close>.
\<close>

datatype 'a thunk =
    VecThunk "u8 list"
  | FixedThunk nat "'a \<Rightarrow> u8 list res"
  | UnsafeThunk "'a \<Rightarrow> u8 list res" nat

text \<open>\<^verbatim>\<open>GenericArray::<u8, N>::clone_from_slice\<close> panics when the slice is not \<^verbatim>\<open>N\<close> bytes long.\<close>

definition clone_from_slice :: "nat \<Rightarrow> u8 list \<Rightarrow> u8 list res" where
  "clone_from_slice n bytes = (if length bytes = n then Ok bytes else Panic)"

definition fixed_thunk_new :: "nat \<Rightarrow> ('a \<Rightarrow> u8 list res) \<Rightarrow> 'a thunk" where
  "fixed_thunk_new n callback = FixedThunk n callback"

definition unsafe_thunk_new :: "('a \<Rightarrow> u8 list res) \<Rightarrow> nat \<Rightarrow> 'a thunk" where
  "unsafe_thunk_new callback sz = UnsafeThunk callback sz"

fun thunk_generate :: "'a thunk \<Rightarrow> 'a \<Rightarrow> u8 list res" where
  "thunk_generate (VecThunk v) _ = Ok v"
| "thunk_generate (FixedThunk n callback) address = callback address"
| "thunk_generate (UnsafeThunk callback sz) address = callback address"

fun thunk_len :: "'a thunk \<Rightarrow> nat" where
  "thunk_len (VecThunk v) = length v"
| "thunk_len (FixedThunk n callback) = n"
| "thunk_len (UnsafeThunk callback sz) = sz"

text \<open>The promise of a thunk: its code has its declared length, wherever it is generated.\<close>

definition honest :: "'a thunk \<Rightarrow> bool" where
  "honest t \<longleftrightarrow> (\<forall>a code. thunk_generate t a = Ok code \<longrightarrow> length code = thunk_len t)"

lemma honest_VecThunk [simp]: "honest (VecThunk v)"
  by (simp add: honest_def)

lemma clone_from_slice_Ok [simp]: "clone_from_slice n bs = Ok code \<longleftrightarrow> code = bs \<and> length bs = n"
  by (auto simp: clone_from_slice_def)

section \<open>The code emitter\<close>

record 'a code_emitter =
  thunks :: "'a thunk list"

definition emitter_new :: "'a code_emitter" where
  "emitter_new = \<lparr>thunks = []\<rparr>"

definition add_thunk :: "'a code_emitter \<Rightarrow> 'a thunk \<Rightarrow> 'a code_emitter" where
  "add_thunk e t = e\<lparr>thunks := thunks e @ [t]\<rparr>"

definition emitter_len :: "'a code_emitter \<Rightarrow> nat" where
  "emitter_len e = foldl (\<lambda>sum t. sum + thunk_len t) 0 (thunks e)"

text \<open>The loop of \<^verbatim>\<open>emit\<close>: \<open>result\<close> and \<open>base\<close> are its two mutable variables.\<close>

fun emit_loop :: "'u::len word thunk list \<Rightarrow> 'u word \<Rightarrow> u8 list \<Rightarrow> u8 list res" where
  "emit_loop [] base result = Ok result"
| "emit_loop (t # ts) base result =
     res_bind (thunk_generate t base) (\<lambda>code.
       if length code \<noteq> thunk_len t then Panic
       else emit_loop ts (base + of_nat (thunk_len t)) (result @ code))"

definition emit :: "'u::len word code_emitter \<Rightarrow> 'u word \<Rightarrow> u8 list res" where
  "emit e base = emit_loop (thunks e) base []"

section \<open>Properties of the emitter\<close>

lemma emitter_len_eq: "emitter_len e = sum_list (map thunk_len (thunks e))"
proof -
  have "foldl (\<lambda>sum t. sum + thunk_len t) k ts = k + sum_list (map thunk_len ts)"
    for k and ts :: "'a thunk list"
    by (induction ts arbitrary: k) simp_all
  then show ?thesis by (simp add: emitter_len_def)
qed

lemma thunks_add_thunk [simp]: "thunks (add_thunk e t) = thunks e @ [t]"
  by (simp add: add_thunk_def)

lemma thunks_emitter_new [simp]: "thunks emitter_new = []"
  by (simp add: emitter_new_def)

lemma emitter_len_new [simp]: "emitter_len emitter_new = 0"
  by (simp add: emitter_len_eq)

lemma emitter_len_add_thunk [simp]: "emitter_len (add_thunk e t) = emitter_len e + thunk_len t"
  by (simp add: emitter_len_eq)

lemma emit_loop_acc: "emit_loop ts base acc = res_map (\<lambda>code. acc @ code) (emit_loop ts base [])"
proof (induction ts arbitrary: base acc)
  case Nil
  show ?case by simp
next
  case (Cons t ts)
  show ?case
  proof (cases "thunk_generate t base")
    case (Ok code)
    show ?thesis
      by (simp add: Ok Cons.IH [of _ "acc @ code"] Cons.IH [of _ code])
         (cases "emit_loop ts (base + of_nat (thunk_len t)) []"; simp)
  qed simp_all
qed

lemma emit_loop_Cons:
  "emit_loop (t # ts) base [] =
     res_bind (thunk_generate t base) (\<lambda>code.
       if length code \<noteq> thunk_len t then Panic
       else res_map (\<lambda>rest. code @ rest) (emit_loop ts (base + of_nat (thunk_len t)) []))"
  unfolding emit_loop.simps append_Nil
  by (intro arg_cong [where f = "res_bind (thunk_generate t base)"] ext if_cong refl emit_loop_acc)

lemma emit_loop_append:
  "emit_loop (ts @ us) base [] =
     res_bind (emit_loop ts base []) (\<lambda>xs.
       res_map (\<lambda>ys. xs @ ys) (emit_loop us (base + of_nat (sum_list (map thunk_len ts))) []))"
proof (induction ts arbitrary: base)
  case Nil
  then show ?case by (cases "emit_loop us base []") simp_all
next
  case (Cons t ts)
  show ?case
  proof (cases "thunk_generate t base")
    case (Ok code)
    then show ?thesis
      unfolding append_Cons emit_loop_Cons Cons.IH
      by (cases "emit_loop ts (base + of_nat (thunk_len t)) []";
          cases "emit_loop us (base + of_nat (thunk_len t) + of_nat (sum_list (map thunk_len ts))) []")
         (simp_all add: add.assoc)
  qed (simp_all add: emit_loop_Cons)
qed

lemma length_emit_loop:
  "emit_loop ts base [] = Ok code \<Longrightarrow> length code = sum_list (map thunk_len ts)"
proof (induction ts arbitrary: base code)
  case Nil
  then show ?case by simp
next
  case (Cons t ts)
  then show ?case
    unfolding emit_loop_Cons by (auto split: if_splits)
qed

lemma length_emit: "emit e base = Ok code \<Longrightarrow> length code = emitter_len e"
  by (simp add: emit_def emitter_len_eq length_emit_loop)

lemma emit_add_thunk:
  "emit (add_thunk e t) base =
     res_bind (emit e base) (\<lambda>xs.
       res_bind (thunk_generate t (base + of_nat (emitter_len e))) (\<lambda>code.
         if length code \<noteq> thunk_len t then Panic else Ok (xs @ code)))"
  unfolding emit_def thunks_add_thunk emit_loop_append emitter_len_eq
  by (cases "emit_loop (thunks e) base []";
      cases "thunk_generate t (base + of_nat (sum_list (map thunk_len (thunks e))))")
     simp_all

lemma emit_new [simp]: "emit emitter_new base = Ok []"
  by (simp add: emit_def)

text \<open>Emission panics only when a closure panics or breaks its promise, and never errs.\<close>

lemma emit_loop_no_Err:
  assumes "\<And>t a e. t \<in> set ts \<Longrightarrow> thunk_generate t a \<noteq> Err e"
  shows "emit_loop ts base [] \<noteq> Err e"
  using assms
proof (induction ts arbitrary: base)
  case Nil
  show ?case by simp
next
  case (Cons t ts)
  then have t: "thunk_generate t base \<noteq> Err e" by simp
  have ts: "emit_loop ts (base + of_nat (thunk_len t)) [] \<noteq> Err e"
    using Cons.prems by (intro Cons.IH) simp
  show ?case
    using t ts unfolding emit_loop_Cons
    by (cases "thunk_generate t base";
        cases "emit_loop ts (base + of_nat (thunk_len t)) []") auto
qed

text \<open>
  Placement: the code of the thunk at position \<open>length ts\<close> is the one generated for the
  address at which it ends up, the base advanced by the lengths before it.
\<close>

lemma emit_placement:
  assumes "thunks e = ts @ t # us" "emit e base = Ok code" "code_at m base code"
  shows "\<exists>piece. thunk_generate t (base + of_nat (sum_list (map thunk_len ts))) = Ok piece
    \<and> length piece = thunk_len t
    \<and> code_at m (base + of_nat (sum_list (map thunk_len ts))) piece"
proof -
  obtain xs ys where xs: "emit_loop ts base [] = Ok xs"
    and ys: "emit_loop (t # us) (base + of_nat (sum_list (map thunk_len ts))) [] = Ok ys"
    and code: "code = xs @ ys"
    using assms(1,2) by (auto simp: emit_def emit_loop_append)
  from ys obtain piece rest
    where "thunk_generate t (base + of_nat (sum_list (map thunk_len ts))) = Ok piece"
      and "length piece = thunk_len t" and "ys = piece @ rest"
    unfolding emit_loop_Cons by (auto split: if_splits)
  with assms(3) code length_emit_loop [OF xs] show ?thesis by auto
qed

section \<open>The interface of a family of thunks\<close>

text \<open>
  A constructor \<open>build\<close> of thunks of one size, as the thunk modules export them
  (\<^verbatim>\<open>jmp_rel32\<close>, \<^verbatim>\<open>jmp_abs\<close>, ...). The parameter carries the operands.
\<close>

locale thunk_family =
  fixes build :: "'p \<Rightarrow> 'u::len word thunk" and sz :: nat
  assumes build_len: "thunk_len (build p) = sz"
    and build_honest: "honest (build p)"
begin

lemma emit_single:
  "emit (add_thunk emitter_new (build p)) base = thunk_generate (build p) base"
proof (cases "thunk_generate (build p) base")
  case (Ok code)
  then show ?thesis
    using build_honest [of p] by (auto simp: emit_add_thunk honest_def)
qed (simp_all add: emit_add_thunk)

lemma emit_snoc:
  "emit (add_thunk e (build p)) base =
     res_bind (emit e base) (\<lambda>xs. res_map (\<lambda>code. xs @ code)
       (thunk_generate (build p) (base + of_nat (emitter_len e))))"
proof (cases "thunk_generate (build p) (base + of_nat (emitter_len e))")
  case (Ok code)
  then show ?thesis
    using build_honest [of p] by (auto simp: emit_add_thunk honest_def)
qed (simp_all add: emit_add_thunk)

lemma generate_length: "thunk_generate (build p) a = Ok code \<Longrightarrow> length code = sz"
  using build_honest [of p] by (simp add: honest_def build_len)

end

interpretation vec_thunk: thunk_family "\<lambda>b. VecThunk [b]" 1
  by unfold_locales simp_all

text \<open>
  A jump thunk is a family that transfers control: \<open>runs_to m pc dest\<close> says that a
  processor executing the memory \<open>m\<close> from \<open>pc\<close> arrives at \<open>dest\<close>, and \<open>reach\<close>
  says for which source and destination the encoding can express the jump.
\<close>

locale jump_thunk = thunk_family jmp sz
  for jmp :: "'u::len word \<Rightarrow> 'u word thunk" and sz :: nat +
  fixes reach :: "'u word \<Rightarrow> 'u word \<Rightarrow> bool"
    and runs_to :: "'u mem \<Rightarrow> 'u word \<Rightarrow> 'u word \<Rightarrow> bool"
  assumes jmp_generates: "reach src dest \<Longrightarrow> \<exists>code. thunk_generate (jmp dest) src = Ok code"
    and jmp_lands: "reach src dest \<Longrightarrow> thunk_generate (jmp dest) src = Ok code \<Longrightarrow>
      code_at m src code \<Longrightarrow> runs_to m src dest"
begin

text \<open>A closing jump: whatever precedes it, it sits right after it and lands on its target.\<close>

lemma closing_jump_lands:
  assumes "thunks e = ts @ [jmp dest]" "emit e base = Ok code" "code_at m base code"
    and "reach (base + of_nat (sum_list (map thunk_len ts))) dest"
  shows "runs_to m (base + of_nat (sum_list (map thunk_len ts))) dest"
proof -
  obtain piece where "thunk_generate (jmp dest) (base + of_nat (sum_list (map thunk_len ts))) = Ok piece"
    and "code_at m (base + of_nat (sum_list (map thunk_len ts))) piece"
    using emit_placement [OF assms(1-3)] by blast
  then show ?thesis using jmp_lands assms(4) by blast
qed

text \<open>A relay is an emitter with a single jump.\<close>

lemma relay_lands:
  assumes "emit (add_thunk emitter_new (jmp dest)) base = Ok code" "code_at m base code"
    and "reach base dest"
  shows "runs_to m base dest"
  using assms jmp_lands by (simp add: emit_single)

end

end
