(* ===== verification/Arch_Common.thy ===== *)
theory Arch_Common
  imports Pic
begin

text \<open>
  What the architecture modules share: the range test of \<^verbatim>\<open>src/arch/mod.rs\<close> and the struct
  \<^verbatim>\<open>Patcher\<close>, which \<^verbatim>\<open>x86\<close>, \<^verbatim>\<open>aarch64\<close>, \<^verbatim>\<open>arm\<close> and \<^verbatim>\<open>riscv\<close> declare with the same
  fields and the same \<^verbatim>\<open>area\<close> and \<^verbatim>\<open>toggle\<close>. Each module builds its patcher in its own way
  (\<^verbatim>\<open>Patcher::new\<close>); the contract they share is the locale \<open>patcher_module\<close>.
\<close>

section \<open>The range test\<close>

text \<open>\<open>rng\<close> is \<^verbatim>\<open>meta::DETOUR_RANGE as i64\<close>; the displacement is read as a signed word.\<close>

definition is_within_range :: "int \<Rightarrow> 'u::len word \<Rightarrow> bool" where
  "is_within_range rng displacement \<longleftrightarrow> - rng \<le> sint displacement \<and> sint displacement < rng"

section \<open>Patchers\<close>

text \<open>The patch area is a slice of the target's code: its address and its length.\<close>

record 'a patcher =
  area_ptr :: 'a
  area_len :: nat
  original_prolog :: "u8 list"
  detour_prolog :: "u8 list"

definition patcher_area :: "'u::len word patcher \<Rightarrow> 'u word \<times> nat" where
  "patcher_area p = (area_ptr p, area_len p)"

text \<open>\<^verbatim>\<open>copy_from_slice\<close> panics when the two lengths differ.\<close>

definition copy_from_slice :: "'u::len mem \<Rightarrow> 'u word \<Rightarrow> nat \<Rightarrow> u8 list \<Rightarrow> 'u mem res" where
  "copy_from_slice m dst n src = (if length src \<noteq> n then Panic else Ok (write_bytes m dst src))"

definition patcher_toggle :: "'u::len word patcher \<Rightarrow> bool \<Rightarrow> 'u mem \<Rightarrow> 'u mem res" where
  "patcher_toggle p enable m =
     copy_from_slice m (area_ptr p) (area_len p)
       (if enable then detour_prolog p else original_prolog p)"

text \<open>A patcher whose three parts fit together; \<^verbatim>\<open>toggle\<close> never panics on one.\<close>

definition patcher_wf :: "'u::len word patcher \<Rightarrow> bool" where
  "patcher_wf p \<longleftrightarrow> length (original_prolog p) = area_len p \<and> length (detour_prolog p) = area_len p"

lemma patcher_toggle_wf:
  "patcher_wf p \<Longrightarrow> patcher_toggle p enable m =
     Ok (write_bytes m (area_ptr p) (if enable then detour_prolog p else original_prolog p))"
  by (simp add: patcher_toggle_def copy_from_slice_def patcher_wf_def)

text \<open>
  The contract of an architecture's \<^verbatim>\<open>Patcher::new\<close>: on success the patcher is well formed,
  its original bytes are those in memory, and its area touches the target.
\<close>

locale patcher_module =
  fixes new :: "'u::len mem \<Rightarrow> 'u word \<Rightarrow> 'u word \<Rightarrow> nat \<Rightarrow> 'u word patcher res"
    and reaches :: "'u mem \<Rightarrow> 'u word \<Rightarrow> 'u word \<Rightarrow> bool"
    and linkable :: "'u word patcher \<Rightarrow> 'u word \<Rightarrow> 'u word \<Rightarrow> bool"
  assumes new_wf: "new m target detour n = Ok p \<Longrightarrow> patcher_wf p"
    and new_original: "new m target detour n = Ok p \<Longrightarrow>
      original_prolog p = read_bytes m (area_ptr p) (area_len p)"
    and linkable_fits: "new m target detour n = Ok p \<Longrightarrow> linkable p target detour \<Longrightarrow>
      area_len p \<le> 2 ^ LENGTH('u)"
    and new_reaches: "new m target detour n = Ok p \<Longrightarrow> linkable p target detour \<Longrightarrow>
      code_at m' (area_ptr p) (detour_prolog p) \<Longrightarrow> reaches m' target detour"
begin

text \<open>Enabling and then disabling gives back the very memory the patcher was built on.\<close>

lemma toggle_round_trip:
  assumes "new m target detour n = Ok p"
  shows "res_bind (patcher_toggle p True m) (patcher_toggle p False) = Ok m"
proof -
  have wf: "patcher_wf p" by (rule new_wf [OF assms])
  have len: "length (detour_prolog p) = length (original_prolog p)"
    using wf by (simp add: patcher_wf_def)
  then show ?thesis
    by (simp add: patcher_toggle_wf [OF wf] new_original [OF assms])
qed

text \<open>Disabling first is a no-op on that memory.\<close>

lemma toggle_off_idle:
  assumes "new m target detour n = Ok p"
  shows "patcher_toggle p False m = Ok m"
  by (simp add: patcher_toggle_wf [OF new_wf [OF assms]] new_original [OF assms])

text \<open>Once enabled, whoever calls the target arrives at the detour, whatever else changed.\<close>

lemma toggle_on_reaches:
  assumes "new m target detour n = Ok p" "linkable p target detour"
    and "patcher_toggle p True m1 = Ok m2"
  shows "reaches m2 target detour"
proof -
  have wf: "patcher_wf p" by (rule new_wf [OF assms(1)])
  from assms(3) have "m2 = write_bytes m1 (area_ptr p) (detour_prolog p)"
    by (simp add: patcher_toggle_wf [OF wf])
  moreover have "length (detour_prolog p) \<le> 2 ^ LENGTH('u)"
    using wf linkable_fits [OF assms(1,2)] by (simp add: patcher_wf_def)
  ultimately show ?thesis
    by (intro new_reaches [OF assms(1,2)]) simp
qed

text \<open>Only the patch area changes.\<close>

lemma toggle_frame:
  assumes "new m target detour n = Ok p" "patcher_toggle p enable m1 = Ok m2"
    and "area_len p \<le> unat (x - area_ptr p)"
  shows "m2 x = m1 x"
proof -
  have wf: "patcher_wf p" by (rule new_wf [OF assms(1)])
  with assms(2,3) show ?thesis
    by (auto simp: patcher_toggle_wf [OF wf] patcher_wf_def write_bytes_outside)
qed

end

section \<open>Trampolines and their builders\<close>

text \<open>
  The struct \<^verbatim>\<open>Builder\<close> of the four trampoline modules (\<open>total_bytes\<close> is
  \<^verbatim>\<open>total_bytes_disassembled\<close> on x86), and the struct \<^verbatim>\<open>Trampoline\<close>.
\<close>

record 'a builder =
  b_target :: 'a
  margin :: nat
  total_bytes :: nat
  finished :: bool
  branch_address :: "'a option"

record 'a trampoline =
  tramp_emitter :: "'a code_emitter"
  tramp_prolog_size :: nat

definition builder_new :: "'a \<Rightarrow> nat \<Rightarrow> 'a builder" where
  "builder_new target m =
     \<lparr>b_target = target, margin = m, total_bytes = 0, finished = False, branch_address = None\<rparr>"

text \<open>\<^verbatim>\<open>target_addr..target_addr + self.margin\<close>\<close>

definition prolog_range :: "'u::len word builder \<Rightarrow> 'u word \<times> 'u word" where
  "prolog_range b = (b_target b, b_target b + of_nat (margin b))"

text \<open>The furthest internal branch target seen so far (not on x86, which keeps the last).\<close>

definition track_branch :: "'u::len word \<Rightarrow> 'u word builder \<Rightarrow> 'u word builder" where
  "track_branch dest b =
     (case branch_address b of
        None \<Rightarrow> b\<lparr>branch_address := Some dest\<rparr>
      | Some existing \<Rightarrow> if dest > existing then b\<lparr>branch_address := Some dest\<rparr> else b)"

definition is_in_branch :: "'u::len word builder \<Rightarrow> 'u word \<Rightarrow> bool" where
  "is_in_branch b pc = (case branch_address b of None \<Rightarrow> False | Some addr \<Rightarrow> pc < addr)"

lemma track_branch_simps [simp]:
  "b_target (track_branch d b) = b_target b"
  "margin (track_branch d b) = margin b"
  "total_bytes (track_branch d b) = total_bytes b"
  "finished (track_branch d b) = finished b"
  by (simp_all add: track_branch_def split: option.splits)

lemma builder_new_simps [simp]:
  "b_target (builder_new t k) = t"
  "margin (builder_new t k) = k"
  "total_bytes (builder_new t k) = 0"
  "\<not> finished (builder_new t k)"
  "branch_address (builder_new t k) = None"
  by (simp_all add: builder_new_def)

lemma is_in_branch_new [simp]: "\<not> is_in_branch (builder_new t k) pc"
  by (simp add: is_in_branch_def)

end
