(* ===== verification/Region_Query.thy ===== *)
theory Region_Query
  imports Detour_Prelude
begin

text \<open>
  \<^verbatim>\<open>src/util.rs\<close> and the conversion of \<^verbatim>\<open>src/error.rs\<close>. The operating system's memory map is
  read through \<^verbatim>\<open>region::query\<close> of the third-party crate \<^verbatim>\<open>region\<close>, a parameter of the model:
  it takes an address and returns the region that holds it or an error, \<open>FreeMemory\<close> when
  nothing is mapped there.
\<close>

datatype protection = READ | WRITE | EXECUTE

record 'a region =
  lower :: 'a
  upper :: 'a
  region_protection :: "protection list"

type_synonym 'a query = "'a \<Rightarrow> region_error + 'a region"

text \<open>\<^verbatim>\<open>impl From<region::Error> for Error\<close>, applied by every \<^verbatim>\<open>?\<close> on a region result.\<close>

definition error_from :: "region_error \<Rightarrow> error" where
  "error_from e = RegionFailure e"

definition is_executable_address :: "'a query \<Rightarrow> 'a \<Rightarrow> bool res" where
  "is_executable_address query address =
     (case query address of
        Inl e \<Rightarrow> Err (error_from e)
      | Inr r \<Rightarrow> Ok (EXECUTE \<in> set (region_protection r)))"

text \<open>\<^verbatim>\<open>StdError::source\<close>: only a region failure has an underlying cause.\<close>

fun error_source :: "error \<Rightarrow> region_error option" where
  "error_source (RegionFailure e) = Some e"
| "error_source _ = None"

text \<open>The messages of \<^verbatim>\<open>Display\<close>; \<open>show_region\<close> is the third-party formatting of a region error.\<close>

fun error_message :: "(region_error \<Rightarrow> string) \<Rightarrow> error \<Rightarrow> string" where
  "error_message show_region SameAddress = ''Target and detour address is the same''"
| "error_message show_region InvalidCode = ''Address contains invalid assembly''"
| "error_message show_region NoPatchArea = ''Cannot find an inline patch area''"
| "error_message show_region NotExecutable = ''Address is not executable''"
| "error_message show_region NotInitialized = ''Detour is not initialized''"
| "error_message show_region AlreadyInitialized = ''Detour is already initialized''"
| "error_message show_region OutOfMemory = ''Cannot allocate memory''"
| "error_message show_region UnsupportedInstruction =
     ''Address contains an unsupported instruction''"
| "error_message show_region (RegionFailure e) = show_region e"

lemma error_source_from [simp]: "error_source (error_from e) = Some e"
  by (simp add: error_from_def)

lemma is_executable_address_cases:
  "is_executable_address query a = Ok b \<longleftrightarrow>
     (\<exists>r. query a = Inr r \<and> b = (EXECUTE \<in> set (region_protection r)))"
  "is_executable_address query a = Err e \<longleftrightarrow> (\<exists>x. query a = Inl x \<and> e = RegionFailure x)"
  "is_executable_address query a \<noteq> Panic"
  by (auto simp: is_executable_address_def error_from_def split: sum.splits)

end
