(* ===== verification/Alloc_Search.thy ===== *)
theory Alloc_Search
  imports Region_Query
begin

text \<open>
  \<^verbatim>\<open>src/alloc/search.rs\<close>: the iterators over free memory after and before an address. The
  operating system's memory map is the parameter \<open>q\<close> (\<^verbatim>\<open>region::query\<close>), the page size the
  parameter \<open>page_size\<close>. The loop of \<^verbatim>\<open>next\<close> ends only if the queried regions make progress, so
  it is a partial function: \<open>None\<close> is a loop that does not end.
\<close>

section \<open>The iterator\<close>

datatype search_direction = Before | After

record 'a free_region_iter =
  iter_range :: "'a \<times> 'a"
  iter_search :: search_direction
  iter_current :: 'a

definition free_region_iter_new ::
  "'u::len word \<Rightarrow> ('u word \<times> 'u word) option \<Rightarrow> search_direction \<Rightarrow> 'u word free_region_iter" where
  "free_region_iter_new origin rng search =
     \<lparr>iter_range = (case rng of Some r \<Rightarrow> r | None \<Rightarrow> (0, - 1)),
      iter_search = search, iter_current = origin\<rparr>"

definition search_after :: "'u::len word \<Rightarrow> ('u word \<times> 'u word) option \<Rightarrow> 'u word free_region_iter" where
  "search_after origin rng = free_region_iter_new origin rng After"

definition search_before :: "'u::len word \<Rightarrow> ('u word \<times> 'u word) option \<Rightarrow> 'u word free_region_iter" where
  "search_before origin rng = free_region_iter_new origin rng Before"

text \<open>\<^verbatim>\<open>a + b\<close> on \<^verbatim>\<open>usize\<close>: with overflow checks (\<open>dbg\<close>) it panics, without it wraps.\<close>

definition usize_add :: "bool \<Rightarrow> 'u::len word \<Rightarrow> 'u word \<Rightarrow> 'u word res" where
  "usize_add dbg a b = (if dbg \<and> a + b < a then Panic else Ok (a + b))"

text \<open>
  \<^verbatim>\<open>next\<close>: the item, none at the end of the range, and the advanced iterator. An item is an
  address or the error of a failed query.
\<close>

partial_function (option) free_region_next ::
  "bool \<Rightarrow> 'u::len word query \<Rightarrow> 'u word \<Rightarrow> 'u word free_region_iter
     \<Rightarrow> ((error + 'u word) option \<times> 'u word free_region_iter) res option" where
  "free_region_next dbg q page_size it =
     (if iter_current it > 0 \<and> in_range (iter_range it) (iter_current it) then
        (case q (iter_current it) of
           Inr region \<Rightarrow> free_region_next dbg q page_size (it\<lparr>iter_current :=
               (case iter_search it of
                  Before \<Rightarrow> saturating_sub (lower region) page_size
                | After \<Rightarrow> upper region)\<rparr>)
         | Inl err \<Rightarrow>
             (let result = Some (case err of FreeMemory \<Rightarrow> Inr (iter_current it) | _ \<Rightarrow> Inl (RegionFailure err)) in
              Some (res_bind
                (case iter_search it of
                   Before \<Rightarrow> Ok (saturating_sub (iter_current it) page_size)
                 | After \<Rightarrow> usize_add dbg (iter_current it) page_size)
                (\<lambda>next. Ok (result, it\<lparr>iter_current := next\<rparr>)))))
      else Some (Ok (None, it)))"

section \<open>Termination and soundness\<close>

text \<open>What the documentation of \<^verbatim>\<open>region::query\<close> promises: the region holds the address.\<close>

definition query_covers :: "'u::len word query \<Rightarrow> bool" where
  "query_covers q \<longleftrightarrow> (\<forall>a r. q a = Inr r \<longrightarrow> lower r \<le> a \<and> a < upper r)"

definition occupied :: "'u::len word query \<Rightarrow> 'u word \<Rightarrow> bool" where
  "occupied q x \<longleftrightarrow> (\<exists>y r. q y = Inr r \<and> lower r \<le> x \<and> x < upper r)"

lemma saturating_sub_le: "saturating_sub a b \<le> (a :: 'u::len word)"
  by (simp add: saturating_sub_def word_sub_le not_less)

lemma saturating_sub_less: "0 < b \<Longrightarrow> 0 < a \<Longrightarrow> saturating_sub a b < (a :: 'u::len word)"
proof -
  assume "0 < b" "0 < a"
  then show ?thesis
    using uint_saturating_sub [of a b] by (simp add: word_less_def)
qed

definition iter_measure :: "'u::len word free_region_iter \<Rightarrow> nat" where
  "iter_measure it = (case iter_search it of
     Before \<Rightarrow> unat (iter_current it) | After \<Rightarrow> 2 ^ LENGTH('u) - unat (iter_current it))"

lemma region_step_measure:
  assumes "query_covers q" "0 < page_size" "0 < iter_current it" "q (iter_current it) = Inr region"
  shows "iter_measure (it\<lparr>iter_current := (case iter_search it of
    Before \<Rightarrow> saturating_sub (lower region) page_size | After \<Rightarrow> upper region)\<rparr>) < iter_measure it"
proof (cases "iter_search it")
  case Before
  have le: "lower region \<le> iter_current it" using assms(1,4) by (simp add: query_covers_def)
  have "saturating_sub (lower region) page_size < iter_current it"
  proof (cases "lower region = 0")
    case True
    then show ?thesis using assms(3) saturating_sub_le [of "lower region" page_size] by (simp add: order.strict_trans1)
  next
    case False
    then show ?thesis using saturating_sub_less [OF assms(2), of "lower region"] le by (simp add: word_gt_0)
  qed
  then show ?thesis using Before by (simp add: iter_measure_def word_less_nat_alt)
next
  case After
  have "iter_current it < upper region" using assms(1,4) by (simp add: query_covers_def)
  then show ?thesis
    using After unsigned_less [of "iter_current it"] by (simp add: iter_measure_def word_less_nat_alt diff_less_mono2)
qed

text \<open>After an item the iterator has advanced, unless the end of the address space wraps around.\<close>

lemma free_region_next_advances:
  fixes q :: "'u::len word query"
  assumes "query_covers q" "0 < page_size"
    and "free_region_next dbg q page_size it = Some (Ok (Some x, it'))"
    and "unat (snd (iter_range it)) + unat page_size \<le> 2 ^ LENGTH('u)"
  shows "iter_measure it' < iter_measure it \<and> iter_range it' = iter_range it
    \<and> iter_search it' = iter_search it"
  using assms(3,4)
proof (induction it rule: measure_induct_rule [of iter_measure])
  case (less it)
  have active: "iter_current it > 0 \<and> in_range (iter_range it) (iter_current it)"
    using less.prems(1) by (subst (asm) free_region_next.simps) (auto split: if_splits)
  show ?case
  proof (cases "q (iter_current it)")
    case (Inr region)
    let ?next = "it\<lparr>iter_current := (case iter_search it of
      Before \<Rightarrow> saturating_sub (lower region) page_size | After \<Rightarrow> upper region)\<rparr>"
    have eq: "free_region_next dbg q page_size it = free_region_next dbg q page_size ?next"
      using active Inr by (subst free_region_next.simps) simp
    have dec: "iter_measure ?next < iter_measure it"
      using region_step_measure [OF assms(1,2) _ Inr] active by blast
    from less.IH [OF dec] less.prems dec show ?thesis unfolding eq by simp
  next
    case (Inl err)
    show ?thesis
    proof (cases "iter_search it")
      case Before
      then have "it' = it\<lparr>iter_current := saturating_sub (iter_current it) page_size\<rparr>"
        using less.prems(1) active Inl by (subst (asm) free_region_next.simps) (simp add: Let_def)
      then show ?thesis
        using Before active saturating_sub_less [OF assms(2), of "iter_current it"]
        by (simp add: iter_measure_def word_less_nat_alt)
    next
      case After
      then have it': "it' = it\<lparr>iter_current := iter_current it + page_size\<rparr>"
        using less.prems(1) active Inl
        by (subst (asm) free_region_next.simps) (simp add: Let_def usize_add_def split: if_splits)
      have "unat (iter_current it) + unat page_size < 2 ^ LENGTH('u)"
        using active less.prems(2) by (simp add: in_range_def word_less_nat_alt)
      then have "unat (iter_current it + page_size) = unat (iter_current it) + unat page_size"
        by (simp add: unat_word_ariths)
      moreover have "0 < unat page_size" using assms(2) by (simp add: word_less_nat_alt)
      ultimately show ?thesis
        using After it' \<open>unat (iter_current it) + _ < _\<close> by (simp add: iter_measure_def)
    qed
  qed
qed

text \<open>With room for one more page after the range, \<^verbatim>\<open>next\<close> does not overflow.\<close>

lemma free_region_next_no_panic:
  fixes q :: "'u::len word query"
  assumes "query_covers q" "0 < page_size"
    and "unat (snd (iter_range it)) + unat page_size \<le> 2 ^ LENGTH('u)"
  shows "free_region_next dbg q page_size it \<noteq> Some Panic \<and> free_region_next dbg q page_size it \<noteq> Some (Err e)"
  using assms(3)
proof (induction it rule: measure_induct_rule [of iter_measure])
  case (less it)
  show ?case
  proof (cases "iter_current it > 0 \<and> in_range (iter_range it) (iter_current it)")
    case False
    then show ?thesis by (subst (1 2) free_region_next.simps) (simp add: if_not_P)
  next
    case True
    show ?thesis
    proof (cases "q (iter_current it)")
      case (Inr region)
      let ?next = "it\<lparr>iter_current := (case iter_search it of
        Before \<Rightarrow> saturating_sub (lower region) page_size | After \<Rightarrow> upper region)\<rparr>"
      have "free_region_next dbg q page_size it = free_region_next dbg q page_size ?next"
        using True Inr by (subst free_region_next.simps) simp
      then show ?thesis
        using less.IH [OF region_step_measure [OF assms(1,2) _ Inr]] True less.prems by simp
    next
      case (Inl err)
      have "unat (iter_current it) + unat page_size < 2 ^ LENGTH('u)"
        using True less.prems by (simp add: in_range_def word_less_nat_alt)
      then have "unat (iter_current it + page_size) = unat (iter_current it) + unat page_size"
        by (simp add: unat_word_ariths)
      then have "usize_add dbg (iter_current it) page_size = Ok (iter_current it + page_size)"
        by (simp add: usize_add_def word_less_nat_alt)
      then show ?thesis
        using True Inl by (subst (1 2) free_region_next.simps) (simp add: Let_def split: search_direction.splits)
    qed
  qed
qed

text \<open>One call returns, and an address it yields is free and lies in the range.\<close>

lemma free_region_next_found:
  fixes q :: "'u::len word query"
  assumes "query_covers q" "0 < page_size"
  shows "\<exists>r. free_region_next dbg q page_size it = Some r
    \<and> (\<forall>a it'. r = Ok (Some (Inr a), it') \<longrightarrow> q a = Inl FreeMemory \<and> in_range (iter_range it) a)"
proof (induction it rule: measure_induct_rule [of iter_measure])
  case (less it)
  show ?case
  proof (cases "iter_current it > 0 \<and> in_range (iter_range it) (iter_current it)")
    case False
    then show ?thesis by (subst free_region_next.simps) (simp add: if_not_P)
  next
    case True
    show ?thesis
    proof (cases "q (iter_current it)")
      case (Inl err)
      show ?thesis
        using True Inl by (subst free_region_next.simps)
          (auto simp: Let_def split: search_direction.splits region_error.splits)
    next
      case (Inr region)
      then show ?thesis
        using True less.IH [OF region_step_measure [OF assms _ Inr]]
        by (subst free_region_next.simps) simp
    qed
  qed
qed

section \<open>Where the search stops\<close>

text \<open>
  The loop of \<^verbatim>\<open>next\<close> skips occupied memory only. Searching upwards, everything between the start
  and the address it stops at is occupied; searching downwards, everything from one page above that
  address up to the end of the page of the start is. Downwards this needs what \<^verbatim>\<open>region\<close>
  documents, that regions consist of whole pages.
\<close>

definition query_pages :: "'u::len word query \<Rightarrow> 'u word \<Rightarrow> bool" where
  "query_pages q page_size \<longleftrightarrow> (\<forall>a r. q a = Inr r \<longrightarrow>
     unat page_size dvd unat (lower r) \<and> unat page_size dvd unat (upper r))"

definition skips_occupied :: "'u::len word query \<Rightarrow> 'u word \<Rightarrow> 'u word free_region_iter \<Rightarrow> 'u word \<Rightarrow> bool" where
  "skips_occupied q page_size it a \<longleftrightarrow> (case iter_search it of
     After \<Rightarrow> iter_current it \<le> a \<and> (\<forall>x. iter_current it \<le> x \<and> x < a \<longrightarrow> occupied q x)
   | Before \<Rightarrow> a \<le> iter_current it
       \<and> (\<forall>x. unat a + unat page_size \<le> unat x \<and> unat x div unat page_size \<le> unat (iter_current it) div unat page_size
            \<longrightarrow> occupied q x))"

text \<open>The iterator whose next query decides: it is at the end, or the query fails.\<close>

definition iter_active :: "'u::len word free_region_iter \<Rightarrow> bool" where
  "iter_active it \<longleftrightarrow> iter_current it > 0 \<and> in_range (iter_range it) (iter_current it)"

definition stops_at :: "'u::len word query \<Rightarrow> 'u word free_region_iter \<Rightarrow> bool" where
  "stops_at q it \<longleftrightarrow> (iter_active it \<longrightarrow> (\<exists>e. q (iter_current it) = Inl e))"

lemma saturating_sub_unat: "unat (saturating_sub a b) = unat (a :: 'u::len word) - unat b"
  by (simp add: saturating_sub_def word_less_nat_alt unat_sub word_le_nat_alt split: if_splits)

lemma page_index_below:
  "\<lbrakk>p dvd u; 0 < p; x div p \<le> c div p; c < u\<rbrakk> \<Longrightarrow> x < (u :: nat)"
  by (metis dvd_mult_div_cancel less_mult_imp_div_less linorder_not_le mult.commute order_le_less_trans
    div_less_iff_less_mult)

lemma page_index_before:
  assumes "p dvd l" "0 < p" "x < (l :: nat)"
  shows "x div p \<le> (l - p) div p"
proof -
  obtain k where l: "l = p * k" using assms(1) by (rule dvdE)
  have "x div p < k" using assms(2,3) by (simp add: l less_mult_imp_div_less mult.commute)
  moreover have "l - p = p * (k - 1)" by (simp add: l diff_mult_distrib2)
  ultimately show ?thesis using assms(2) by simp
qed

lemma page_index_beyond: "\<lbrakk>0 < p; c + p \<le> (x :: nat)\<rbrakk> \<Longrightarrow> c div p < x div p"
  using div_le_mono [of "c + p" x p] by (simp add: div_add_self2)

lemma skips_here:
  assumes "0 < page_size"
  shows "skips_occupied q page_size it (iter_current it)"
proof -
  have "0 < unat page_size" using assms by (simp add: word_less_nat_alt)
  then have "occupied q x" if "unat (iter_current it) + unat page_size \<le> unat x"
      "unat x div unat page_size \<le> unat (iter_current it) div unat page_size" for x
    using page_index_beyond [OF _ that(1)] that(2) by simp
  then show ?thesis by (auto simp: skips_occupied_def split: search_direction.split)
qed

lemma skips_region:
  assumes "query_covers q" "query_pages q page_size" "0 < page_size" "q (iter_current it) = Inr region"
    and next_def: "next = it\<lparr>iter_current := (case iter_search it of
      Before \<Rightarrow> saturating_sub (lower region) page_size | After \<Rightarrow> upper region)\<rparr>"
    and later: "skips_occupied q page_size next a"
  shows "skips_occupied q page_size it a"
proof -
  have cover: "lower region \<le> iter_current it" "iter_current it < upper region"
    using assms(1,4) by (simp_all add: query_covers_def)
  have pages: "unat page_size dvd unat (lower region)" "unat page_size dvd unat (upper region)" "0 < unat page_size"
    using assms(2-4) by (auto simp: query_pages_def word_less_nat_alt)
  have here: "occupied q x" if "lower region \<le> x" "x < upper region" for x
    using assms(4) that by (auto simp: occupied_def)
  show ?thesis
  proof (cases "iter_search it")
    case After
    have "occupied q x" if "iter_current it \<le> x" "x < a" for x
      using later After that here [of x] cover(1)
      by (cases "x < upper region") (auto simp: skips_occupied_def next_def)
    then show ?thesis using later After cover(2) by (auto simp: skips_occupied_def next_def)
  next
    case Before
    let ?c = "saturating_sub (lower region) page_size"
    have "occupied q x" if x: "unat a + unat page_size \<le> unat x"
      "unat x div unat page_size \<le> unat (iter_current it) div unat page_size" for x
    proof (cases "lower region \<le> x")
      case True
      have "x < upper region"
        using page_index_below [OF pages(2,3) x(2)] cover(2) by (simp add: word_less_nat_alt)
      with True show ?thesis by (rule here)
    next
      case False
      then have "unat x div unat page_size \<le> unat ?c div unat page_size"
        using page_index_before [OF pages(1,3)] by (simp add: saturating_sub_unat word_le_nat_alt)
      then show ?thesis using later Before x(1) by (auto simp: skips_occupied_def next_def)
    qed
    moreover have "a \<le> iter_current it"
      using later Before cover(1) saturating_sub_le [of "lower region" page_size]
      by (auto simp: skips_occupied_def next_def intro: order_trans)
    ultimately show ?thesis using Before by (auto simp: skips_occupied_def)
  qed
qed

text \<open>Every call is decided by one failing query, or by the end of the range.\<close>

lemma free_region_next_stops:
  fixes q :: "'u::len word query"
  assumes "query_covers q" "query_pages q page_size" "0 < page_size"
  shows "\<exists>a. skips_occupied q page_size it a \<and> stops_at q (it\<lparr>iter_current := a\<rparr>)
    \<and> free_region_next dbg q page_size it = free_region_next dbg q page_size (it\<lparr>iter_current := a\<rparr>)"
proof (induction it rule: measure_induct_rule [of iter_measure])
  case (less it)
  show ?case
  proof (cases "stops_at q it")
    case True
    then show ?thesis using skips_here [OF assms(3)] by (intro exI [of _ "iter_current it"]) simp
  next
    case False
    then obtain region where Inr: "q (iter_current it) = Inr region" and active: "iter_active it"
      by (cases "q (iter_current it)") (auto simp: stops_at_def)
    let ?next = "it\<lparr>iter_current := (case iter_search it of
      Before \<Rightarrow> saturating_sub (lower region) page_size | After \<Rightarrow> upper region)\<rparr>"
    have eq: "free_region_next dbg q page_size it = free_region_next dbg q page_size ?next"
      using active Inr by (subst free_region_next.simps) (simp add: iter_active_def)
    have "iter_measure ?next < iter_measure it"
      using region_step_measure [OF assms(1,3) _ Inr] active by (simp add: iter_active_def)
    from less.IH [OF this] show ?thesis
      using skips_region [OF assms Inr refl] unfolding eq by auto
  qed
qed

text \<open>
  What a call of \<^verbatim>\<open>next\<close> may return. An address is free, lies in the range, and is the closest
  free memory; an error is that of a query at the closest address that is not occupied; in both
  cases the iterator moves on by one page. At the end nothing free is left in the range, its first
  page excepted when searching downwards. A panic is the overflow of that move.
\<close>

definition next_ok ::
  "bool \<Rightarrow> 'u::len word query \<Rightarrow> 'u word \<Rightarrow> 'u word free_region_iter
     \<Rightarrow> ((error + 'u word) option \<times> 'u word free_region_iter) res \<Rightarrow> bool" where
  "next_ok dbg q page_size it r \<longleftrightarrow> (case r of
     Ok (Some item, it') \<Rightarrow>
       (\<exists>a. in_range (iter_range it) a \<and> skips_occupied q page_size it a
          \<and> (case item of
               Inr found \<Rightarrow> found = a \<and> q a = Inl FreeMemory
             | Inl e \<Rightarrow> \<exists>err. err \<noteq> FreeMemory \<and> q a = Inl err \<and> e = RegionFailure err)
          \<and> it' = it\<lparr>iter_current :=
              (case iter_search it of Before \<Rightarrow> saturating_sub a page_size | After \<Rightarrow> a + page_size)\<rparr>)
   | Ok (None, it') \<Rightarrow>
       iter_active it \<longrightarrow> (\<forall>x. in_range (iter_range it) x
          \<and> (case iter_search it of
               After \<Rightarrow> iter_current it \<le> x
             | Before \<Rightarrow> x \<le> iter_current it \<and> unat (fst (iter_range it)) + unat page_size \<le> unat x)
          \<longrightarrow> occupied q x)
   | Err _ \<Rightarrow> False
   | Panic \<Rightarrow> dbg \<and> iter_search it = After
       \<and> (\<exists>a. in_range (iter_range it) a \<and> skips_occupied q page_size it a \<and> a + page_size < a))"

lemma skips_occupied_end:
  assumes "skips_occupied q page_size it a" "\<not> iter_active (it\<lparr>iter_current := a\<rparr>)" "iter_active it"
    and x: "in_range (iter_range it) x"
    and side: "case iter_search it of
       After \<Rightarrow> iter_current it \<le> x
     | Before \<Rightarrow> x \<le> iter_current it \<and> unat (fst (iter_range it)) + unat page_size \<le> unat x"
  shows "occupied q x"
proof (cases "iter_search it")
  case After
  then have "iter_current it \<le> a" using assms(1) by (simp add: skips_occupied_def)
  then have "snd (iter_range it) \<le> a"
    using assms(2,3) by (auto simp: iter_active_def in_range_def not_less word_gt_0 intro: order_trans)
  then have "x < a" using x by (auto simp: in_range_def)
  then show ?thesis using assms(1) side After by (simp add: skips_occupied_def)
next
  case Before
  then have "a \<le> iter_current it" using assms(1) by (simp add: skips_occupied_def)
  then have "a < snd (iter_range it)" using assms(3) by (auto simp: iter_active_def in_range_def)
  then have "a = 0 \<or> a < fst (iter_range it)"
    using assms(2) by (auto simp: iter_active_def in_range_def not_le word_gt_0)
  then have "unat a + unat page_size \<le> unat x"
    using side Before by (auto simp: word_less_nat_alt)
  moreover have "unat x div unat page_size \<le> unat (iter_current it) div unat page_size"
    using side Before by (simp add: word_le_nat_alt div_le_mono)
  ultimately show ?thesis using assms(1) Before by (simp add: skips_occupied_def)
qed

lemma free_region_next_failing:
  assumes "iter_active it" "q (iter_current it) = Inl err"
  shows "free_region_next dbg q page_size it = Some (res_bind
     (case iter_search it of
        Before \<Rightarrow> Ok (saturating_sub (iter_current it) page_size)
      | After \<Rightarrow> usize_add dbg (iter_current it) page_size)
     (\<lambda>next. Ok (Some (case err of FreeMemory \<Rightarrow> Inr (iter_current it) | _ \<Rightarrow> Inl (RegionFailure err)),
        it\<lparr>iter_current := next\<rparr>)))"
  using assms by (subst free_region_next.simps) (simp add: iter_active_def Let_def)

lemma next_ok_failing:
  assumes "skips_occupied q page_size it a" "iter_active (it\<lparr>iter_current := a\<rparr>)" "q a = Inl err"
  shows "\<exists>r. free_region_next dbg q page_size (it\<lparr>iter_current := a\<rparr>) = Some r \<and> next_ok dbg q page_size it r"
proof -
  have a: "in_range (iter_range it) a" using assms(2) by (simp add: iter_active_def)
  show ?thesis
  proof (cases "iter_search it")
    case Before
    then show ?thesis
      using a assms by (cases err) (auto simp: free_region_next_failing next_ok_def)
  next
    case After
    then show ?thesis
      using a assms by (cases err) (auto simp: free_region_next_failing next_ok_def usize_add_def)
  qed
qed

text \<open>
  C37: one call of \<^verbatim>\<open>next\<close> returns, in both directions. An address it yields is free, lies in the
  range and is the closest free memory: between the current address and the result everything is
  occupied, to the page. When it yields none, the rest of the range is occupied (but for the lowest
  page of the range searching downwards, which the loop does not look at); it reports the error of
  a failed query only at such a closest address, and panics only when that address is the last page
  of the address space. Regions are those the documentation of \<^verbatim>\<open>region\<close> promises: they hold the
  queried address and consist of whole pages.
\<close>

theorem free_region_next_correct:
  fixes q :: "'u::len word query"
  assumes "query_covers q" "query_pages q page_size" "0 < page_size"
  shows "\<exists>r. free_region_next dbg q page_size it = Some r \<and> next_ok dbg q page_size it r"
proof -
  obtain a where skips: "skips_occupied q page_size it a" and stops: "stops_at q (it\<lparr>iter_current := a\<rparr>)"
    and eq: "free_region_next dbg q page_size it = free_region_next dbg q page_size (it\<lparr>iter_current := a\<rparr>)"
    using free_region_next_stops [OF assms] by blast
  show ?thesis
  proof (cases "iter_active (it\<lparr>iter_current := a\<rparr>)")
    case True
    then show ?thesis using next_ok_failing [OF skips True] stops unfolding eq by (auto simp: stops_at_def)
  next
    case False
    then have "free_region_next dbg q page_size (it\<lparr>iter_current := a\<rparr>) = Some (Ok (None, it\<lparr>iter_current := a\<rparr>))"
      by (subst free_region_next.simps) (simp add: iter_active_def if_not_P)
    then show ?thesis using skips_occupied_end [OF skips False] unfolding eq by (auto simp: next_ok_def)
  qed
qed

text \<open>
  Pages of 0x1000 bytes and one region from 0x3000 to 0x5000, below the origin: the search
  downwards yields the page below it.
\<close>

theorem free_region_next_correct_witness:
  "let q = (\<lambda>a. if 0x3000 \<le> a \<and> a < (0x5000 :: u64) then Inr \<lparr>lower = 0x3000, upper = 0x5000, region_protection = []\<rparr>
              else Inl FreeMemory);
       it = search_before 0x4234 (Some (0x1000, 0x10000))
   in free_region_next True q 0x1000 it = Some (Ok (Some (Inr 0x2000), it\<lparr>iter_current := 0x1000\<rparr>))
      \<and> next_ok True q 0x1000 it (Ok (Some (Inr 0x2000), it\<lparr>iter_current := 0x1000\<rparr>))"
proof -
  let ?q = "\<lambda>a. if 0x3000 \<le> a \<and> a < (0x5000 :: u64) then Inr \<lparr>lower = 0x3000, upper = 0x5000, region_protection = []\<rparr>
              else Inl FreeMemory"
  let ?it = "search_before (0x4234 :: u64) (Some (0x1000, 0x10000))"
  have "query_covers ?q" "query_pages ?q 0x1000" by (simp_all add: query_covers_def query_pages_def)
  then have ok: "\<exists>r. free_region_next True ?q 0x1000 ?it = Some r \<and> next_ok True ?q 0x1000 ?it r"
    by (rule free_region_next_correct) simp
  have "free_region_next True ?q 0x1000 ?it = Some (Ok (Some (Inr 0x2000), ?it\<lparr>iter_current := 0x1000\<rparr>))"
    by (subst free_region_next.simps, subst free_region_next.simps)
      (simp add: search_before_def free_region_iter_new_def in_range_def saturating_sub_def)
  with ok show ?thesis unfolding Let_def by simp
qed

end
