(* ===== verification/Alloc_Proximity.thy ===== *)
theory Alloc_Proximity
  imports Alloc_Search
begin

text \<open>
  \<^verbatim>\<open>src/alloc/proximity.rs\<close> and \<^verbatim>\<open>src/alloc/mod.rs\<close>: pools of executable memory close to an
  address. \<^verbatim>\<open>SlicePool\<close> (crate \<^verbatim>\<open>slice_pool\<close>) and \<^verbatim>\<open>MemoryMap\<close> (crate \<^verbatim>\<open>mmap\<close>) are third-party;
  \<open>pool_ops\<close> collects the operations the source calls. A search of the memory map may not
  end, so the results are partial: \<open>None\<close> is a call that does not return.
\<close>

section \<open>Third-party operations\<close>

text \<open>
  \<open>pool_alloc\<close> returns the address of the chunk and the pool without it, \<open>pool_free\<close> is the
  drop of a chunk (\<^verbatim>\<open>SliceBox\<close>), and \<open>map_new\<close> is \<^verbatim>\<open>SlicePool::new\<close> on the \<^verbatim>\<open>MemoryMap::new\<close> of a
  size at an address, when that succeeds.
\<close>

record ('a, 'p) pool_ops =
  pool_ptr :: "'p \<Rightarrow> 'a"
  pool_len :: "'p \<Rightarrow> nat"
  pool_alloc :: "'p \<Rightarrow> nat \<Rightarrow> ('a \<times> 'p) option"
  pool_free :: "'p \<Rightarrow> 'a \<Rightarrow> 'p"
  map_new :: "nat \<Rightarrow> 'a \<Rightarrow> 'p option"

record ('a, 'p) proximity_allocator =
  max_distance :: 'a
  pools :: "'p list"

text \<open>The environment of a call: build profile, memory map, page size and pool operations.\<close>

record ('a, 'p) alloc_env =
  env_dbg :: bool
  env_query :: "'a query"
  env_page :: 'a
  env_ops :: "('a, 'p) pool_ops"

section \<open>Finding a pool\<close>

definition is_pool_in_range ::
  "('u::len word, 'p) pool_ops \<Rightarrow> 'u word \<times> 'u word \<Rightarrow> 'p \<Rightarrow> bool" where
  "is_pool_in_range ops rng pool =
     (let lower = pool_ptr ops pool; upper = lower + of_nat (pool_len ops pool)
      in in_range rng lower \<and> in_range rng (upper - 1))"

text \<open>The first eligible pool that can serve the request; the pools are updated in place.\<close>

fun alloc_in_pools ::
  "('u::len word, 'p) pool_ops \<Rightarrow> 'u word \<times> 'u word \<Rightarrow> nat \<Rightarrow> 'p list \<Rightarrow> ('u word \<times> 'p list) option" where
  "alloc_in_pools ops rng sz [] = None"
| "alloc_in_pools ops rng sz (pool # rest) =
     (case (if is_pool_in_range ops rng pool then pool_alloc ops pool sz else None) of
        Some (chunk, pool') \<Rightarrow> Some (chunk, pool' # rest)
      | None \<Rightarrow> map_option (\<lambda>(chunk, rest'). (chunk, pool # rest')) (alloc_in_pools ops rng sz rest))"

definition allocate_memory ::
  "('u::len word, 'p) pool_ops \<Rightarrow> 'u word \<times> 'u word \<Rightarrow> nat \<Rightarrow> ('u word, 'p) proximity_allocator
     \<Rightarrow> ('u word \<times> ('u word, 'p) proximity_allocator) res" where
  "allocate_memory ops rng sz al =
     (case alloc_in_pools ops rng sz (pools al) of
        None \<Rightarrow> Err OutOfMemory
      | Some (chunk, ps) \<Rightarrow> Ok (chunk, al\<lparr>pools := ps\<rparr>))"

section \<open>Allocating a pool\<close>

definition allocate_fixed_pool :: "('u::len word, 'p) pool_ops \<Rightarrow> 'u word \<Rightarrow> nat \<Rightarrow> 'p option" where
  "allocate_fixed_pool ops address sz = map_new ops sz address"

text \<open>One of the two chained iterators, filtered: the first pool or query error it yields.\<close>

partial_function (option) pool_search ::
  "('u::len word, 'p) alloc_env \<Rightarrow> nat \<Rightarrow> 'u word free_region_iter \<Rightarrow> (error + 'p) option res option" where
  "pool_search env sz it =
     Option.bind (free_region_next (env_dbg env) (env_query env) (env_page env) it) (\<lambda>r.
       case r of
         Err e \<Rightarrow> Some (Err e)
       | Panic \<Rightarrow> Some Panic
       | Ok (item, it') \<Rightarrow>
           (case item of
              None \<Rightarrow> Some (Ok None)
            | Some (Inl e) \<Rightarrow> Some (Ok (Some (Inl e)))
            | Some (Inr address) \<Rightarrow>
                (case allocate_fixed_pool (env_ops env) address sz of
                   Some pool \<Rightarrow> Some (Ok (Some (Inr pool)))
                 | None \<Rightarrow> pool_search env sz it')))"

definition allocate_pool ::
  "('u::len word, 'p) alloc_env \<Rightarrow> 'u word \<times> 'u word \<Rightarrow> 'u word \<Rightarrow> nat \<Rightarrow> 'p res option" where
  "allocate_pool env rng origin sz =
     (let before = search_before origin (Some rng); after = search_after origin (Some rng) in
      Option.bind (pool_search env sz after) (\<lambda>r.
        Option.bind (case r of Ok None \<Rightarrow> pool_search env sz before | _ \<Rightarrow> Some r) (\<lambda>r.
          Some (res_bind r (\<lambda>found.
            case found of
              None \<Rightarrow> Err OutOfMemory
            | Some (Inl e) \<Rightarrow> Err e
            | Some (Inr pool) \<Rightarrow> Ok pool)))))"

section \<open>The allocator\<close>

definition proximity_range :: "('u::len word, 'p) proximity_allocator \<Rightarrow> 'u word \<Rightarrow> 'u word \<times> 'u word" where
  "proximity_range al origin =
     (saturating_sub origin (max_distance al), saturating_add origin (max_distance al))"

definition proximity_allocate ::
  "('u::len word, 'p) alloc_env \<Rightarrow> ('u word, 'p) proximity_allocator \<Rightarrow> 'u word \<Rightarrow> nat
     \<Rightarrow> ('u word \<times> ('u word, 'p) proximity_allocator) res option" where
  "proximity_allocate env al origin sz =
     (let memory_range = proximity_range al origin in
      case allocate_memory (env_ops env) memory_range sz al of
        Ok r \<Rightarrow> Some (Ok r)
      | Panic \<Rightarrow> Some Panic
      | Err _ \<Rightarrow>
          Option.bind (allocate_pool env memory_range origin sz) (\<lambda>r.
            Some (res_bind r (\<lambda>pool.
              case pool_alloc (env_ops env) pool sz of
                None \<Rightarrow> Panic
              | Some (allocation, pool') \<Rightarrow> Ok (allocation, al\<lparr>pools := pools al @ [pool']\<rparr>)))))"

definition pool_holds :: "('u::len word, 'p) pool_ops \<Rightarrow> 'u word \<Rightarrow> 'p \<Rightarrow> bool" where
  "pool_holds ops chunk pool =
     (let lower = pool_ptr ops pool; upper = lower + of_nat (pool_len ops pool)
      in in_range (lower, upper) chunk)"

definition proximity_release ::
  "('u::len word, 'p) pool_ops \<Rightarrow> ('u word, 'p) proximity_allocator \<Rightarrow> 'u word
     \<Rightarrow> ('u word, 'p) proximity_allocator res" where
  "proximity_release ops al chunk =
     (case iter_position (pool_holds ops chunk) (pools al) of
        None \<Rightarrow> Panic
      | Some index \<Rightarrow>
          Ok (if pool_len ops (pools al ! index) = 1
              then al\<lparr>pools := take index (pools al) @ drop (Suc index) (pools al)\<rparr> else al))"

section \<open>The thread-safe handle\<close>

text \<open>\<^verbatim>\<open>ExecutableMemory\<close>: the chunk, a slice of the requested size.\<close>

record 'a executable_memory =
  em_ptr :: 'a
  em_len :: nat

definition thread_allocator_new :: "'u::len word \<Rightarrow> ('u word, 'p) proximity_allocator" where
  "thread_allocator_new dist = \<lparr>max_distance = dist, pools = []\<rparr>"

definition thread_allocate ::
  "('u::len word, 'p) alloc_env \<Rightarrow> ('u word, 'p) proximity_allocator \<Rightarrow> 'u word \<Rightarrow> nat
     \<Rightarrow> ('u word executable_memory \<times> ('u word, 'p) proximity_allocator) res option" where
  "thread_allocate env al origin sz =
     Option.bind (proximity_allocate env al origin sz) (\<lambda>r.
       Some (res_bind r (\<lambda>(data, al'). Ok (\<lparr>em_ptr = data, em_len = sz\<rparr>, al'))))"

text \<open>Dropping a handle: \<^verbatim>\<open>release\<close>, then the drop of the chunk itself, which its pool takes back.\<close>

definition executable_memory_drop ::
  "('u::len word, 'p) pool_ops \<Rightarrow> ('u word, 'p) proximity_allocator \<Rightarrow> 'u word executable_memory
     \<Rightarrow> ('u word, 'p) proximity_allocator res" where
  "executable_memory_drop ops al em =
     res_bind (proximity_release ops al (em_ptr em)) (\<lambda>al'.
       Ok (al'\<lparr>pools := map (\<lambda>p. if pool_holds ops (em_ptr em) p then pool_free ops p (em_ptr em) else p)
             (pools al')\<rparr>))"

section \<open>Laws of the third-party operations\<close>

text \<open>
  Documented behaviour: a chunk lies in its pool, allocating and freeing leave a pool in place,
  a new map holds at least the requested size, does not wrap around the end of the address
  space, and serves a first request of that size.
\<close>

definition pool_bounded :: "('u::len word, 'p) pool_ops \<Rightarrow> 'p \<Rightarrow> bool" where
  "pool_bounded ops p \<longleftrightarrow> unat (pool_ptr ops p) + pool_len ops p < 2 ^ LENGTH('u)"

definition pool_laws :: "('u::len word, 'p) pool_ops \<Rightarrow> bool" where
  "pool_laws ops \<longleftrightarrow>
     (\<forall>p n c p'. pool_alloc ops p n = Some (c, p') \<longrightarrow>
        pool_ptr ops p' = pool_ptr ops p \<and> pool_len ops p' = pool_len ops p
        \<and> pool_ptr ops p \<le> c \<and> (0 < n \<longrightarrow> unat c + n \<le> unat (pool_ptr ops p) + pool_len ops p))
   \<and> (\<forall>p c. pool_ptr ops (pool_free ops p c) = pool_ptr ops p \<and> pool_len ops (pool_free ops p c) = pool_len ops p)
   \<and> (\<forall>n a p. map_new ops n a = Some p \<longrightarrow>
        n \<le> pool_len ops p \<and> pool_bounded ops p \<and> pool_ptr ops p = a \<and> pool_alloc ops p n \<noteq> None)"

lemma pool_laws_alloc:
  assumes "pool_laws ops" "pool_alloc ops p n = Some (c, p')"
  shows "pool_ptr ops p' = pool_ptr ops p" "pool_len ops p' = pool_len ops p" "pool_ptr ops p \<le> c"
    "0 < n \<Longrightarrow> unat c + n \<le> unat (pool_ptr ops p) + pool_len ops p"
  using assms by (auto simp: pool_laws_def)

lemma pool_laws_map:
  assumes "pool_laws ops" "map_new ops n a = Some p"
  shows "n \<le> pool_len ops p" "pool_bounded ops p" "pool_ptr ops p = a" "pool_alloc ops p n \<noteq> None"
  using assms by (auto simp: pool_laws_def)

lemma pool_bounded_alloc:
  "pool_laws ops \<Longrightarrow> pool_alloc ops p n = Some (c, p') \<Longrightarrow> pool_bounded ops p' = pool_bounded ops p"
  by (simp add: pool_bounded_def pool_laws_alloc)

lemma pool_holds_iff:
  fixes ops :: "('u::len word, 'p) pool_ops"
  assumes "pool_bounded ops p"
  shows "pool_holds ops c p \<longleftrightarrow> pool_ptr ops p \<le> c \<and> unat c < unat (pool_ptr ops p) + pool_len ops p"
proof -
  have "unat (pool_ptr ops p + of_nat (pool_len ops p)) = unat (pool_ptr ops p) + pool_len ops p"
    using assms by (simp add: pool_bounded_def unat_word_ariths unsigned_of_nat mod_simps take_bit_eq_mod)
  then show ?thesis by (simp add: pool_holds_def Let_def in_range_def word_less_nat_alt)
qed

lemma alloc_in_pools_Some:
  "alloc_in_pools ops rng n ps = Some (c, ps') \<Longrightarrow>
     \<exists>xs p ys p'. ps = xs @ p # ys \<and> ps' = xs @ p' # ys \<and> is_pool_in_range ops rng p
       \<and> pool_alloc ops p n = Some (c, p')"
proof (induction ps arbitrary: ps')
  case (Cons p rest)
  show ?case
  proof (cases "if is_pool_in_range ops rng p then pool_alloc ops p n else None")
    case None
    with Cons.prems obtain rest' where "alloc_in_pools ops rng n rest = Some (c, rest')" "ps' = p # rest'"
      by auto
    with Cons.IH obtain xs q ys q' where "rest = xs @ q # ys" "ps' = p # xs @ q' # ys"
      "is_pool_in_range ops rng q" "pool_alloc ops q n = Some (c, q')" by blast
    then show ?thesis by (intro exI [of _ "p # xs"]) auto
  next
    case (Some r)
    then show ?thesis
      using Cons.prems by (cases r) (intro exI [of _ "[]"], auto split: if_splits)
  qed
qed simp

section \<open>The search for a pool\<close>

lemma pool_search_returns:
  fixes env :: "('u::len word, 'p) alloc_env"
  assumes "query_covers (env_query env)" "0 < env_page env"
    and "unat (snd (iter_range it)) + unat (env_page env) \<le> 2 ^ LENGTH('u)"
  shows "\<exists>r. pool_search env n it = Some r"
  using assms(3)
proof (induction it rule: measure_induct_rule [of iter_measure])
  case (less it)
  obtain r where r: "free_region_next (env_dbg env) (env_query env) (env_page env) it = Some r"
    using free_region_next_found [OF assms(1,2)] by blast
  have "\<exists>r. pool_search env n it' = Some r" if "r = Ok (Some x, it')" for x it'
    using free_region_next_advances [OF assms(1,2) r [unfolded that] less.prems] less.prems
    by (intro less.IH) simp_all
  then show ?case
    using r by (subst pool_search.simps) (auto split: res.splits option.splits sum.splits)
qed

lemma pool_search_found:
  fixes env :: "('u::len word, 'p) alloc_env"
  assumes "query_covers (env_query env)" "0 < env_page env"
    and "unat (snd (iter_range it)) + unat (env_page env) \<le> 2 ^ LENGTH('u)"
    and "pool_search env n it = Some (Ok (Some (Inr pool)))"
  shows "\<exists>a. in_range (iter_range it) a \<and> env_query env a = Inl FreeMemory
    \<and> map_new (env_ops env) n a = Some pool"
  using assms(3,4)
proof (induction it rule: measure_induct_rule [of iter_measure])
  case (less it)
  obtain a it' where step: "free_region_next (env_dbg env) (env_query env) (env_page env) it = Some (Ok (Some (Inr a), it'))"
    and rest: "(case map_new (env_ops env) n a of Some pool \<Rightarrow> Some (Ok (Some (Inr pool))) | None \<Rightarrow> pool_search env n it')
      = Some (Ok (Some (Inr pool)))"
    using less.prems(2) unfolding allocate_fixed_pool_def [symmetric]
    by (subst (asm) pool_search.simps) (auto split: res.splits option.splits sum.splits bind_splits)
  have found: "env_query env a = Inl FreeMemory \<and> in_range (iter_range it) a"
    using free_region_next_found [OF assms(1,2), of "env_dbg env" it] step by auto
  show ?case
  proof (cases "map_new (env_ops env) n a")
    case (Some p)
    then show ?thesis using rest found by auto
  next
    case None
    note adv = free_region_next_advances [OF assms(1,2) step less.prems(1)]
    then have "\<exists>a. in_range (iter_range it') a \<and> env_query env a = Inl FreeMemory
        \<and> map_new (env_ops env) n a = Some pool"
      using rest None less.prems(1) by (intro less.IH) simp_all
    then show ?thesis using adv by simp
  qed
qed

lemma pool_search_no_panic:
  fixes env :: "('u::len word, 'p) alloc_env"
  assumes "query_covers (env_query env)" "0 < env_page env"
    and "unat (snd (iter_range it)) + unat (env_page env) \<le> 2 ^ LENGTH('u)"
  shows "pool_search env n it \<noteq> Some Panic"
  using assms(3)
proof (induction it rule: measure_induct_rule [of iter_measure])
  case (less it)
  have here: "free_region_next (env_dbg env) (env_query env) (env_page env) it \<noteq> Some Panic"
    using free_region_next_no_panic [OF assms(1,2) less.prems] by blast
  have "pool_search env n it' \<noteq> Some Panic"
    if "free_region_next (env_dbg env) (env_query env) (env_page env) it = Some (Ok (Some x, it'))" for x it'
    using free_region_next_advances [OF assms(1,2) that less.prems] less.prems
    by (intro less.IH) simp_all
  with here show ?case
    by (subst pool_search.simps) (auto split: res.splits option.splits sum.splits bind_splits)
qed

text \<open>The pool of \<^verbatim>\<open>allocate_pool\<close> starts at free memory of the range.\<close>

lemma allocate_pool_ok:
  fixes env :: "('u::len word, 'p) alloc_env"
  assumes "query_covers (env_query env)" "0 < env_page env"
    and "unat (snd rng) + unat (env_page env) \<le> 2 ^ LENGTH('u)"
  shows "\<exists>r. allocate_pool env rng origin n = Some r \<and> r \<noteq> Panic
    \<and> (\<forall>pool. r = Ok pool \<longrightarrow> (\<exists>a. in_range rng a \<and> env_query env a = Inl FreeMemory
         \<and> map_new (env_ops env) n a = Some pool))"
proof -
  let ?a = "search_after origin (Some rng)" and ?b = "search_before origin (Some rng)"
  have room: "unat (snd (iter_range ?a)) + unat (env_page env) \<le> 2 ^ LENGTH('u)"
    "unat (snd (iter_range ?b)) + unat (env_page env) \<le> 2 ^ LENGTH('u)"
    and rngs: "iter_range ?a = rng" "iter_range ?b = rng"
    using assms(3) by (simp_all add: search_after_def search_before_def free_region_iter_new_def)
  obtain ra rb where ra: "pool_search env n ?a = Some ra" "ra \<noteq> Panic"
    and rb: "pool_search env n ?b = Some rb" "rb \<noteq> Panic"
    using pool_search_returns [OF assms(1,2) room(1)] pool_search_no_panic [OF assms(1,2) room(1)]
      pool_search_returns [OF assms(1,2) room(2)] pool_search_no_panic [OF assms(1,2) room(2)] by metis
  let ?ok = "\<lambda>pool. \<exists>a. in_range rng a \<and> env_query env a = Inl FreeMemory \<and> map_new (env_ops env) n a = Some pool"
  have found: "?ok pool" if "ra = Ok (Some (Inr pool)) \<or> rb = Ok (Some (Inr pool))" for pool
    using that pool_search_found [OF assms(1,2) room(1), of n pool] ra(1) rngs
      pool_search_found [OF assms(1,2) room(2), of n pool] rb(1) by auto
  define r where "r = (case ra of Ok None \<Rightarrow> rb | _ \<Rightarrow> ra)"
  have eq: "allocate_pool env rng origin n = Some (res_bind r (\<lambda>found. case found of
      None \<Rightarrow> Err OutOfMemory | Some (Inl e) \<Rightarrow> Err e | Some (Inr pool) \<Rightarrow> Ok pool))"
    by (simp add: allocate_pool_def Let_def ra(1) rb(1) r_def split: res.splits option.splits)
  have r: "r \<noteq> Panic" "r = ra \<or> r = rb"
    using ra(2) rb(2) by (auto simp: r_def split: res.splits option.splits)
  show ?thesis
    unfolding eq using r found by (cases r) (auto split: option.splits sum.splits)
qed

section \<open>Correctness of the allocator\<close>

lemma pool_contains_chunk:
  assumes "pool_laws ops" "pool_bounded ops p" "pool_alloc ops p n = Some (c, p')" "0 < n"
  shows "pool_holds ops c p'" "unat c + n \<le> unat (pool_ptr ops p') + pool_len ops p'"
  using pool_laws_alloc [OF assms(1,3)] assms(4) assms(2)
  by (simp_all add: pool_holds_iff pool_bounded_alloc [OF assms(1,3)])

lemma is_pool_in_range_bounds:
  fixes ops :: "('u::len word, 'p) pool_ops"
  assumes "is_pool_in_range ops rng p" "pool_bounded ops p" "0 < pool_len ops p"
  shows "fst rng \<le> pool_ptr ops p" "unat (pool_ptr ops p) + pool_len ops p \<le> unat (snd rng)"
proof -
  let ?e = "pool_ptr ops p + of_nat (pool_len ops p)"
  have e: "unat ?e = unat (pool_ptr ops p) + pool_len ops p"
    using assms(2) by (simp add: pool_bounded_def unat_word_ariths unsigned_of_nat mod_simps take_bit_eq_mod)
  then have "unat (?e - 1) = unat ?e - 1"
    using assms(3) by (intro unat_minus_one) (auto simp: unat_eq_0 [symmetric] simp del: unat_eq_0)
  then show "unat (pool_ptr ops p) + pool_len ops p \<le> unat (snd rng)"
    using assms(1,3) e by (auto simp: is_pool_in_range_def Let_def in_range_def word_less_nat_alt)
  show "fst rng \<le> pool_ptr ops p"
    using assms(1) by (simp add: is_pool_in_range_def Let_def in_range_def)
qed

text \<open>The chunk of an allocation and the pool it lies in.\<close>

definition chunk_ok ::
  "('u::len word, 'p) pool_ops \<Rightarrow> 'u word \<times> 'u word \<Rightarrow> nat \<Rightarrow> 'u word \<Rightarrow> 'p \<Rightarrow> bool" where
  "chunk_ok ops rng n c p \<longleftrightarrow> pool_holds ops c p \<and> in_range rng (pool_ptr ops p)
     \<and> unat c + n \<le> unat (pool_ptr ops p) + pool_len ops p"

lemma proximity_allocate_in_range:
  fixes env :: "('u::len word, 'p) alloc_env"
  assumes laws: "pool_laws (env_ops env)" and map: "query_covers (env_query env)" "0 < env_page env"
    and room: "unat (saturating_add origin (max_distance al)) + unat (env_page env) \<le> 2 ^ LENGTH('u)"
    and wf: "\<forall>p \<in> set (pools al). pool_bounded (env_ops env) p" and "0 < n"
  shows "\<exists>r. proximity_allocate env al origin n = Some r \<and> r \<noteq> Panic
    \<and> (\<forall>c al'. r = Ok (c, al') \<longrightarrow>
         max_distance al' = max_distance al
       \<and> (\<forall>p \<in> set (pools al'). pool_bounded (env_ops env) p)
       \<and> (\<exists>p \<in> set (pools al'). chunk_ok (env_ops env) (proximity_range al origin) n c p)
       \<and> (length (pools al') = length (pools al) \<longrightarrow>
            saturating_sub origin (max_distance al) \<le> c
          \<and> unat c + n \<le> unat (saturating_add origin (max_distance al))))"
proof (cases "alloc_in_pools (env_ops env) (proximity_range al origin) n (pools al)")
  case (Some r)
  obtain c ps' where r: "r = (c, ps')" by fastforce
  obtain xs p ys p' where split: "pools al = xs @ p # ys" "ps' = xs @ p' # ys"
    and p: "is_pool_in_range (env_ops env) (proximity_range al origin) p" "pool_alloc (env_ops env) p n = Some (c, p')"
    using alloc_in_pools_Some [of "env_ops env" "proximity_range al origin" n "pools al" c ps'] Some r by blast
  have bounded: "pool_bounded (env_ops env) p" using wf split by simp
  note inside = pool_contains_chunk [OF laws bounded p(2) assms(6)]
  note alloc = pool_laws_alloc [OF laws p(2)]
  have len: "0 < pool_len (env_ops env) p"
    using alloc(3,4) assms(6) by (simp add: word_le_nat_alt)
  note range = is_pool_in_range_bounds [OF p(1) bounded len, unfolded proximity_range_def fst_conv snd_conv]
  have "in_range (proximity_range al origin) (pool_ptr (env_ops env) p)"
    using p(1) by (simp add: is_pool_in_range_def Let_def)
  then have "chunk_ok (env_ops env) (proximity_range al origin) n c p'"
    using inside alloc by (simp add: chunk_ok_def)
  then show ?thesis
    using Some r split wf range alloc assms(6) pool_bounded_alloc [OF laws p(2)]
    by (simp add: proximity_allocate_def allocate_memory_def Let_def)
next
  case None
  obtain r where r: "allocate_pool env (proximity_range al origin) origin n = Some r" "r \<noteq> Panic"
    and found: "\<And>pool. r = Ok pool \<Longrightarrow> \<exists>a. in_range (proximity_range al origin) a
      \<and> env_query env a = Inl FreeMemory \<and> map_new (env_ops env) n a = Some pool"
    using allocate_pool_ok [OF map, of "proximity_range al origin" origin n] room
    by (auto simp: proximity_range_def)
  show ?thesis
  proof (cases r)
    case (Ok pool)
    obtain a where a: "in_range (proximity_range al origin) a" "map_new (env_ops env) n a = Some pool"
      using found [OF Ok] by blast
    note new = pool_laws_map [OF laws a(2)]
    obtain c pool' where c: "pool_alloc (env_ops env) pool n = Some (c, pool')" using new(4) by auto
    note inside = pool_contains_chunk [OF laws new(2) c assms(6)]
    have "chunk_ok (env_ops env) (proximity_range al origin) n c pool'"
      using inside a new(3) pool_laws_alloc [OF laws c] by (simp add: chunk_ok_def)
    then show ?thesis
      using None Ok r c wf new(2) pool_bounded_alloc [OF laws c]
      by (auto simp: proximity_allocate_def allocate_memory_def Let_def)
  qed (use None r in \<open>simp_all add: proximity_allocate_def allocate_memory_def Let_def\<close>)
qed

text \<open>
  C16: an allocation returns, without a panic; its chunk lies in a pool that starts within
  \<^verbatim>\<open>max_distance\<close> of the origin, in full if the pool existed before.
\<close>

theorem proximity_allocate_close:
  fixes env :: "('u::len word, 'p) alloc_env"
  assumes laws: "pool_laws (env_ops env)" and map: "query_covers (env_query env)" "0 < env_page env"
    and room: "unat (saturating_add origin (max_distance al)) + unat (env_page env) \<le> 2 ^ LENGTH('u)"
    and wf: "\<forall>p \<in> set (pools al). pool_bounded (env_ops env) p" and "0 < n"
  shows "\<exists>r. proximity_allocate env al origin n = Some r \<and> r \<noteq> Panic
    \<and> (\<forall>c al'. r = Ok (c, al') \<longrightarrow>
         max_distance al' = max_distance al
       \<and> (\<forall>p \<in> set (pools al'). pool_bounded (env_ops env) p)
       \<and> (\<exists>p \<in> set (pools al'). chunk_ok (env_ops env) (proximity_range al origin) n c p)
       \<and> (length (pools al') = length (pools al) \<longrightarrow>
            saturating_sub origin (max_distance al) \<le> c
          \<and> unat c + n \<le> unat (saturating_add origin (max_distance al))))"
  using assms by (rule proximity_allocate_in_range)

text \<open>A pool that serves its memory in order: base address, length and the bytes already served.\<close>

definition bump_ops :: "('u::len word, 'u word \<times> nat \<times> nat) pool_ops" where
  "bump_ops = \<lparr>pool_ptr = fst, pool_len = (\<lambda>p. fst (snd p)),
     pool_alloc = (\<lambda>(a, l, used) n. if used + n \<le> l \<and> unat a + l < 2 ^ LENGTH('u)
        then Some (a + of_nat used, a, l, used + n) else None),
     pool_free = (\<lambda>p c. p),
     map_new = (\<lambda>n a. if unat a + n < 2 ^ LENGTH('u) then Some (a, n, 0) else None)\<rparr>"

lemma bump_ops_laws: "pool_laws bump_ops"
  by (auto simp: pool_laws_def bump_ops_def pool_bounded_def unat_word_ariths unsigned_of_nat
      take_bit_eq_mod word_le_nat_alt split: if_splits)

text \<open>Executable memory below 0x500000, free memory above, pages of 0x1000 bytes.\<close>

definition demo_query :: "'u::len word query" where
  "demo_query a = (if a < 0x500000 then Inr \<lparr>lower = 0, upper = 0x500000, region_protection = [READ, EXECUTE]\<rparr>
     else Inl FreeMemory)"

definition demo_env :: "('u::len word, 'u word \<times> nat \<times> nat) alloc_env" where
  "demo_env = \<lparr>env_dbg = True, env_query = demo_query, env_page = 0x1000, env_ops = bump_ops\<rparr>"

lemma demo_env_covers:
  "query_covers (env_query (demo_env :: (u64, u64 \<times> nat \<times> nat) alloc_env))"
  "0 < env_page (demo_env :: (u64, u64 \<times> nat \<times> nat) alloc_env)"
  by (simp_all add: query_covers_def demo_env_def demo_query_def)

text \<open>The first allocation near an address below 0x500000 maps a pool there.\<close>

lemma demo_search:
  fixes origin :: u64
  assumes "0 < origin" "origin < 0x500000" "in_range rng origin" "in_range rng 0x500000" "n < 0x1000"
  shows "pool_search demo_env n (search_after origin (Some rng)) = Some (Ok (Some (Inr (0x500000, n, 0))))"
proof -
  have "free_region_next True demo_query 0x1000 (search_after origin (Some rng))
    = Some (Ok (Some (Inr 0x500000), \<lparr>iter_range = rng, iter_search = After, iter_current = 0x501000\<rparr>))"
    using assms
    by (subst free_region_next.simps, subst free_region_next.simps)
      (simp add: search_after_def free_region_iter_new_def demo_query_def usize_add_def Let_def)
  then show ?thesis
    using assms(5)
    by (subst pool_search.simps) (simp add: demo_env_def allocate_fixed_pool_def bump_ops_def)
qed

lemma demo_search_32:
  fixes origin :: u32
  assumes "0 < origin" "origin < 0x500000" "in_range rng origin" "in_range rng 0x500000" "n < 0x1000"
  shows "pool_search demo_env n (search_after origin (Some rng)) = Some (Ok (Some (Inr (0x500000, n, 0))))"
proof -
  have "free_region_next True demo_query 0x1000 (search_after origin (Some rng))
    = Some (Ok (Some (Inr 0x500000), \<lparr>iter_range = rng, iter_search = After, iter_current = 0x501000\<rparr>))"
    using assms
    by (subst free_region_next.simps, subst free_region_next.simps)
      (simp add: search_after_def free_region_iter_new_def demo_query_def usize_add_def Let_def)
  then show ?thesis
    using assms(5)
    by (subst pool_search.simps) (simp add: demo_env_def allocate_fixed_pool_def bump_ops_def)
qed

lemma demo_allocate_found:
  fixes origin :: "'u::len word"
  assumes "\<And>rng. rng = proximity_range (thread_allocator_new dist :: ('u word, 'u word \<times> nat \<times> nat) proximity_allocator) origin \<Longrightarrow>
      pool_search demo_env n (search_after origin (Some rng)) = Some (Ok (Some (Inr (0x500000, n, 0))))"
    and "unat (0x500000 :: 'u word) + n < 2 ^ LENGTH('u)"
  shows "thread_allocate demo_env (thread_allocator_new dist) origin n
     = Some (Ok (\<lparr>em_ptr = 0x500000, em_len = n\<rparr>, \<lparr>max_distance = dist, pools = [(0x500000, n, n)]\<rparr>))"
proof -
  have "pool_alloc (env_ops demo_env) (0x500000 :: 'u word, n, 0) n = Some (0x500000, 0x500000, n, n)"
    using assms(2) by (simp add: demo_env_def bump_ops_def)
  moreover have "alloc_in_pools (env_ops demo_env) rng n (pools (thread_allocator_new dist)) = None" for rng :: "'u word \<times> 'u word"
    by (simp add: thread_allocator_new_def)
  ultimately show ?thesis
    using assms(1)
    by (simp add: thread_allocate_def proximity_allocate_def allocate_memory_def allocate_pool_def Let_def)
      (simp add: thread_allocator_new_def)
qed

lemma demo_allocate:
  fixes origin :: u64
  assumes "0 < origin" "origin < 0x500000" "n < 0x1000"
    and "in_range (proximity_range (thread_allocator_new dist :: (u64, u64 \<times> nat \<times> nat) proximity_allocator) origin) origin"
    and "in_range (proximity_range (thread_allocator_new dist :: (u64, u64 \<times> nat \<times> nat) proximity_allocator) origin) 0x500000"
  shows "thread_allocate demo_env (thread_allocator_new dist) origin n
     = Some (Ok (\<lparr>em_ptr = 0x500000, em_len = n\<rparr>, \<lparr>max_distance = dist, pools = [(0x500000, n, n)]\<rparr>))"
  using demo_search [OF assms(1,2,4,5,3)] assms(3) by (intro demo_allocate_found) simp_all

lemma demo_allocate_32:
  fixes origin :: u32
  assumes "0 < origin" "origin < 0x500000" "n < 0x1000"
    and "in_range (proximity_range (thread_allocator_new dist :: (u32, u32 \<times> nat \<times> nat) proximity_allocator) origin) origin"
    and "in_range (proximity_range (thread_allocator_new dist :: (u32, u32 \<times> nat \<times> nat) proximity_allocator) origin) 0x500000"
  shows "thread_allocate demo_env (thread_allocator_new dist) origin n
     = Some (Ok (\<lparr>em_ptr = 0x500000, em_len = n\<rparr>, \<lparr>max_distance = dist, pools = [(0x500000, n, n)]\<rparr>))"
  using demo_search_32 [OF assms(1,2,4,5,3)] assms(3) by (intro demo_allocate_found) simp_all

theorem proximity_allocate_close_witness:
  "\<exists>r. proximity_allocate (demo_env :: (u64, u64 \<times> nat \<times> nat) alloc_env) (thread_allocator_new 0x200000) 0x400020 20 = Some r \<and> r \<noteq> Panic
    \<and> (\<forall>c al'. r = Ok (c, al') \<longrightarrow>
         max_distance al' = max_distance (thread_allocator_new 0x200000 :: (u64, u64 \<times> nat \<times> nat) proximity_allocator)
       \<and> (\<forall>p \<in> set (pools al'). pool_bounded (env_ops demo_env) p)
       \<and> (\<exists>p \<in> set (pools al'). chunk_ok (env_ops demo_env)
            (proximity_range (thread_allocator_new 0x200000 :: (u64, u64 \<times> nat \<times> nat) proximity_allocator) 0x400020) 20 c p)
       \<and> (length (pools al') = length (pools (thread_allocator_new 0x200000 :: (u64, u64 \<times> nat \<times> nat) proximity_allocator)) \<longrightarrow>
            saturating_sub 0x400020 (max_distance (thread_allocator_new 0x200000 :: (u64, u64 \<times> nat \<times> nat) proximity_allocator)) \<le> c
          \<and> unat c + 20 \<le> unat (saturating_add 0x400020 (max_distance (thread_allocator_new 0x200000 :: (u64, u64 \<times> nat \<times> nat) proximity_allocator)))))"
proof (rule proximity_allocate_close)
  show "pool_laws (env_ops (demo_env :: (u64, u64 \<times> nat \<times> nat) alloc_env))" using bump_ops_laws by (simp add: demo_env_def)
  show "query_covers (env_query (demo_env :: (u64, u64 \<times> nat \<times> nat) alloc_env))" "0 < env_page (demo_env :: (u64, u64 \<times> nat \<times> nat) alloc_env)"
    by (rule demo_env_covers)+
qed (simp_all add: thread_allocator_new_def demo_env_def saturating_add_def)

section \<open>Releasing\<close>

lemma proximity_release_found:
  assumes "\<exists>p \<in> set (pools al). pool_holds ops c p"
  shows "\<exists>i. i < length (pools al) \<and> pool_holds ops c (pools al ! i) \<and> proximity_release ops al c =
    Ok (if pool_len ops (pools al ! i) = 1
        then al\<lparr>pools := take i (pools al) @ drop (Suc i) (pools al)\<rparr> else al)"
proof -
  obtain i where "iter_position (pool_holds ops c) (pools al) = Some i"
    using assms iter_position_None [of "pool_holds ops c" "pools al"] by (cases "iter_position (pool_holds ops c) (pools al)") auto
  then show ?thesis using iter_position_Some by (fastforce simp: proximity_release_def)
qed

text \<open>Where a chunk comes from: a pool that was there, or one mapped for the request.\<close>

definition fresh_pool :: "('u::len word, 'p) pool_ops \<Rightarrow> nat \<Rightarrow> 'u word \<Rightarrow> 'p \<Rightarrow> bool" where
  "fresh_pool ops n c p \<longleftrightarrow> (\<exists>a p0. map_new ops n a = Some p0 \<and> pool_alloc ops p0 n = Some (c, p))"

lemma proximity_allocate_source:
  fixes env :: "('u::len word, 'p) alloc_env"
  assumes map: "query_covers (env_query env)" "0 < env_page env"
    and room: "unat (saturating_add origin (max_distance al)) + unat (env_page env) \<le> 2 ^ LENGTH('u)"
    and alloc: "proximity_allocate env al origin n = Some (Ok (c, al'))"
  shows "(\<exists>p p'. p \<in> set (pools al) \<and> pool_alloc (env_ops env) p n = Some (c, p'))
    \<or> (\<exists>p. fresh_pool (env_ops env) n c p \<and> al' = al\<lparr>pools := pools al @ [p]\<rparr>)"
proof (cases "alloc_in_pools (env_ops env) (proximity_range al origin) n (pools al)")
  case (Some r)
  obtain c' ps' where "r = (c', ps')" by fastforce
  moreover from this have "c' = c" using alloc Some by (simp add: proximity_allocate_def allocate_memory_def Let_def)
  ultimately obtain xs p ys p' where "pools al = xs @ p # ys" "pool_alloc (env_ops env) p n = Some (c, p')"
    using alloc_in_pools_Some Some by blast
  then show ?thesis by auto
next
  case None
  obtain r where r: "allocate_pool env (proximity_range al origin) origin n = Some r"
    and found: "\<And>pool. r = Ok pool \<Longrightarrow> \<exists>a. map_new (env_ops env) n a = Some pool"
    using allocate_pool_ok [OF map, of "proximity_range al origin" origin n] room by (auto simp: proximity_range_def)
  then show ?thesis
    using None alloc found
    by (cases r) (auto simp: proximity_allocate_def allocate_memory_def Let_def fresh_pool_def split: option.splits)
qed

lemma pool_holds_alloc:
  "pool_laws ops \<Longrightarrow> pool_alloc ops p n = Some (c', p') \<Longrightarrow> pool_holds ops c p' = pool_holds ops c p"
  by (simp add: pool_holds_def pool_laws_alloc)

lemma fresh_pool_holds:
  "\<lbrakk>pool_laws ops; fresh_pool ops n c p; 0 < n\<rbrakk> \<Longrightarrow> pool_holds ops c p"
  using pool_contains_chunk(1) pool_laws_map(2) by (fastforce simp: fresh_pool_def)

lemma iter_position_append:
  "\<lbrakk>\<forall>x \<in> set xs. \<not> P x; P y\<rbrakk> \<Longrightarrow> iter_position P (xs @ [y]) = Some (length xs)"
  by (induction xs) simp_all

lemma drop_last_pool:
  assumes "\<forall>q \<in> set (pools al). \<not> pool_holds ops (em_ptr em) q" "pool_holds ops (em_ptr em) p"
  shows "executable_memory_drop ops (al\<lparr>pools := pools al @ [p]\<rparr>) em
    = Ok (al\<lparr>pools := pools al @ (if pool_len ops p = 1 then [] else [pool_free ops p (em_ptr em)])\<rparr>)"
proof -
  have same: "map (\<lambda>q. if pool_holds ops (em_ptr em) q then pool_free ops q (em_ptr em) else q) (pools al) = pools al"
    using assms(1) by (intro map_idI) simp
  have "iter_position (pool_holds ops (em_ptr em)) (pools al @ [p]) = Some (length (pools al))"
    using assms by (rule iter_position_append)
  then show ?thesis
    using assms(2) same by (cases al) (simp add: executable_memory_drop_def proximity_release_def)
qed

text \<open>
  C38: the handle of an allocation can be dropped, and the drop unmaps no pool of more than one
  byte: base and length of all pools stay. That holds for a unique allocation too, one whose pool
  was mapped for the request and holds nothing else: its chunk is returned, the pool stays. The
  comments announce that the map is released then; \<^verbatim>\<open>release\<close> compares the length of the pool in
  bytes, not the number of its allocations, with 1.
\<close>

theorem drop_keeps_pools:
  fixes env :: "('u::len word, 'p) alloc_env"
  assumes laws: "pool_laws (env_ops env)" and map: "query_covers (env_query env)" "0 < env_page env"
    and room: "unat (saturating_add origin (max_distance al)) + unat (env_page env) \<le> 2 ^ LENGTH('u)"
    and wf: "\<forall>p \<in> set (pools al). pool_bounded (env_ops env) p" and "0 < n"
    and alloc: "thread_allocate env al origin n = Some (Ok (em, al'))"
  shows "((\<forall>p \<in> set (pools al'). pool_len (env_ops env) p \<noteq> 1) \<longrightarrow>
      (\<exists>al''. executable_memory_drop (env_ops env) al' em = Ok al''
        \<and> map (\<lambda>p. (pool_ptr (env_ops env) p, pool_len (env_ops env) p)) (pools al'')
          = map (\<lambda>p. (pool_ptr (env_ops env) p, pool_len (env_ops env) p)) (pools al')))
    \<and> ((\<forall>p \<in> set (pools al). \<not> pool_holds (env_ops env) (em_ptr em) p) \<longrightarrow>
      (\<exists>p. fresh_pool (env_ops env) n (em_ptr em) p \<and> pools al' = pools al @ [p]
        \<and> executable_memory_drop (env_ops env) al' em
          = Ok (al\<lparr>pools := pools al @ (if pool_len (env_ops env) p = 1 then []
                                    else [pool_free (env_ops env) p (em_ptr em)])\<rparr>)))"
    (is "(?big \<longrightarrow> ?kept) \<and> (?unique \<longrightarrow> ?stays)")
proof (intro conjI impI)
  let ?ops = "env_ops env"
  have prox: "proximity_allocate env al origin n = Some (Ok (em_ptr em, al'))"
    using alloc by (auto simp: thread_allocate_def split: bind_splits)
  {
    assume len: ?big
    have "\<exists>p \<in> set (pools al'). pool_holds ?ops (em_ptr em) p"
      using proximity_allocate_in_range [OF laws map room wf assms(6)] prox by (auto simp: chunk_ok_def)
    then have "proximity_release ?ops al' (em_ptr em) = Ok al'"
      using proximity_release_found [of al' ?ops "em_ptr em"] len by auto
    then show ?kept using laws by (auto simp: executable_memory_drop_def pool_laws_def)
  next
    assume unique: ?unique
    have "\<not> (\<exists>p p'. p \<in> set (pools al) \<and> pool_alloc ?ops p n = Some (em_ptr em, p'))"
      using unique wf pool_contains_chunk(1) [OF laws _ _ assms(6)] pool_holds_alloc [OF laws] by blast
    then obtain p where p: "fresh_pool ?ops n (em_ptr em) p" "al' = al\<lparr>pools := pools al @ [p]\<rparr>"
      using proximity_allocate_source [OF map room prox] by blast
    then show ?stays
      using drop_last_pool [OF unique fresh_pool_holds [OF laws p(1) assms(6)]] by auto
  }
qed

text \<open>The first allocation of all: its pool of 20 bytes holds nothing else, and stays.\<close>

theorem drop_keeps_pools_witness:
  "\<exists>p. fresh_pool (env_ops demo_env) 20 (0x500000 :: u64) p
    \<and> executable_memory_drop (env_ops demo_env) \<lparr>max_distance = 0x200000, pools = [(0x500000, 20, 20)]\<rparr>
       \<lparr>em_ptr = 0x500000, em_len = 20\<rparr>
      = Ok \<lparr>max_distance = 0x200000, pools = [pool_free (env_ops demo_env) p 0x500000]\<rparr>"
proof -
  note ok = drop_keeps_pools [OF _ demo_env_covers _ _ _ demo_allocate [where origin = "0x400020" and dist = "0x200000" and n = 20]]
  have laws: "pool_laws (env_ops (demo_env :: (u64, u64 \<times> nat \<times> nat) alloc_env))" using bump_ops_laws by (simp add: demo_env_def)
  show ?thesis
    using ok [OF laws]
    by (auto simp: thread_allocator_new_def demo_env_def saturating_add_def saturating_sub_def bump_ops_def
      proximity_range_def in_range_def)
qed

end
