(* ===== verification/Detour_Core.thy ===== *)
theory Detour_Core
  imports Arch_Common Alloc_Proximity
begin

text \<open>
  \<^verbatim>\<open>src/arch/detour.rs\<close>, \<^verbatim>\<open>src/arch/memory.rs\<close> and the cache maintenance of
  \<^verbatim>\<open>src/arch/mod.rs\<close>: creating a detour, enabling, disabling and dropping it. The four
  architectures are values of the record \<open>architecture\<close>, with what \<^verbatim>\<open>arch/mod.rs\<close> lists as
  their interface; the contract the detour relies on is the locale \<open>detour_backend\<close>.
\<close>

section \<open>Architectures, the operating system and the world\<close>

text \<open>
  \<open>icache_coherent\<close> is false where \<^verbatim>\<open>flush_instruction_cache\<close> has work to do. The
  disassembler and the build profile are arguments of the architecture's definitions.
\<close>

record 'a architecture =
  detour_range :: int
  prolog_margin :: "'a \<Rightarrow> nat"
  make_trampoline :: "('a \<Rightarrow> u8) \<Rightarrow> 'a \<Rightarrow> nat \<Rightarrow> 'a trampoline res"
  relay_builder :: "'a \<Rightarrow> 'a \<Rightarrow> 'a code_emitter option res"
  make_patcher :: "'a query \<Rightarrow> ('a \<Rightarrow> u8) \<Rightarrow> 'a \<Rightarrow> 'a \<Rightarrow> nat \<Rightarrow> 'a patcher res"
  icache_coherent :: bool

text \<open>
  The crates \<^verbatim>\<open>region\<close>, \<^verbatim>\<open>mmap\<close> and \<^verbatim>\<open>slice_pool\<close>: the memory map (which depends on the pools
  mapped so far), the page size, the result of \<^verbatim>\<open>protect_with_handle\<close>, and the pools.
\<close>

record ('a, 'p) os =
  os_dbg :: bool
  os_query :: "'p list \<Rightarrow> 'a query"
  os_page :: "'a"
  os_protect :: "'a \<Rightarrow> nat \<Rightarrow> region_error option"
  os_ops :: "('a, 'p) pool_ops"

text \<open>
  What the data side and the instruction side of the processor see, the allocator behind the
  global \<^verbatim>\<open>POOL\<close>, and whether its mutex is poisoned by a panic of a holder.
\<close>

record ('a, 'p) world =
  w_mem :: "('a \<Rightarrow> u8)"
  w_icache :: "('a \<Rightarrow> u8)"
  w_alloc :: "('a, 'p) proximity_allocator"
  w_poisoned :: bool

text \<open>The pool of a fresh process.\<close>

definition initial_pool :: "('u::len word) architecture \<Rightarrow> ('u word, 'p) proximity_allocator" where
  "initial_pool arch = thread_allocator_new (word_of_int (detour_range arch))"

section \<open>Writing code\<close>

definition store_code :: "('u::len word) architecture \<Rightarrow> 'u mem \<Rightarrow> ('u word, 'p) world \<Rightarrow> ('u word, 'p) world" where
  "store_code arch m w = w\<lparr>w_mem := m, w_icache := (if icache_coherent arch then m else w_icache w)\<rparr>"

definition flush_instruction_cache ::
  "('u::len word) architecture \<Rightarrow> 'u word \<Rightarrow> nat \<Rightarrow> ('u word, 'p) world \<Rightarrow> ('u word, 'p) world" where
  "flush_instruction_cache arch ptr len w =
     (if icache_coherent arch then w
      else w\<lparr>w_icache := write_bytes (w_icache w) ptr (read_bytes (w_mem w) ptr len)\<rparr>)"

definition os_env :: "('u::len word, 'p) os \<Rightarrow> ('u word, 'p) world \<Rightarrow> ('u word, 'p) alloc_env" where
  "os_env os w = \<lparr>env_dbg = os_dbg os, env_query = os_query os (pools (w_alloc w)),
     env_page = os_page os, env_ops = os_ops os\<rparr>"

text \<open>Dropping a handle that is owned by an \<^verbatim>\<open>Option\<close>.\<close>

definition drop_memory ::
  "('u::len word, 'p) os \<Rightarrow> 'u word executable_memory option \<Rightarrow> ('u word, 'p) world \<Rightarrow> unit res \<times> ('u word, 'p) world" where
  "drop_memory os mem w =
     (case mem of
        None \<Rightarrow> (Ok (), w)
      | Some em \<Rightarrow>
          (case executable_memory_drop (os_ops os) (w_alloc w) em of
             Ok al \<Rightarrow> (Ok (), w\<lparr>w_alloc := al\<rparr>)
           | Err e \<Rightarrow> (Err e, w)
           | Panic \<Rightarrow> (Panic, w)))"

text \<open>Leaving a scope that owns \<open>mem\<close> without a value: an error or a panic drops it.\<close>

definition unwind ::
  "('u::len word, 'p) os \<Rightarrow> 'u word executable_memory option \<Rightarrow> 'a res \<times> ('u word, 'p) world \<Rightarrow> 'a res \<times> ('u word, 'p) world" where
  "unwind os mem rw =
     (case rw of
        (Ok x, w) \<Rightarrow> (Ok x, w)
      | (r, w) \<Rightarrow> (case drop_memory os mem w of
            (Ok _, w') \<Rightarrow> (r, w')
          | (_, w') \<Rightarrow> (Panic, w')))"

definition allocate_pic ::
  "('u::len word) architecture \<Rightarrow> ('u word, 'p) os \<Rightarrow> 'u word code_emitter \<Rightarrow> 'u word \<Rightarrow> ('u word, 'p) world
     \<Rightarrow> ('u word executable_memory res \<times> ('u word, 'p) world) option" where
  "allocate_pic arch os emitter origin w =
     map_option (\<lambda>r.
       case r of
         Err e \<Rightarrow> (Err e, w)
       | Panic \<Rightarrow> (Panic, w)
       | Ok (memory, al) \<Rightarrow>
           (let w = w\<lparr>w_alloc := al\<rparr> in
            unwind os (Some memory)
              (case emit emitter (em_ptr memory) of
                 Ok code \<Rightarrow>
                   (case copy_from_slice (w_mem w) (em_ptr memory) (em_len memory) code of
                      Ok m \<Rightarrow> (Ok memory, flush_instruction_cache arch (em_ptr memory) (em_len memory)
                                 (store_code arch m w))
                    | _ \<Rightarrow> (Panic, w))
               | _ \<Rightarrow> (Panic, w))))
       (thread_allocate (os_env os w) (w_alloc w) origin (emitter_len emitter))"

section \<open>Detours\<close>

record 'a detour =
  d_relay :: "'a executable_memory option"
  d_trampoline :: "'a executable_memory"
  d_patcher :: "'a patcher"
  d_enabled :: bool

definition both_executable :: "('u::len word, 'p) os \<Rightarrow> ('u word, 'p) world \<Rightarrow> 'u word \<Rightarrow> 'u word \<Rightarrow> bool res" where
  "both_executable os w target detour =
     res_bind (is_executable_address (os_query os (pools (w_alloc w))) target) (\<lambda>executable.
       if \<not> executable then Ok False
       else is_executable_address (os_query os (pools (w_alloc w))) detour)"

text \<open>The struct expression at the end of \<^verbatim>\<open>Detour::new\<close>: the patcher, then the trampoline.\<close>

definition detour_finish ::
  "('u::len word) architecture \<Rightarrow> ('u word, 'p) os \<Rightarrow> 'u word \<Rightarrow> 'u word \<Rightarrow> 'u word trampoline
     \<Rightarrow> 'u word executable_memory option \<Rightarrow> ('u word, 'p) world \<Rightarrow> ('u word detour res \<times> ('u word, 'p) world) option" where
  "detour_finish arch os target detour trampoline relay w =
     (let detour = (case relay of Some code \<Rightarrow> em_ptr code | None \<Rightarrow> detour) in
      map_option (unwind os relay)
        (case make_patcher arch (os_query os (pools (w_alloc w))) (w_mem w) target detour
                (tramp_prolog_size trampoline) of
           Err e \<Rightarrow> Some (Err e, w)
         | Panic \<Rightarrow> Some (Panic, w)
         | Ok patcher \<Rightarrow>
             map_option (\<lambda>(r, w).
               (res_map (\<lambda>memory. \<lparr>d_relay = relay, d_trampoline = memory, d_patcher = patcher,
                                    d_enabled = False\<rparr>) r, w))
               (allocate_pic arch os (tramp_emitter trampoline) target w)))"

definition detour_new_locked ::
  "('u::len word) architecture \<Rightarrow> ('u word, 'p) os \<Rightarrow> 'u word \<Rightarrow> 'u word \<Rightarrow> ('u word, 'p) world
     \<Rightarrow> ('u word detour res \<times> ('u word, 'p) world) option" where
  "detour_new_locked arch os target detour w =
     (case both_executable os w target detour of
        Err e \<Rightarrow> Some (Err e, w)
      | Panic \<Rightarrow> Some (Panic, w)
      | Ok False \<Rightarrow> Some (Err NotExecutable, w)
      | Ok True \<Rightarrow>
          (case make_trampoline arch (w_mem w) target (prolog_margin arch target) of
             Err e \<Rightarrow> Some (Err e, w)
           | Panic \<Rightarrow> Some (Panic, w)
           | Ok trampoline \<Rightarrow>
               (case relay_builder arch target detour of
                  Err e \<Rightarrow> Some (Err e, w)
                | Panic \<Rightarrow> Some (Panic, w)
                | Ok None \<Rightarrow> detour_finish arch os target detour trampoline None w
                | Ok (Some emitter) \<Rightarrow>
                    Option.bind (allocate_pic arch os emitter target w) (\<lambda>(r, w).
                      case r of
                        Err e \<Rightarrow> Some (Err e, w)
                      | Panic \<Rightarrow> Some (Panic, w)
                      | Ok relay \<Rightarrow> detour_finish arch os target detour trampoline (Some relay) w))))"

text \<open>A panic while the guard of \<^verbatim>\<open>POOL\<close> is alive poisons the mutex.\<close>

definition poison :: "'a res \<times> ('u::len word, 'p) world \<Rightarrow> 'a res \<times> ('u word, 'p) world" where
  "poison rw = (case rw of (Panic, w) \<Rightarrow> (Panic, w\<lparr>w_poisoned := True\<rparr>) | _ \<Rightarrow> rw)"

definition detour_new ::
  "('u::len word) architecture \<Rightarrow> ('u word, 'p) os \<Rightarrow> 'u word \<Rightarrow> 'u word \<Rightarrow> ('u word, 'p) world
     \<Rightarrow> ('u word detour res \<times> ('u word, 'p) world) option" where
  "detour_new arch os target detour w =
     (if target = detour then Some (Err SameAddress, w)
      else if w_poisoned w then Some (Panic, w)
      else map_option poison (detour_new_locked arch os target detour w))"

definition detour_toggle ::
  "('u::len word) architecture \<Rightarrow> ('u word, 'p) os \<Rightarrow> bool \<Rightarrow> 'u word detour \<Rightarrow> ('u word, 'p) world
     \<Rightarrow> unit res \<times> 'u word detour \<times> ('u word, 'p) world" where
  "detour_toggle arch os enabled d w =
     (if w_poisoned w then (Panic, d, w)
      else if d_enabled d = enabled then (Ok (), d, w)
      else
        (let (ptr, len) = patcher_area (d_patcher d) in
         case os_protect os ptr len of
           Some e \<Rightarrow> (Err (error_from e), d, w)
         | None \<Rightarrow>
             (case patcher_toggle (d_patcher d) enabled (w_mem w) of
                Ok m \<Rightarrow> (Ok (), d\<lparr>d_enabled := enabled\<rparr>,
                         flush_instruction_cache arch ptr len (store_code arch m w))
              | _ \<Rightarrow> (Panic, d, w\<lparr>w_poisoned := True\<rparr>))))"

definition detour_enable ::
  "('u::len word) architecture \<Rightarrow> ('u word, 'p) os \<Rightarrow> 'u word detour \<Rightarrow> ('u word, 'p) world
     \<Rightarrow> unit res \<times> 'u word detour \<times> ('u word, 'p) world" where
  "detour_enable arch os d w = detour_toggle arch os True d w"

definition detour_disable ::
  "('u::len word) architecture \<Rightarrow> ('u word, 'p) os \<Rightarrow> 'u word detour \<Rightarrow> ('u word, 'p) world
     \<Rightarrow> unit res \<times> 'u word detour \<times> ('u word, 'p) world" where
  "detour_disable arch os d w = detour_toggle arch os False d w"

definition detour_is_enabled :: "'u::len word detour \<Rightarrow> bool" where
  "detour_is_enabled d = d_enabled d"

text \<open>\<^verbatim>\<open>as_ref().expect(...)\<close> on the address of the trampoline.\<close>

definition detour_trampoline :: "'u::len word detour \<Rightarrow> 'u word res" where
  "detour_trampoline d = (if em_ptr (d_trampoline d) = 0 then Panic else Ok (em_ptr (d_trampoline d)))"

text \<open>The fields are dropped in the order of their declaration, also after a failed assertion.\<close>

definition drop_fields ::
  "('u::len word, 'p) os \<Rightarrow> 'u word detour \<Rightarrow> ('u word, 'p) world \<Rightarrow> unit res \<times> ('u word, 'p) world" where
  "drop_fields os d w =
     (let (r, w) = drop_memory os (d_relay d) w;
          (r', w) = drop_memory os (Some (d_trampoline d)) w
      in (res_bind r (\<lambda>_. r'), w))"

text \<open>\<^verbatim>\<open>debug_assert!(self.disable().is_ok())\<close>: a release build does not evaluate the condition.\<close>

definition detour_drop ::
  "('u::len word) architecture \<Rightarrow> ('u word, 'p) os \<Rightarrow> 'u word detour \<Rightarrow> ('u word, 'p) world \<Rightarrow> unit res \<times> ('u word, 'p) world" where
  "detour_drop arch os d w =
     (if os_dbg os then
        (case detour_disable arch os d w of
           (Ok _, d', w') \<Rightarrow> drop_fields os d' w'
         | (_, d', w') \<Rightarrow> (Panic, snd (drop_fields os d' w')))
      else drop_fields os d w)"

section \<open>What the operations do to memory\<close>

text \<open>Addresses of a chunk and of a patch area.\<close>

definition in_chunk :: "'u::len word executable_memory \<Rightarrow> 'u word \<Rightarrow> bool" where
  "in_chunk em x \<longleftrightarrow> unat (x - em_ptr em) < em_len em"

definition in_area :: "'u::len word patcher \<Rightarrow> 'u word \<Rightarrow> bool" where
  "in_area p x \<longleftrightarrow> unat (x - area_ptr p) < area_len p"

text \<open>On a coherent processor both sides see the same memory.\<close>

definition icache_ok :: "('u::len word) architecture \<Rightarrow> ('u word, 'p) world \<Rightarrow> bool" where
  "icache_ok arch w \<longleftrightarrow> (icache_coherent arch \<longrightarrow> w_icache w = w_mem w)"

lemma thread_allocate_len: "thread_allocate env al origin n = Some (Ok (em, al')) \<Longrightarrow> em_len em = n"
  by (auto simp: thread_allocate_def split: bind_splits)

lemma drop_memory_mem [simp]:
  "w_mem (snd (drop_memory os em w)) = w_mem w"
  "w_icache (snd (drop_memory os em w)) = w_icache w"
  "w_poisoned (snd (drop_memory os em w)) = w_poisoned w"
  by (simp_all add: drop_memory_def split: option.splits res.splits)

lemma unwind_mem [simp]:
  "w_mem (snd (unwind os em rw)) = w_mem (snd rw)"
  "w_icache (snd (unwind os em rw)) = w_icache (snd rw)"
  "w_poisoned (snd (unwind os em rw)) = w_poisoned (snd rw)"
proof -
  obtain r w where rw: "rw = (r, w)" by fastforce
  obtain r' w' where drop: "drop_memory os em w = (r', w')" by fastforce
  have "w_mem w' = w_mem w" "w_icache w' = w_icache w" "w_poisoned w' = w_poisoned w"
    using drop_memory_mem [of os em w] drop by simp_all
  then show "w_mem (snd (unwind os em rw)) = w_mem (snd rw)"
    "w_icache (snd (unwind os em rw)) = w_icache (snd rw)"
    "w_poisoned (snd (unwind os em rw)) = w_poisoned (snd rw)"
    using rw drop by (cases r; cases r'; simp add: unwind_def)+
qed

lemma unwind_not_Ok: "(\<forall>x. r \<noteq> Ok x) \<Longrightarrow> unwind os em (r, w) \<noteq> (Ok x, w')"
  by (simp add: unwind_def split: prod.splits res.splits)

lemma unwind_Ok [simp]: "unwind os em rw = (Ok x, w') \<longleftrightarrow> rw = (Ok x, w')"
  by (auto simp: unwind_def split: prod.splits res.splits)

lemma unwind_Ok_same [simp]: "unwind os em (Ok x, w) = (Ok x, w)"
  by (simp add: unwind_def)

lemma write_code_simps [simp]:
  "w_mem (flush_instruction_cache arch a n w) = w_mem w"
  "w_alloc (flush_instruction_cache arch a n w) = w_alloc w"
  "w_poisoned (flush_instruction_cache arch a n w) = w_poisoned w"
  "w_mem (store_code arch m w) = m"
  "w_alloc (store_code arch m w) = w_alloc w"
  "w_poisoned (store_code arch m w) = w_poisoned w"
  by (simp_all add: flush_instruction_cache_def store_code_def)

text \<open>Storing and then flushing the same bytes: both sides see them, and nothing else changed.\<close>

lemma icache_after_flush:
  fixes w :: "('u::len word, 'p) world"
  assumes "icache_ok arch w" "length code = n" "n \<le> 2 ^ LENGTH('u)"
  shows "w_icache (flush_instruction_cache arch a n (store_code arch (write_bytes (w_mem w) a code) w))
    = write_bytes (w_icache w) a code"
  using assms by (simp add: flush_instruction_cache_def store_code_def icache_ok_def)

lemma icache_flush_outside:
  assumes "icache_ok arch w" "length code = n" "n \<le> unat (x - a)"
  shows "w_icache (flush_instruction_cache arch a n (store_code arch (write_bytes (w_mem w) a code) w)) x
    = w_icache w x"
  using assms by (simp add: flush_instruction_cache_def store_code_def icache_ok_def write_bytes_outside)

lemma allocate_pic_cases:
  assumes "allocate_pic arch os e origin w = Some (r, w')"
  shows "(\<exists>em al code. r = Ok em \<and> thread_allocate (os_env os w) (w_alloc w) origin (emitter_len e) = Some (Ok (em, al))
       \<and> em_len em = emitter_len e \<and> emit e (em_ptr em) = Ok code \<and> length code = em_len em
       \<and> w' = flush_instruction_cache arch (em_ptr em) (em_len em)
                (store_code arch (write_bytes (w_mem w) (em_ptr em) code) (w\<lparr>w_alloc := al\<rparr>)))
    \<or> ((\<forall>em. r \<noteq> Ok em) \<and> w_mem w' = w_mem w \<and> w_icache w' = w_icache w \<and> w_poisoned w' = w_poisoned w)"
proof -
  obtain a where a: "thread_allocate (os_env os w) (w_alloc w) origin (emitter_len e) = Some a"
    using assms by (auto simp: allocate_pic_def)
  show ?thesis
  proof (cases a)
    case (Ok ea)
    obtain em al where em: "ea = (em, al)" by fastforce
    have len: "em_len em = emitter_len e" using a Ok em thread_allocate_len by blast
    have eq: "unwind os (Some em)
        (case emit e (em_ptr em) of
           Ok code \<Rightarrow>
             (case copy_from_slice (w_mem (w\<lparr>w_alloc := al\<rparr>)) (em_ptr em) (em_len em) code of
                Ok m \<Rightarrow> (Ok em, flush_instruction_cache arch (em_ptr em) (em_len em)
                           (store_code arch m (w\<lparr>w_alloc := al\<rparr>)))
              | _ \<Rightarrow> (Panic, w\<lparr>w_alloc := al\<rparr>))
         | _ \<Rightarrow> (Panic, w\<lparr>w_alloc := al\<rparr>)) = (r, w')"
      using assms a Ok em by (simp add: allocate_pic_def Let_def)
    show ?thesis
    proof (cases "emit e (em_ptr em)")
      case (Ok code)
      then show ?thesis
        using eq a \<open>a = Ok ea\<close> em len length_emit [OF Ok] by (simp add: copy_from_slice_def)
    next
      case (Err x)
      then have unw: "unwind os (Some em) (Panic, w\<lparr>w_alloc := al\<rparr>) = (r, w')" using eq by simp
      have "w_mem w' = w_mem w" "w_icache w' = w_icache w" "w_poisoned w' = w_poisoned w"
        using unwind_mem [of os "Some em" "(Panic, w\<lparr>w_alloc := al\<rparr>) :: 'a word executable_memory res \<times> _"]
          unw by simp_all
      then show ?thesis using unw unwind_not_Ok [of Panic os "Some em"] by (cases r) auto
    next
      case Panic
      then have unw: "unwind os (Some em) (Panic, w\<lparr>w_alloc := al\<rparr>) = (r, w')" using eq by simp
      have "w_mem w' = w_mem w" "w_icache w' = w_icache w" "w_poisoned w' = w_poisoned w"
        using unwind_mem [of os "Some em" "(Panic, w\<lparr>w_alloc := al\<rparr>) :: 'a word executable_memory res \<times> _"]
          unw by simp_all
      then show ?thesis using unw unwind_not_Ok [of Panic os "Some em"] by (cases r) auto
    qed
  qed (use assms a in \<open>auto simp: allocate_pic_def\<close>)
qed

lemma poison_Ok [simp]: "poison rw = (Ok x, w') \<longleftrightarrow> rw = (Ok x, w')"
  by (auto simp: poison_def split: prod.splits res.splits)

lemma poison_mem [simp]:
  "w_mem (snd (poison rw)) = w_mem (snd rw)" "w_icache (snd (poison rw)) = w_icache (snd rw)"
  "w_alloc (snd (poison rw)) = w_alloc (snd rw)"
  by (auto simp: poison_def split: prod.splits res.splits)

text \<open>Where the hook goes: to the relay, if there is one.\<close>

definition detour_entry :: "'u::len word detour \<Rightarrow> 'u word \<Rightarrow> 'u word" where
  "detour_entry d detour = (case d_relay d of Some em \<Rightarrow> em_ptr em | None \<Rightarrow> detour)"

lemma detour_finish_Ok:
  "detour_finish arch os target detour tramp relay w = Some (Ok d, w') \<longleftrightarrow>
     make_patcher arch (os_query os (pools (w_alloc w))) (w_mem w) target
            (case relay of Some code \<Rightarrow> em_ptr code | None \<Rightarrow> detour) (tramp_prolog_size tramp) = Ok (d_patcher d)
       \<and> allocate_pic arch os (tramp_emitter tramp) target w = Some (Ok (d_trampoline d), w')
       \<and> d_relay d = relay \<and> \<not> d_enabled d"
  by (cases d) (auto simp: detour_finish_def Let_def split: res.splits option.splits)

text \<open>The stages a successful \<^verbatim>\<open>Detour::new\<close> went through; \<open>w1\<close> is the world after the relay.\<close>

lemma detour_new_Ok:
  assumes "detour_new arch os target detour w = Some (Ok d, w')"
  obtains tramp w1 where "target \<noteq> detour" "\<not> w_poisoned w"
    "both_executable os w target detour = Ok True"
    "make_trampoline arch (w_mem w) target (prolog_margin arch target) = Ok tramp"
    "d_relay d = None \<and> relay_builder arch target detour = Ok None \<and> w1 = w
     \<or> (\<exists>em emitter. d_relay d = Some em \<and> relay_builder arch target detour = Ok (Some emitter)
          \<and> allocate_pic arch os emitter target w = Some (Ok em, w1))"
    "make_patcher arch (os_query os (pools (w_alloc w1))) (w_mem w1) target (detour_entry d detour)
       (tramp_prolog_size tramp) = Ok (d_patcher d)"
    "allocate_pic arch os (tramp_emitter tramp) target w1 = Some (Ok (d_trampoline d), w')"
    "\<not> d_enabled d"
proof -
  have pre: "target \<noteq> detour" "\<not> w_poisoned w" and new: "detour_new_locked arch os target detour w = Some (Ok d, w')"
    using assms by (auto simp: detour_new_def split: if_splits)
  obtain tramp where stages: "both_executable os w target detour = Ok True"
      "make_trampoline arch (w_mem w) target (prolog_margin arch target) = Ok tramp"
    and rest: "relay_builder arch target detour = Ok None \<and> detour_finish arch os target detour tramp None w = Some (Ok d, w')
     \<or> (\<exists>em emitter w1. relay_builder arch target detour = Ok (Some emitter)
          \<and> allocate_pic arch os emitter target w = Some (Ok em, w1)
          \<and> detour_finish arch os target detour tramp (Some em) w1 = Some (Ok d, w'))"
    using new by (auto simp: detour_new_locked_def split: res.splits option.splits bool.splits bind_splits)
  from rest show thesis
  proof
    assume "relay_builder arch target detour = Ok None \<and> detour_finish arch os target detour tramp None w = Some (Ok d, w')"
    then show thesis
      using that [OF pre stages, of w] by (auto simp: detour_finish_Ok detour_entry_def)
  next
    assume "\<exists>em emitter w1. relay_builder arch target detour = Ok (Some emitter)
      \<and> allocate_pic arch os emitter target w = Some (Ok em, w1)
      \<and> detour_finish arch os target detour tramp (Some em) w1 = Some (Ok d, w')"
    then show thesis
      using that [OF pre stages] by (auto simp: detour_finish_Ok detour_entry_def)
  qed
qed

section \<open>Creating a detour leaves the program alone\<close>

text \<open>Memory and instruction cache agree with before outside the chunks \<open>ems\<close>.\<close>

definition changes_only ::
  "'u::len word executable_memory list \<Rightarrow> ('u word, 'p) world \<Rightarrow> ('u word, 'p) world \<Rightarrow> bool" where
  "changes_only ems w w' \<longleftrightarrow> (\<forall>x. (\<forall>em \<in> set ems. \<not> in_chunk em x) \<longrightarrow>
     w_mem w' x = w_mem w x \<and> w_icache w' x = w_icache w x)"

lemma changes_only_trans:
  "changes_only xs w w1 \<Longrightarrow> changes_only ys w1 w2 \<Longrightarrow> changes_only (xs @ ys) w w2"
  by (auto simp: changes_only_def)

lemma changes_only_same:
  "w_mem w' = w_mem w \<Longrightarrow> w_icache w' = w_icache w \<Longrightarrow> changes_only [] w w'"
  by (simp add: changes_only_def)

text \<open>
  The chunks were handed out by the allocator of the world \<open>w\<close>, one after the other, for requests
  near \<open>origin\<close>; between two requests only the chunk handed out last was written.
\<close>

fun handed_out ::
  "('u::len word, 'p) os \<Rightarrow> 'u word \<Rightarrow> ('u word, 'p) world \<Rightarrow> 'u word executable_memory list \<Rightarrow> bool" where
  "handed_out os origin w [] \<longleftrightarrow> True"
| "handed_out os origin w (em # ems) \<longleftrightarrow>
     (\<exists>w'. thread_allocate (os_env os w) (w_alloc w) origin (em_len em) = Some (Ok (em, w_alloc w'))
         \<and> changes_only [em] w w' \<and> handed_out os origin w' ems)"

lemma allocate_pic_next:
  assumes "allocate_pic arch os e origin w = Some (Ok em, w')" "icache_ok arch w" "handed_out os origin w' ems"
  shows "changes_only [em] w w' \<and> handed_out os origin w (em # ems)"
proof -
  obtain al code where al: "thread_allocate (os_env os w) (w_alloc w) origin (em_len em) = Some (Ok (em, al))"
    and len: "length code = em_len em"
    and w': "w' = flush_instruction_cache arch (em_ptr em) (em_len em)
                (store_code arch (write_bytes (w_mem w) (em_ptr em) code) (w\<lparr>w_alloc := al\<rparr>))"
    using allocate_pic_cases [OF assms(1)] by auto
  have ok: "icache_ok arch (w\<lparr>w_alloc := al\<rparr>)" using assms(2) by (simp add: icache_ok_def)
  have changes: "changes_only [em] w w'"
    using icache_flush_outside [OF ok len] len
    by (auto simp: changes_only_def in_chunk_def w' write_bytes_outside)
  have "w_alloc w' = al" by (simp add: w')
  then show ?thesis using al changes assms(3) by auto
qed

lemma allocate_pic_frame:
  assumes "allocate_pic arch os e origin w = Some (r, w')" "icache_ok arch w"
  shows "icache_ok arch w' \<and> w_poisoned w' = w_poisoned w \<and> (\<exists>ems. handed_out os origin w ems
    \<and> changes_only ems w w' \<and> (\<forall>em. r = Ok em \<longrightarrow> ems = [em]))"
proof (cases "\<exists>em. r = Ok em")
  case True
  then obtain em where em: "r = Ok em" by blast
  have "icache_ok arch w' \<and> w_poisoned w' = w_poisoned w"
  proof -
    obtain al code where w': "w' = flush_instruction_cache arch (em_ptr em) (em_len em)
        (store_code arch (write_bytes (w_mem w) (em_ptr em) code) (w\<lparr>w_alloc := al\<rparr>))"
      using allocate_pic_cases [OF assms(1)] em by auto
    show ?thesis unfolding w' by (simp, simp add: icache_ok_def flush_instruction_cache_def store_code_def)
  qed
  then show ?thesis
    using allocate_pic_next [OF assms(1) [unfolded em] assms(2), of "[]"] em by (auto intro!: exI [of _ "[em]"])
next
  case False
  then have "w_mem w' = w_mem w \<and> w_icache w' = w_icache w \<and> w_poisoned w' = w_poisoned w"
    using allocate_pic_cases [OF assms(1)] by auto
  then show ?thesis
    using False assms(2) changes_only_same [of w' w] by (auto simp: icache_ok_def intro!: exI [of _ "[]"])
qed

lemma changes_only_snd:
  "w_mem (snd rw') = w_mem (snd rw) \<Longrightarrow> w_icache (snd rw') = w_icache (snd rw) \<Longrightarrow>
     changes_only ems w (snd rw') = changes_only ems w (snd rw)"
  by (simp add: changes_only_def)

lemma icache_ok_snd:
  "w_mem w' = w_mem w \<Longrightarrow> w_icache w' = w_icache w \<Longrightarrow> icache_ok arch w' = icache_ok arch w"
  by (simp add: icache_ok_def)

lemma detour_finish_frame:
  assumes "detour_finish arch os target detour tramp relay w = Some (r, w')" "icache_ok arch w"
  shows "icache_ok arch w' \<and> w_poisoned w' = w_poisoned w \<and> (\<exists>ems. handed_out os target w ems
    \<and> changes_only ems w w' \<and> (\<forall>d. r = Ok d \<longrightarrow> ems = [d_trampoline d] \<and> d_relay d = relay))"
proof -
  let ?detour = "case relay of Some code \<Rightarrow> em_ptr code | None \<Rightarrow> detour"
  let ?patcher = "make_patcher arch (os_query os (pools (w_alloc w))) (w_mem w) target ?detour (tramp_prolog_size tramp)"
  show ?thesis
  proof (cases ?patcher)
    case (Ok p)
    then obtain r1 w1 where a: "allocate_pic arch os (tramp_emitter tramp) target w = Some (r1, w1)"
      and u: "unwind os relay (res_map (\<lambda>memory. \<lparr>d_relay = relay, d_trampoline = memory, d_patcher = p,
          d_enabled = False\<rparr>) r1, w1) = (r, w')"
      using assms(1) by (auto simp: detour_finish_def Let_def)
    have same: "w_mem w' = w_mem w1" "w_icache w' = w_icache w1" "w_poisoned w' = w_poisoned w1"
      using unwind_mem [of os relay "(res_map (\<lambda>memory. \<lparr>d_relay = relay, d_trampoline = memory, d_patcher = p,
          d_enabled = False\<rparr>) r1, w1)"] u by simp_all
    have "r1 = Ok (d_trampoline d) \<and> d_relay d = relay" if "r = Ok d" for d using u that by auto
    moreover obtain ems where "handed_out os target w ems" "changes_only ems w w1"
        "\<forall>em. r1 = Ok em \<longrightarrow> ems = [em]" and ok: "icache_ok arch w1" "w_poisoned w1 = w_poisoned w"
      using allocate_pic_frame [OF a assms(2)] by blast
    moreover have "changes_only ems w w' = changes_only ems w w1"
      by (simp add: changes_only_def same)
    ultimately show ?thesis using icache_ok_snd [OF same(1,2)] same(3) by (intro conjI exI [of _ ems]) auto
  next
    case (Err e)
    then have u: "unwind os relay (Err e, w) = (r, w')"
      using assms(1) by (simp add: detour_finish_def Let_def)
    have same: "w_mem w' = w_mem w" "w_icache w' = w_icache w" "w_poisoned w' = w_poisoned w"
      using unwind_mem [of os relay "(Err e, w) :: 'a word detour res \<times> _"] u by simp_all
    then show ?thesis
      using u assms(2) icache_ok_snd [OF same(1,2)] changes_only_same [OF same(1,2)]
      by (auto intro!: exI [of _ "[]"])
  next
    case Panic
    then have u: "unwind os relay (Panic, w) = (r, w')"
      using assms(1) by (simp add: detour_finish_def Let_def)
    have same: "w_mem w' = w_mem w" "w_icache w' = w_icache w" "w_poisoned w' = w_poisoned w"
      using unwind_mem [of os relay "(Panic, w) :: 'a word detour res \<times> _"] u by simp_all
    then show ?thesis
      using u assms(2) icache_ok_snd [OF same(1,2)] changes_only_same [OF same(1,2)]
      by (auto intro!: exI [of _ "[]"])
  qed
qed

definition d_chunks :: "'u::len word detour \<Rightarrow> 'u word executable_memory list" where
  "d_chunks d = (case d_relay d of Some em \<Rightarrow> [em, d_trampoline d] | None \<Rightarrow> [d_trampoline d])"

lemma detour_new_locked_frame:
  assumes "detour_new_locked arch os target detour w = Some (r, w')" "icache_ok arch w"
  shows "icache_ok arch w' \<and> w_poisoned w' = w_poisoned w \<and> (\<exists>ems. handed_out os target w ems
    \<and> changes_only ems w w' \<and> (\<forall>d. r = Ok d \<longrightarrow> ems = d_chunks d))"
proof -
  consider (fail) "w' = w" "\<forall>d. r \<noteq> Ok d"
    | (near) tramp where "detour_finish arch os target detour tramp None w = Some (r, w')"
    | (stop) emitter ra where "allocate_pic arch os emitter target w = Some (ra, w')" "\<forall>d. r \<noteq> Ok d"
    | (far) tramp emitter em w1 where "allocate_pic arch os emitter target w = Some (Ok em, w1)"
        "detour_finish arch os target detour tramp (Some em) w1 = Some (r, w')"
    using assms(1) by (auto simp: detour_new_locked_def split: res.splits option.splits bool.splits bind_splits)
  then show ?thesis
  proof cases
    case fail
    then show ?thesis using assms(2) changes_only_same [of w' w] by (auto intro!: exI [of _ "[]"])
  next
    case near
    then show ?thesis using detour_finish_frame [OF near assms(2)] by (fastforce simp: d_chunks_def)
  next
    case stop
    then show ?thesis using allocate_pic_frame [OF stop(1) assms(2)] by blast
  next
    case far
    have relay: "icache_ok arch w1" "w_poisoned w1 = w_poisoned w"
      using allocate_pic_frame [OF far(1) assms(2)] by auto
    obtain ems where rest: "icache_ok arch w'" "w_poisoned w' = w_poisoned w1" "handed_out os target w1 ems"
        "changes_only ems w1 w'" and ems: "\<forall>d. r = Ok d \<longrightarrow> ems = [d_trampoline d] \<and> d_relay d = Some em"
      using detour_finish_frame [OF far(2) relay(1)] by blast
    note first = allocate_pic_next [OF far(1) assms(2) rest(3)]
    then have "changes_only (em # ems) w w'"
      using changes_only_trans [of "[em]" w w1 ems w'] rest(4) by simp
    then show ?thesis
      using relay(2) rest(1,2) first ems by (intro conjI exI [of _ "em # ems"]) (auto simp: d_chunks_def)
  qed
qed

lemma poison_cases: "poison (r, w) = (r, if r = Panic then w\<lparr>w_poisoned := True\<rparr> else w)"
  by (cases r) (simp_all add: poison_def)

lemma detour_new_frame:
  assumes "detour_new arch os target detour w = Some (r, w')" "icache_ok arch w"
  shows "icache_ok arch w' \<and> (\<exists>ems. handed_out os target w ems \<and> changes_only ems w w'
    \<and> (\<forall>d. r = Ok d \<longrightarrow> ems = d_chunks d \<and> \<not> d_enabled d))"
proof -
  consider (fail) "w' = w" "\<forall>d. r \<noteq> Ok d"
    | (locked) w1 where "detour_new_locked arch os target detour w = Some (r, w1)"
        "w' = (if r = Panic then w1\<lparr>w_poisoned := True\<rparr> else w1)"
    using assms(1) by (auto simp: detour_new_def poison_cases split: if_splits)
  then show ?thesis
  proof cases
    case fail
    then show ?thesis using assms(2) changes_only_same [of w' w] by (auto intro!: exI [of _ "[]"])
  next
    case locked
    obtain ems where ems: "icache_ok arch w1" "handed_out os target w ems" "changes_only ems w w1"
        "\<forall>d. r = Ok d \<longrightarrow> ems = d_chunks d"
      using detour_new_locked_frame [OF locked(1) assms(2)] by blast
    have "\<not> d_enabled d" if "r = Ok d" for d
      using detour_new_Ok [of arch os target detour w d w'] assms(1) that by auto
    then show ?thesis
      using ems locked(2) by (intro conjI exI [of _ ems]) (auto simp: changes_only_def icache_ok_def)
  qed
qed

text \<open>
  C14: whatever \<^verbatim>\<open>Detour::new\<close> returns, it has written to chunks its allocator handed out one
  after the other for this request, and nowhere else: the target runs as before. The new detour is disabled.
\<close>

theorem detour_new_spares_code:
  assumes "detour_new arch os target detour w = Some (r, w')" "icache_ok arch w"
  shows "icache_ok arch w' \<and> (\<exists>ems. handed_out os target w ems \<and> changes_only ems w w'
    \<and> (\<forall>d. r = Ok d \<longrightarrow> ems = d_chunks d \<and> \<not> d_enabled d))"
  using assms by (rule detour_new_frame)

section \<open>Both sides see the same code\<close>

lemma flush_synced:
  assumes "w_icache w = w_mem w" "length code = n"
    and "w' = flush_instruction_cache arch a n (store_code arch (write_bytes (w_mem w) a code) w)"
  shows "w_icache w' = w_mem w'"
  using assms by (auto simp: flush_instruction_cache_def store_code_def write_bytes_def fun_eq_iff)

lemma allocate_pic_code:
  assumes "allocate_pic arch os e origin w = Some (Ok em, w')" "w_icache w = w_mem w"
  shows "w_icache w' = w_mem w' \<and> (\<exists>code. emit e (em_ptr em) = Ok code \<and> length code = em_len em
    \<and> em_len em = emitter_len e \<and> w_mem w' = write_bytes (w_mem w) (em_ptr em) code)"
proof -
  obtain al code where code: "emit e (em_ptr em) = Ok code" "length code = em_len em" "em_len em = emitter_len e"
    and w': "w' = flush_instruction_cache arch (em_ptr em) (em_len em)
                (store_code arch (write_bytes (w_mem w) (em_ptr em) code) (w\<lparr>w_alloc := al\<rparr>))"
    using allocate_pic_cases [OF assms(1)] by auto
  have "w_icache w' = w_mem w'"
    using flush_synced [of "w\<lparr>w_alloc := al\<rparr>" code "em_len em" w'] assms(2) code(2) w' by simp
  then show ?thesis using code w' by auto
qed

section \<open>Toggling\<close>

text \<open>The code a detour's patch area should hold.\<close>

definition area_code :: "'u::len word detour \<Rightarrow> u8 list" where
  "area_code d = (if d_enabled d then detour_prolog (d_patcher d) else original_prolog (d_patcher d))"

text \<open>The contract of \<^verbatim>\<open>toggle\<close> on a well-formed patcher, complete: every branch.\<close>

lemma detour_toggle_wf:
  assumes "patcher_wf (d_patcher d)"
  shows "detour_toggle arch os en d w =
    (if w_poisoned w then (Panic, d, w)
     else if d_enabled d = en then (Ok (), d, w)
     else case os_protect os (area_ptr (d_patcher d)) (area_len (d_patcher d)) of
       Some e \<Rightarrow> (Err (RegionFailure e), d, w)
     | None \<Rightarrow> (Ok (), d\<lparr>d_enabled := en\<rparr>,
         flush_instruction_cache arch (area_ptr (d_patcher d)) (area_len (d_patcher d))
           (store_code arch (write_bytes (w_mem w) (area_ptr (d_patcher d)) (area_code (d\<lparr>d_enabled := en\<rparr>))) w)))"
  using assms
  by (auto simp: detour_toggle_def patcher_area_def patcher_toggle_wf area_code_def error_from_def
      split: option.splits)

lemma detour_toggle_same [simp]:
  "d_patcher (fst (snd (detour_toggle arch os en d w))) = d_patcher d"
  "d_relay (fst (snd (detour_toggle arch os en d w))) = d_relay d"
  "d_trampoline (fst (snd (detour_toggle arch os en d w))) = d_trampoline d"
  "w_alloc (snd (snd (detour_toggle arch os en d w))) = w_alloc w"
  by (auto simp: detour_toggle_def Let_def split: option.splits res.splits prod.splits)

lemma length_area_code: "patcher_wf (d_patcher d) \<Longrightarrow> length (area_code d) = area_len (d_patcher d)"
  by (simp add: area_code_def patcher_wf_def)

text \<open>
  The state of one patch area: data and instruction side hold the code that fits the flag.
  A toggle establishes it for its own detour and leaves every other place alone.
\<close>

definition area_ok :: "('u::len word, 'p) world \<Rightarrow> 'u word detour \<Rightarrow> bool" where
  "area_ok w d \<longleftrightarrow> patcher_wf (d_patcher d) \<and> area_len (d_patcher d) \<le> 2 ^ LENGTH('u)
     \<and> code_at (w_mem w) (area_ptr (d_patcher d)) (area_code d)
     \<and> code_at (w_icache w) (area_ptr (d_patcher d)) (area_code d)"

lemma detour_toggle_area_ok:
  fixes w :: "('u::len word, 'p) world"
  assumes "area_ok w d" "icache_ok arch w" "detour_toggle arch os en d w = (r, d', w')"
  shows "area_ok w' d' \<and> icache_ok arch w' \<and> w_poisoned w' = w_poisoned w
    \<and> (\<forall>x. \<not> in_area (d_patcher d) x \<longrightarrow> w_mem w' x = w_mem w x \<and> w_icache w' x = w_icache w x)
    \<and> (r = Ok () \<longrightarrow> d' = d\<lparr>d_enabled := en\<rparr>) \<and> (r \<noteq> Ok () \<longrightarrow> d' = d \<and> w' = w)"
proof -
  let ?p = "d_patcher d" and ?d = "d\<lparr>d_enabled := en\<rparr>"
  have wf: "patcher_wf ?p" and small: "area_len ?p \<le> 2 ^ LENGTH('u)" using assms(1) by (simp_all add: area_ok_def)
  have len: "length (area_code ?d) = area_len ?p" using length_area_code [of ?d] wf by simp
  consider "w' = w" "d' = d" "r = Ok () \<longrightarrow> d' = ?d"
    | "r = Ok ()" "d' = ?d" "w' = flush_instruction_cache arch (area_ptr ?p) (area_len ?p)
         (store_code arch (write_bytes (w_mem w) (area_ptr ?p) (area_code ?d)) w)"
    using assms(3) unfolding detour_toggle_wf [OF wf] by (auto split: if_splits option.splits)
  then show ?thesis
  proof cases
    case 1
    then show ?thesis using assms(1,2) by auto
  next
    case 2
    have "w_icache w' = write_bytes (w_icache w) (area_ptr ?p) (area_code ?d)"
      unfolding 2 by (rule icache_after_flush [OF assms(2) len small])
    moreover have "icache_ok arch w'"
      unfolding 2 by (simp add: icache_ok_def flush_instruction_cache_def store_code_def)
    ultimately show ?thesis
      using 2 wf small len by (simp add: area_ok_def in_area_def write_bytes_outside)
  qed
qed

lemma toggled_back:
  fixes w :: "('u::len word, 'p) world"
  assumes "area_ok w d" "icache_ok arch w" "\<not> d_enabled d"
    and "detour_enable arch os d w = (Ok (), d1, w1)" "detour_disable arch os' d1 w1 = (Ok (), d2, w2)"
  shows "d2 = d \<and> w2 = w \<and> d_enabled d1"
proof -
  let ?p = "d_patcher d"
  let ?patched = "\<lambda>bs w. flush_instruction_cache arch (area_ptr ?p) (area_len ?p)
    (store_code arch (write_bytes (w_mem w) (area_ptr ?p) bs) w)"
  have wf: "patcher_wf ?p" and small: "area_len ?p \<le> 2 ^ LENGTH('u)" using assms(1) by (simp_all add: area_ok_def)
  have len: "length (detour_prolog ?p) = area_len ?p" "length (original_prolog ?p) = area_len ?p"
    using wf by (simp_all add: patcher_wf_def)
  have orig: "original_prolog ?p = read_bytes (w_mem w) (area_ptr ?p) (area_len ?p)"
    "original_prolog ?p = read_bytes (w_icache w) (area_ptr ?p) (area_len ?p)"
    using assms(1,3) len by (simp_all add: area_ok_def area_code_def code_at_iff_read)
  have clean: "\<not> w_poisoned w" using assms(4) by (auto simp: detour_enable_def detour_toggle_wf [OF wf])
  have d1: "d1 = d\<lparr>d_enabled := True\<rparr>" "w1 = ?patched (detour_prolog ?p) w"
    using assms(3,4) by (auto simp: detour_enable_def detour_toggle_wf [OF wf] area_code_def
        split: if_splits option.splits)
  have wf1: "patcher_wf (d_patcher (d\<lparr>d_enabled := True\<rparr>))" using wf by simp
  have d2: "d2 = d1\<lparr>d_enabled := False\<rparr>" "w2 = ?patched (original_prolog ?p) w1"
    using assms(5) unfolding d1(1) detour_disable_def detour_toggle_wf [OF wf1]
    by (auto simp: area_code_def split: if_splits option.splits)
  have ok1: "icache_ok arch w1"
    unfolding d1(2) by (simp add: icache_ok_def flush_instruction_cache_def store_code_def)
  have "w_mem w2 = w_mem w" unfolding d2(2) d1(2) using len orig(1) by simp
  moreover have "w_icache w1 = write_bytes (w_icache w) (area_ptr ?p) (detour_prolog ?p)"
    unfolding d1(2) by (rule icache_after_flush [OF assms(2) len(1) small])
  then have "w_icache w2 = w_icache w"
    unfolding d2(2) icache_after_flush [OF ok1 len(2) small] using len orig(2) by simp
  moreover have "w_alloc w2 = w_alloc w" "w_poisoned w2 = w_poisoned w"
    unfolding d2(2) d1(2) by simp_all
  moreover have "d2 = d" using d1 d2 assms(3) by (cases d) simp
  ultimately show ?thesis using d1(1) by simp
qed

text \<open>C15: enabling a fresh detour and disabling it again leaves the world exactly as it was.\<close>

theorem detour_toggle_round_trip:
  fixes w :: "('u::len word, 'p) world"
  assumes "area_ok w d" "icache_ok arch w" "\<not> d_enabled d"
    and "detour_enable arch os d w = (Ok (), d1, w1)" "detour_disable arch os' d1 w1 = (Ok (), d2, w2)"
  shows "d2 = d \<and> w2 = w \<and> d_enabled d1"
  using assms by (rule toggled_back)

section \<open>Dropping\<close>

lemma drop_fields_mem [simp]:
  "w_mem (snd (drop_fields os d w)) = w_mem w"
  "w_icache (snd (drop_fields os d w)) = w_icache w"
  "w_poisoned (snd (drop_fields os d w)) = w_poisoned w"
proof -
  obtain r w1 where 1: "drop_memory os (d_relay d) w = (r, w1)" by fastforce
  obtain r' w2 where 2: "drop_memory os (Some (d_trampoline d)) w1 = (r', w2)" by fastforce
  have "drop_fields os d w = (res_bind r (\<lambda>_. r'), w2)" by (simp add: drop_fields_def 1 2)
  then show "w_mem (snd (drop_fields os d w)) = w_mem w"
    "w_icache (snd (drop_fields os d w)) = w_icache w"
    "w_poisoned (snd (drop_fields os d w)) = w_poisoned w"
    using drop_memory_mem [of os "d_relay d" w] drop_memory_mem [of os "Some (d_trampoline d)" w1] 1 2 by simp_all
qed

text \<open>
  C34: dropping an enabled detour restores the target in debug builds only. The comment announces
  that a drop disables the detour, if enabled; but the call that does so stands inside
  \<^verbatim>\<open>debug_assert!\<close>, so in a release build the target keeps jumping to the detour, past a trampoline
  that has been given back.
\<close>

theorem drop_restores_in_debug_only:
  assumes "area_ok w d" "icache_ok arch w" "detour_drop arch os d w = (Ok (), w')"
  shows "code_at (w_icache w') (area_ptr (d_patcher d))
    (if os_dbg os \<or> \<not> d_enabled d then original_prolog (d_patcher d) else detour_prolog (d_patcher d))"
proof (cases "os_dbg os")
  case False
  then have "w' = snd (drop_fields os d w)" using assms(3) by (simp add: detour_drop_def)
  then show ?thesis using assms(1) False by (auto simp: area_ok_def area_code_def)
next
  case True
  obtain r d1 w1 where t: "detour_toggle arch os False d w = (r, d1, w1)" by (metis prod_cases3)
  have r: "r = Ok ()" and w': "w' = snd (drop_fields os d1 w1)"
    using assms(3) True t by (auto simp: detour_drop_def detour_disable_def split: res.splits)
  then have "area_ok w1 d1" "d1 = d\<lparr>d_enabled := False\<rparr>"
    using detour_toggle_area_ok [OF assms(1,2) t] by auto
  then show ?thesis using w' True by (simp add: area_ok_def area_code_def)
qed

section \<open>Errors, panics and termination\<close>

text \<open>
  C35: a panic inside \<^verbatim>\<open>Detour::new\<close> disables the library: from then on every attempt to create,
  enable or disable a detour panics on the poisoned mutex and changes nothing.
\<close>

theorem new_panic_poisons:
  assumes "detour_new arch os target detour w = Some (Panic, w')" "\<not> w_poisoned w"
  shows "detour_toggle arch os' en d w' = (Panic, d, w')
    \<and> (target' \<noteq> detour' \<longrightarrow> detour_new arch os' target' detour' w' = Some (Panic, w'))"
proof -
  have "w_poisoned w'"
    using assms by (auto simp: detour_new_def poison_cases split: if_splits)
  then show ?thesis by (simp add: detour_toggle_def detour_new_def)
qed

lemma thread_allocate_returns:
  fixes env :: "('u::len word, 'p) alloc_env"
  assumes "query_covers (env_query env)" "0 < env_page env"
    and "unat (saturating_add origin (max_distance al)) + unat (env_page env) \<le> 2 ^ LENGTH('u)"
  shows "\<exists>r. thread_allocate env al origin n = Some r \<and> (\<forall>em al'. r = Ok (em, al') \<longrightarrow> max_distance al' = max_distance al)"
proof -
  obtain r where "allocate_pool env (proximity_range al origin) origin n = Some r"
    using allocate_pool_ok [OF assms(1,2), of "proximity_range al origin" origin n] assms(3)
    by (auto simp: proximity_range_def)
  then show ?thesis
    by (auto simp: thread_allocate_def proximity_allocate_def allocate_memory_def Let_def
        split: res.splits option.splits)
qed

lemma allocate_pic_returns:
  fixes w :: "('u::len word, 'p) world"
  assumes "\<forall>ps. query_covers (os_query os ps)" "0 < os_page os"
    and "unat (saturating_add origin (max_distance (w_alloc w))) + unat (os_page os) \<le> 2 ^ LENGTH('u)"
  shows "\<exists>r w'. allocate_pic arch os e origin w = Some (r, w')
    \<and> (\<forall>em. r = Ok em \<longrightarrow> max_distance (w_alloc w') = max_distance (w_alloc w))"
proof -
  obtain r where r: "thread_allocate (os_env os w) (w_alloc w) origin (emitter_len e) = Some r"
    and dist: "\<forall>em al'. r = Ok (em, al') \<longrightarrow> max_distance al' = max_distance (w_alloc w)"
    using thread_allocate_returns [of "os_env os w" origin "w_alloc w" "emitter_len e"] assms
    by (auto simp: os_env_def)
  obtain r' w' where a: "allocate_pic arch os e origin w = Some (r', w')"
    using r by (auto simp: allocate_pic_def prod_eq_iff)
  then show ?thesis using allocate_pic_cases [OF a] r dist by auto
qed

text \<open>C36: creating a detour returns, whatever state the allocator is in.\<close>

theorem detour_new_returns:
  fixes w :: "('u::len word, 'p) world"
  assumes "\<forall>ps. query_covers (os_query os ps)" "0 < os_page os"
    and "unat (saturating_add target (max_distance (w_alloc w))) + unat (os_page os) \<le> 2 ^ LENGTH('u)"
  shows "\<exists>r w'. detour_new arch os target detour w = Some (r, w')"
proof -
  have finish: "\<exists>rw. detour_finish arch os target detour tramp relay w1 = Some rw"
    if "max_distance (w_alloc w1) = max_distance (w_alloc w)" for tramp relay w1
    using allocate_pic_returns [OF assms(1,2), of target w1 arch "tramp_emitter tramp"] assms(3) that
    by (auto simp: detour_finish_def Let_def split: res.splits)
  have "\<exists>rw. detour_new_locked arch os target detour w = Some rw"
  proof (cases "both_executable os w target detour = Ok True")
    case True
    show ?thesis
    proof (cases "make_trampoline arch (w_mem w) target (prolog_margin arch target)")
      case (Ok tramp)
      show ?thesis
      proof (cases "relay_builder arch target detour")
        case relay: (Ok e)
        show ?thesis
        proof (cases e)
          case None
          then show ?thesis using True Ok relay finish [of w tramp None] by (simp add: detour_new_locked_def)
        next
          case (Some emitter)
          obtain r w1 where "allocate_pic arch os emitter target w = Some (r, w1)"
              "\<forall>em. r = Ok em \<longrightarrow> max_distance (w_alloc w1) = max_distance (w_alloc w)"
            using allocate_pic_returns [OF assms] by blast
          then show ?thesis
            using True Ok relay Some finish [of w1 tramp] by (cases r) (simp_all add: detour_new_locked_def)
        qed
      qed (use True Ok in \<open>simp_all add: detour_new_locked_def\<close>)
    qed (use True in \<open>simp_all add: detour_new_locked_def\<close>)
  next
    case False
    then show ?thesis
      by (cases "both_executable os w target detour") (auto simp: detour_new_locked_def split: bool.splits)
  qed
  then show ?thesis by (auto simp: detour_new_def prod_eq_iff)
qed

end
