(* ===== verification/Detour_Session.thy ===== *)
theory Detour_Session
  imports Detour_Core
begin

text \<open>
  Many detours in one process: the client's operations as a step relation, the invariant that
  the code at every patch area fits the flag of its detour, and the interface between
  \<^verbatim>\<open>src/arch/detour.rs\<close> and the architectures as the locale \<open>detour_backend\<close>.
\<close>

section \<open>What a client does\<close>

text \<open>
  A session is the list of the detours alive and the world. Two things are the client's and the
  allocator's part: patch areas do not overlap (no two detours of one function), and chunks do
  not overlap patch areas.
\<close>

type_synonym ('a, 'p) session = "'a detour list \<times> ('a, 'p) world"

definition areas_apart :: "'u::len word patcher \<Rightarrow> 'u word patcher \<Rightarrow> bool" where
  "areas_apart p q \<longleftrightarrow> (\<forall>x. \<not> (in_area p x \<and> in_area q x))"

definition chunk_apart :: "'u::len word executable_memory \<Rightarrow> 'u word patcher \<Rightarrow> bool" where
  "chunk_apart em p \<longleftrightarrow> (\<forall>x. \<not> (in_chunk em x \<and> in_area p x))"

definition area_spared :: "'u::len word patcher \<Rightarrow> ('u word, 'p) world \<Rightarrow> ('u word, 'p) world \<Rightarrow> bool" where
  "area_spared p w w' \<longleftrightarrow> (\<forall>x. in_area p x \<longrightarrow> w_mem w' x = w_mem w x \<and> w_icache w' x = w_icache w x)"

text \<open>Before it is patched, the instruction side sees the function as it is in memory.\<close>

definition area_fetched :: "'u::len word patcher \<Rightarrow> ('u word, 'p) world \<Rightarrow> bool" where
  "area_fetched p w \<longleftrightarrow> (\<forall>x. in_area p x \<longrightarrow> w_icache w x = w_mem w x)"

text \<open>
  The memory of one detour: its chunks, and its patch area, do not overlap, and the trampoline
  fits into the address space.
\<close>

definition detour_apart :: "'u::len word detour \<Rightarrow> bool" where
  "detour_apart d \<longleftrightarrow> (\<forall>em \<in> set (d_chunks d). chunk_apart em (d_patcher d))
     \<and> (\<forall>em x. d_relay d = Some em \<longrightarrow> \<not> (in_chunk em x \<and> in_chunk (d_trampoline d) x))
     \<and> em_len (d_trampoline d) \<le> 2 ^ LENGTH('u)"

inductive session_step ::
  "('u::len word) architecture \<Rightarrow> ('u word, 'p) session \<Rightarrow> ('u word, 'p) session \<Rightarrow> bool" for arch where
  create: "detour_new arch os target detour w = Some (Ok d, w') \<Longrightarrow>
    area_fetched (d_patcher d) w \<Longrightarrow>
    \<forall>d1 \<in> set ds. areas_apart (d_patcher d1) (d_patcher d) \<Longrightarrow>
    \<forall>d1 \<in> set (d # ds). \<forall>em \<in> set (d_chunks d). chunk_apart em (d_patcher d1) \<Longrightarrow>
    session_step arch (ds, w) (ds @ [d], w')"
| create_fails: "detour_new arch os target detour w = Some (r, w') \<Longrightarrow> \<forall>d. r \<noteq> Ok d \<Longrightarrow>
    \<forall>d1 \<in> set ds. area_spared (d_patcher d1) w w' \<Longrightarrow>
    session_step arch (ds, w) (ds, w')"
| toggle: "i < length ds \<Longrightarrow> detour_toggle arch os en (ds ! i) w = (r, d', w') \<Longrightarrow>
    session_step arch (ds, w) (ds[i := d'], w')"
| close: "i < length ds \<Longrightarrow> os_dbg os \<or> \<not> d_enabled (ds ! i) \<Longrightarrow>
    detour_drop arch os (ds ! i) w = (Ok (), w') \<Longrightarrow>
    session_step arch (ds, w) (take i ds @ drop (Suc i) ds, w')"

inductive session_reach ::
  "('u::len word) architecture \<Rightarrow> ('u word, 'p) world \<Rightarrow> ('u word, 'p) session \<Rightarrow> bool" for arch w0 where
  start: "session_reach arch w0 ([], w0)"
| step: "session_reach arch w0 s \<Longrightarrow> session_step arch s s' \<Longrightarrow> session_reach arch w0 s'"

text \<open>The invariant.\<close>

definition session_inv :: "('u::len word) architecture \<Rightarrow> ('u word, 'p) session \<Rightarrow> bool" where
  "session_inv arch s \<longleftrightarrow> icache_ok arch (snd s) \<and> (\<forall>d \<in> set (fst s). area_ok (snd s) d)
     \<and> (\<forall>i j. i < length (fst s) \<and> j < length (fst s) \<and> i \<noteq> j \<longrightarrow>
          areas_apart (d_patcher (fst s ! i)) (d_patcher (fst s ! j)))"

section \<open>The areas of the other detours\<close>

lemma code_at_cong:
  assumes "length bs \<le> 2 ^ LENGTH('u::len)" "\<And>x :: 'u word. unat (x - a) < length bs \<Longrightarrow> m' x = m x"
  shows "code_at m' a bs = code_at m a bs"
proof -
  have "m' (a + of_nat i) = m (a + of_nat i)" if "i < length bs" for i
    using that assms(1) by (intro assms(2)) (simp add: unat_of_nat_small [of i "length bs"])
  then show ?thesis by (simp add: code_at_iff_nth)
qed

lemma area_ok_spared:
  assumes "area_spared (d_patcher d) w w'"
  shows "area_ok w d \<Longrightarrow> area_ok w' d"
proof -
  assume ok: "area_ok w d"
  then have len: "length (area_code d) = area_len (d_patcher d)"
    by (intro length_area_code) (simp add: area_ok_def)
  then have "code_at (w_mem w') (area_ptr (d_patcher d)) (area_code d)
      = code_at (w_mem w) (area_ptr (d_patcher d)) (area_code d)"
    "code_at (w_icache w') (area_ptr (d_patcher d)) (area_code d)
      = code_at (w_icache w) (area_ptr (d_patcher d)) (area_code d)"
    using ok assms by (intro code_at_cong; simp add: area_ok_def area_spared_def in_area_def)+
  then show ?thesis using ok by (simp add: area_ok_def)
qed

lemma changes_only_spares:
  "changes_only ems w w' \<Longrightarrow> \<forall>em \<in> set ems. chunk_apart em p \<Longrightarrow> area_spared p w w'"
  by (auto simp: changes_only_def chunk_apart_def area_spared_def)

section \<open>The interface of an architecture\<close>

text \<open>
  What a detour expects of its architecture. \<open>runs_to\<close> is the architecture's processor,
  \<open>near\<close> the distances its patch can bridge, \<open>landing\<close> the places a relay can run at.
\<close>

locale detour_backend =
  fixes arch :: "('u::len word) architecture"
    and runs_to :: "'u mem \<Rightarrow> 'u word \<Rightarrow> 'u word \<Rightarrow> bool"
    and near :: "'u word \<Rightarrow> 'u word \<Rightarrow> bool"
    and landing :: "'u word \<Rightarrow> 'u word \<Rightarrow> bool"
  assumes patcher: "patcher_module (make_patcher arch query) runs_to (\<lambda>p. near)"
    and patch_small: "make_patcher arch query m target detour n = Ok p \<Longrightarrow> area_len p \<le> 2 ^ LENGTH('u)"
    and relay_lands: "relay_builder arch target detour = Ok (Some e) \<Longrightarrow> landing base detour \<Longrightarrow>
      emit e base = Ok code \<Longrightarrow> code_at m base code \<Longrightarrow> runs_to m base detour"
    and relay_small: "relay_builder arch target detour = Ok (Some e) \<Longrightarrow> emitter_len e \<le> 2 ^ LENGTH('u)"
    and runs_to_trans: "runs_to m a b \<Longrightarrow> runs_to m b c \<Longrightarrow> runs_to m a c"
begin

lemma patcher_facts:
  assumes "make_patcher arch query m target detour n = Ok p"
  shows "patcher_wf p" "original_prolog p = read_bytes m (area_ptr p) (area_len p)"
  using patcher_module.new_wf [OF patcher assms] patcher_module.new_original [OF patcher assms] .

text \<open>A fresh detour is disabled, and its area is as the patcher found it.\<close>

lemma new_area_ok:
  assumes new: "detour_new arch os target detour w = Some (Ok d, w')" and ok: "icache_ok arch w"
    and fetched: "area_fetched (d_patcher d) w"
    and apart: "\<forall>em \<in> set (d_chunks d). chunk_apart em (d_patcher d)"
  shows "area_ok w' d"
proof (rule detour_new_Ok [OF new])
  fix tramp w1
  assume relay: "d_relay d = None \<and> relay_builder arch target detour = Ok None \<and> w1 = w
     \<or> (\<exists>em emitter. d_relay d = Some em \<and> relay_builder arch target detour = Ok (Some emitter)
          \<and> allocate_pic arch os emitter target w = Some (Ok em, w1))"
    and p: "make_patcher arch (os_query os (pools (w_alloc w1))) (w_mem w1) target (detour_entry d detour)
       (tramp_prolog_size tramp) = Ok (d_patcher d)"
    and tr: "allocate_pic arch os (tramp_emitter tramp) target w1 = Some (Ok (d_trampoline d), w')"
    and dis: "\<not> d_enabled d"
  have 1: "icache_ok arch w1 \<and> area_spared (d_patcher d) w w1"
    using relay
  proof (elim disjE exE conjE)
    fix em emitter
    assume em: "d_relay d = Some em" and al: "allocate_pic arch os emitter target w = Some (Ok em, w1)"
    then have "changes_only [em] w w1" "icache_ok arch w1" using allocate_pic_frame [OF al ok] by auto
    then show ?thesis using apart em by (simp add: changes_only_spares d_chunks_def)
  qed (use ok in \<open>simp_all add: area_spared_def\<close>)
  have "changes_only [d_trampoline d] w1 w'" using allocate_pic_frame [OF tr] 1 by auto
  from changes_only_spares [OF this] have 2: "area_spared (d_patcher d) w1 w'"
    using apart by (auto simp: d_chunks_def split: option.splits)
  note facts = patcher_facts [OF p] and small = patch_small [OF p]
  have "code_at (w_mem w1) (area_ptr (d_patcher d)) (area_code d)"
    using facts(2) dis by (simp add: area_code_def)
  moreover have "code_at (w_icache w1) (area_ptr (d_patcher d)) (area_code d)
      = code_at (w_mem w1) (area_ptr (d_patcher d)) (area_code d)"
    using small length_area_code [OF facts(1)] 1 fetched
    by (intro code_at_cong) (simp_all add: area_spared_def area_fetched_def in_area_def)
  ultimately have "area_ok w1 d" using facts(1) small by (simp add: area_ok_def)
  then show "area_ok w' d" by (rule area_ok_spared [OF 2])
qed

text \<open>Every step keeps the invariant.\<close>

lemma session_step_inv: "session_step arch s s' \<Longrightarrow> session_inv arch s \<Longrightarrow> session_inv arch s'"
proof (induction rule: session_step.induct)
  case (create os target detour w d w' ds)
  have ok: "icache_ok arch w" using create.prems by (simp add: session_inv_def)
  have w': "icache_ok arch w'" "changes_only (d_chunks d) w w'"
    using detour_new_frame [OF create.hyps(1) ok] by auto
  have "area_ok w' d" using create.hyps(4) by (intro new_area_ok [OF create.hyps(1) ok create.hyps(2)]) simp
  moreover have "area_ok w' d1" if "d1 \<in> set ds" for d1
    using that create.prems create.hyps(4)
    by (intro area_ok_spared [OF changes_only_spares [OF w'(2)]]) (simp_all add: session_inv_def)
  ultimately show ?case
    using create.prems create.hyps(3) w'(1)
    by (auto simp: session_inv_def nth_append less_Suc_eq areas_apart_def)
next
  case (create_fails os target detour w r w' ds)
  then show ?case
    using detour_new_frame [OF create_fails.hyps(1)] area_ok_spared
    by (fastforce simp: session_inv_def)
next
  case (toggle i ds os en w r d' w')
  have ok: "icache_ok arch w" "area_ok w (ds ! i)" using toggle by (simp_all add: session_inv_def)
  have p: "d_patcher d' = d_patcher (ds ! i)"
    using detour_toggle_same(1) [of arch os en "ds ! i" w] toggle.hyps(2) by simp
  note t = detour_toggle_area_ok [OF ok(2,1) toggle.hyps(2)]
  have "area_ok w' (ds ! j)" if "j < length ds" "j \<noteq> i" for j
  proof (rule area_ok_spared)
    have "areas_apart (d_patcher (ds ! j)) (d_patcher (ds ! i))"
      using toggle that by (simp add: session_inv_def)
    then show "area_spared (d_patcher (ds ! j)) w w'" using t by (auto simp: area_spared_def areas_apart_def)
    show "area_ok w (ds ! j)" using toggle.prems that by (simp add: session_inv_def)
  qed
  then have "area_ok w' (ds[i := d'] ! j)" if "j < length ds" for j
    using t that by (cases "j = i") auto
  then have "\<forall>d \<in> set (ds[i := d']). area_ok w' d" by (auto simp: in_set_conv_nth)
  moreover have "d_patcher (ds[i := d'] ! j) = d_patcher (ds ! j)" if "j < length ds" for j
    using p that by (cases "j = i") simp_all
  ultimately show ?case
    using toggle.prems t by (simp add: session_inv_def)
next
  case (close i ds os w w')
  have ok: "icache_ok arch w" "area_ok w (ds ! i)" using close by (simp_all add: session_inv_def)
  obtain r d1 w1 where t: "detour_toggle arch os False (ds ! i) w = (r, d1, w1)"
    by (metis prod_cases3)
  note f = detour_toggle_area_ok [OF ok(2,1) t]
  have "w' = snd (drop_fields os d1 w1) \<or> w' = snd (drop_fields os (ds ! i) w)"
    using close.hyps(3) t by (auto simp: detour_drop_def detour_disable_def split: if_splits res.splits prod.splits)
  then have w': "icache_ok arch w'" "area_spared q w w'" if "areas_apart q (d_patcher (ds ! i))" for q
    using f ok that by (auto simp: icache_ok_def area_spared_def areas_apart_def)
  have "icache_ok arch w'"
    using \<open>w' = _ \<or> w' = _\<close> f ok by (auto simp: icache_ok_def)
  moreover have "area_ok w' d" if "d \<in> set (take i ds @ drop (Suc i) ds)" for d
  proof -
    obtain j where j: "j < length ds" "j \<noteq> i" "d = ds ! j"
    proof (cases "d \<in> set (take i ds)")
      case True
      then obtain k where "k < i" "d = ds ! k" by (auto simp: in_set_conv_nth)
      then show thesis using that [of k] close.hyps(1) by simp
    next
      case False
      then obtain k where "k < length ds - Suc i" "d = ds ! (Suc i + k)"
        using \<open>d \<in> _\<close> by (auto simp: in_set_conv_nth)
      then show thesis using that [of "Suc i + k"] by simp
    qed
    then show ?thesis
      using close by (intro area_ok_spared [OF w'(2)]) (simp_all add: session_inv_def)
  qed
  moreover have "areas_apart (d_patcher ((take i ds @ drop (Suc i) ds) ! a)) (d_patcher ((take i ds @ drop (Suc i) ds) ! b))"
    if "a < length ds - 1" "b < length ds - 1" "a \<noteq> b" for a b
  proof -
    define f where "f j = (if j < i then j else Suc j)" for j
    have "(take i ds @ drop (Suc i) ds) ! j = ds ! f j" if "j < length ds - 1" for j
      using that close.hyps(1) by (auto simp: f_def nth_append min_def)
    moreover have "f a < length ds" "f b < length ds" "f a \<noteq> f b"
      using that by (auto simp: f_def)
    ultimately show ?thesis using that close.prems by (simp add: session_inv_def)
  qed
  ultimately show ?case using close.hyps(1) by (simp add: session_inv_def)
qed

lemma session_reach_inv: "session_reach arch w0 s \<Longrightarrow> icache_ok arch w0 \<Longrightarrow> session_inv arch s"
proof (induction rule: session_reach.induct)
  case start
  then show ?case by (simp add: session_inv_def)
next
  case (step s s')
  then show ?case by (blast intro: session_step_inv)
qed

text \<open>A detour that was created and then enabled, on a machine whose two sides agreed before.\<close>

lemma enabled_detour:
  assumes new: "detour_new arch os target detour w = Some (Ok d, w1)"
    and enable: "detour_enable arch os2 d w1 = (Ok (), d2, w2)"
    and synced: "w_icache w = w_mem w" and apart: "detour_apart d"
    and "near target (detour_entry d detour)"
    and "\<And>em. d_relay d = Some em \<Longrightarrow> landing (em_ptr em) detour"
  shows "w_icache w2 = w_mem w2 \<and> runs_to (w_icache w2) target detour
    \<and> (\<exists>tr code. make_trampoline arch (w_mem w) target (prolog_margin arch target) = Ok tr
         \<and> emit (tramp_emitter tr) (em_ptr (d_trampoline d)) = Ok code
         \<and> code_at (w_icache w2) (em_ptr (d_trampoline d)) code)"
proof (rule detour_new_Ok [OF new])
  let ?p = "d_patcher d" and ?t = "d_trampoline d"
  fix tramp w0
  assume tramp: "make_trampoline arch (w_mem w) target (prolog_margin arch target) = Ok tramp"
  assume relay: "d_relay d = None \<and> relay_builder arch target detour = Ok None \<and> w0 = w
     \<or> (\<exists>em emitter. d_relay d = Some em \<and> relay_builder arch target detour = Ok (Some emitter)
          \<and> allocate_pic arch os emitter target w = Some (Ok em, w0))"
    and p: "make_patcher arch (os_query os (pools (w_alloc w0))) (w_mem w0) target (detour_entry d detour)
       (tramp_prolog_size tramp) = Ok ?p"
    and tr: "allocate_pic arch os (tramp_emitter tramp) target w0 = Some (Ok ?t, w1)"
    and dis: "\<not> d_enabled d" and clean: "\<not> w_poisoned w"
  have ok: "icache_ok arch w" using synced by (simp add: icache_ok_def)
  have 0: "w_icache w0 = w_mem w0 \<and> (\<forall>em. d_relay d = Some em \<longrightarrow> (\<exists>e code.
      relay_builder arch target detour = Ok (Some e) \<and> emit e (em_ptr em) = Ok code
      \<and> length code = em_len em \<and> em_len em = emitter_len e \<and> w_mem w0 = write_bytes (w_mem w) (em_ptr em) code))"
    using relay
  proof (elim disjE exE conjE)
    fix em emitter
    assume em: "d_relay d = Some em" "relay_builder arch target detour = Ok (Some emitter)"
      and al: "allocate_pic arch os emitter target w = Some (Ok em, w0)"
    from em show ?thesis using allocate_pic_code [OF al synced] by auto
  qed (use synced in simp_all)
  then obtain code where 1: "w_icache w1 = w_mem w1" "emit (tramp_emitter tramp) (em_ptr ?t) = Ok code"
      "length code = em_len ?t" "em_len ?t = emitter_len (tramp_emitter tramp)"
      "w_mem w1 = write_bytes (w_mem w0) (em_ptr ?t) code"
    using allocate_pic_code [OF tr] by blast
  note wf = patcher_facts(1) [OF p]
  let ?bytes = "detour_prolog ?p"
  have len: "length ?bytes = area_len ?p" using wf by (simp add: patcher_wf_def)
  have w2: "w2 = flush_instruction_cache arch (area_ptr ?p) (area_len ?p)
      (store_code arch (write_bytes (w_mem w1) (area_ptr ?p) ?bytes) w1)"
    using enable dis by (auto simp: detour_enable_def detour_toggle_wf [OF wf] area_code_def
        split: if_splits option.splits)
  have sync2: "w_icache w2 = w_mem w2" by (rule flush_synced [OF 1(1) len w2])
  have mem2: "w_mem w2 = write_bytes (w_mem w1) (area_ptr ?p) ?bytes" unfolding w2 by simp
  have keep: "w_mem w2 x = w_mem w1 x" if "\<not> in_area ?p x" for x
    using that len by (simp add: mem2 in_area_def write_bytes_outside)
  have "w_mem w2 x = w_mem w1 x" if "em \<in> set (d_chunks d)" "in_chunk em x" for em x
    using apart that by (intro keep) (auto simp: detour_apart_def chunk_apart_def)
  then have chunk2: "code_at (w_mem w2) (em_ptr em) bs = code_at (w_mem w1) (em_ptr em) bs"
    if "em \<in> set (d_chunks d)" "length bs = em_len em" "em_len em \<le> 2 ^ LENGTH('u)" for em bs
    using that by (intro code_at_cong) (simp_all add: in_chunk_def)
  have t: "?t \<in> set (d_chunks d)" by (simp add: d_chunks_def split: option.splits)
  have "code_at (w_mem w1) (em_ptr ?t) code"
    unfolding 1(5) using 1(3) apart by (intro code_at_write_bytes) (simp add: detour_apart_def)
  then have placed: "code_at (w_icache w2) (em_ptr ?t) code"
    using chunk2 [OF t 1(3)] apart by (simp add: sync2 detour_apart_def)
  have hop: "runs_to (w_icache w2) target (detour_entry d detour)"
  proof (rule patcher_module.new_reaches [OF patcher p assms(5)])
    show "code_at (w_icache w2) (area_ptr ?p) ?bytes"
      unfolding sync2 mem2 using patch_small [OF p] len by (intro code_at_write_bytes) simp
  qed
  have "runs_to (w_icache w2) target detour"
  proof (cases "d_relay d")
    case None
    then show ?thesis using hop by (simp add: detour_entry_def)
  next
    case (Some em)
    then obtain e rcode where e: "relay_builder arch target detour = Ok (Some e)" "emit e (em_ptr em) = Ok rcode"
        "length rcode = em_len em" "em_len em = emitter_len e" "w_mem w0 = write_bytes (w_mem w) (em_ptr em) rcode"
      using 0 by blast
    note small = relay_small [OF e(1)]
    have "code_at (w_mem w0) (em_ptr em) rcode"
      unfolding e(5) using e(3,4) small by (intro code_at_write_bytes) simp
    moreover have "w_mem w1 x = w_mem w0 x" if "in_chunk em x" for x
    proof -
      have "\<not> in_chunk ?t x" using apart Some that by (auto simp: detour_apart_def)
      then show ?thesis using 1(3) by (simp add: 1(5) in_chunk_def write_bytes_outside)
    qed
    then have "code_at (w_mem w1) (em_ptr em) rcode = code_at (w_mem w0) (em_ptr em) rcode"
      using e(3,4) small by (intro code_at_cong) (simp_all add: in_chunk_def)
    moreover have "em \<in> set (d_chunks d)" using Some by (simp add: d_chunks_def)
    ultimately have "code_at (w_icache w2) (em_ptr em) rcode"
      using chunk2 e(3,4) small by (simp add: sync2)
    then have "runs_to (w_icache w2) (em_ptr em) detour"
      by (rule relay_lands [OF e(1) assms(6) [OF Some] e(2)])
    then show ?thesis using runs_to_trans [OF hop] Some by (simp add: detour_entry_def)
  qed
  then show ?thesis using sync2 placed 1(2) tramp by blast
qed

end

end
