(* ===== verification/Detour_Front.thy ===== *)
theory Detour_Front
  imports Detour_Session
begin

text \<open>
  \<^verbatim>\<open>src/traits.rs\<close>, \<^verbatim>\<open>src/detours/raw.rs\<close> and \<^verbatim>\<open>src/detours/generic.rs\<close>: function pointers as
  the trait \<^verbatim>\<open>Function\<close> sees them, and the two front ends that own a detour directly.
\<close>

section \<open>Function pointers\<close>

text \<open>A function pointer type; \<open>'t\<close> are the types of arguments and results, no ABI is Rust's own.\<close>

record 't fn_type =
  fn_unsafe :: bool
  fn_abi :: "string option"
  fn_args :: "'t list"
  fn_ret :: 't

record ('t, 'a) fn_ptr =
  fp_type :: "'t fn_type"
  fp_addr :: 'a

text \<open>\<^verbatim>\<open>mem::transmute\<close> between an untyped pointer and a function pointer.\<close>

definition from_ptr :: "'t fn_type \<Rightarrow> 'a \<Rightarrow> ('t, 'a) fn_ptr" where
  "from_ptr T ptr = \<lparr>fp_type = T, fp_addr = ptr\<rparr>"

definition to_ptr :: "('t, 'a) fn_ptr \<Rightarrow> 'a" where
  "to_ptr f = fp_addr f"

lemma to_ptr_from_ptr [simp]: "to_ptr (from_ptr T p) = p"
  by (simp add: to_ptr_def from_ptr_def)

lemma from_ptr_to_ptr [simp]: "from_ptr (fp_type f) (to_ptr f) = f"
  by (simp add: to_ptr_def from_ptr_def)

section \<open>Raw detours\<close>

datatype 'a raw_detour = RawDetour (raw_inner: "'a detour")

definition raw_new ::
  "('u::len word) architecture \<Rightarrow> ('u word, 'p) os \<Rightarrow> 'u word \<Rightarrow> 'u word \<Rightarrow> ('u word, 'p) world
     \<Rightarrow> ('u word raw_detour res \<times> ('u word, 'p) world) option" where
  "raw_new arch os target detour w =
     map_option (\<lambda>(r, w). (res_map RawDetour r, w)) (detour_new arch os target detour w)"

definition raw_enable ::
  "('u::len word) architecture \<Rightarrow> ('u word, 'p) os \<Rightarrow> 'u word raw_detour \<Rightarrow> ('u word, 'p) world
     \<Rightarrow> unit res \<times> 'u word raw_detour \<times> ('u word, 'p) world" where
  "raw_enable arch os d w = (let (r, d, w) = detour_enable arch os (raw_inner d) w in (r, RawDetour d, w))"

definition raw_disable ::
  "('u::len word) architecture \<Rightarrow> ('u word, 'p) os \<Rightarrow> 'u word raw_detour \<Rightarrow> ('u word, 'p) world
     \<Rightarrow> unit res \<times> 'u word raw_detour \<times> ('u word, 'p) world" where
  "raw_disable arch os d w = (let (r, d, w) = detour_disable arch os (raw_inner d) w in (r, RawDetour d, w))"

definition raw_is_enabled :: "'u::len word raw_detour \<Rightarrow> bool" where
  "raw_is_enabled d = detour_is_enabled (raw_inner d)"

definition raw_trampoline :: "'u::len word raw_detour \<Rightarrow> 'u word res" where
  "raw_trampoline d = detour_trampoline (raw_inner d)"

section \<open>Generic detours\<close>

text \<open>The phantom type is the type of the target.\<close>

record ('t, 'a) generic_detour =
  gd_phantom :: "'t fn_type"
  gd_detour :: "'a detour"

definition generic_new ::
  "('u::len word) architecture \<Rightarrow> ('u word, 'p) os \<Rightarrow> ('t, 'u word) fn_ptr \<Rightarrow> ('t, 'u word) fn_ptr
     \<Rightarrow> ('u word, 'p) world \<Rightarrow> (('t, 'u word) generic_detour res \<times> ('u word, 'p) world) option" where
  "generic_new arch os target detour w =
     map_option (\<lambda>(r, w). (res_map (\<lambda>d. \<lparr>gd_phantom = fp_type target, gd_detour = d\<rparr>) r, w))
       (detour_new arch os (to_ptr target) (to_ptr detour) w)"

definition generic_enable ::
  "('u::len word) architecture \<Rightarrow> ('u word, 'p) os \<Rightarrow> ('t, 'u word) generic_detour \<Rightarrow> ('u word, 'p) world
     \<Rightarrow> unit res \<times> ('t, 'u word) generic_detour \<times> ('u word, 'p) world" where
  "generic_enable arch os g w =
     (let (r, d, w) = detour_enable arch os (gd_detour g) w in (r, g\<lparr>gd_detour := d\<rparr>, w))"

definition generic_disable ::
  "('u::len word) architecture \<Rightarrow> ('u word, 'p) os \<Rightarrow> ('t, 'u word) generic_detour \<Rightarrow> ('u word, 'p) world
     \<Rightarrow> unit res \<times> ('t, 'u word) generic_detour \<times> ('u word, 'p) world" where
  "generic_disable arch os g w =
     (let (r, d, w) = detour_disable arch os (gd_detour g) w in (r, g\<lparr>gd_detour := d\<rparr>, w))"

definition generic_is_enabled :: "('t, 'u::len word) generic_detour \<Rightarrow> bool" where
  "generic_is_enabled g = detour_is_enabled (gd_detour g)"

definition generic_trampoline :: "('t, 'u::len word) generic_detour \<Rightarrow> 'u word res" where
  "generic_trampoline g = detour_trampoline (gd_detour g)"

text \<open>The function \<^verbatim>\<open>call\<close> passes its arguments to.\<close>

definition generic_call :: "('t, 'u::len word) generic_detour \<Rightarrow> ('t, 'u word) fn_ptr res" where
  "generic_call g = res_map (from_ptr (gd_phantom g)) (generic_trampoline g)"

lemma generic_new_Ok:
  "generic_new arch os target detour w = Some (Ok g, w') \<longleftrightarrow>
     gd_phantom g = fp_type target \<and> detour_new arch os (to_ptr target) (to_ptr detour) w = Some (Ok (gd_detour g), w')"
  by (cases g) (auto simp: generic_new_def)

end
