(* ===== verification/Hookable_Macro.thy ===== *)
theory Hookable_Macro
  imports Detour_Front
begin

text \<open>
  The macro \<^verbatim>\<open>impl_hookable!\<close> of \<^verbatim>\<open>src/macros.rs\<close> and its invocation in \<^verbatim>\<open>src/traits.rs\<close>: the
  trait implementations and methods it generates, and the typing rules that follow from them.
\<close>

section \<open>Generated items\<close>

text \<open>
  An implementation is generic over its type variables, here names; it lists first the variables it
  declares with the bound \<^verbatim>\<open>'static\<close>. \<^verbatim>\<open>Function\<close> has the argument types and the output as
  associated types; a method \<^verbatim>\<open>call\<close> has the parameters of the function, and its result type.
\<close>

datatype impl_item =
    FunctionImpl "string list" "string fn_type" "string list" string
  | HookableImpl "string list" "string fn_type" "string fn_type"
  | StaticCall "string list" bool "string fn_type" "(string \<times> string) list" string
  | GenericCall "string list" bool "string fn_type" "(string \<times> string) list" string

type_synonym params = "(string \<times> string) list"

definition impl_core :: "params \<Rightarrow> string fn_type \<Rightarrow> impl_item list" where
  "impl_core ps fn_type = [FunctionImpl (''Ret'' # map snd ps) fn_type (map snd ps) ''Ret'']"

definition impl_unsafe :: "bool \<Rightarrow> params \<Rightarrow> string fn_type \<Rightarrow> string fn_type \<Rightarrow> impl_item list" where
  "impl_unsafe nightly ps target detour =
     [HookableImpl (''Ret'' # map snd ps) target detour]
     @ (if nightly then [StaticCall (''Ret'' # map snd ps) True target ps ''Ret''] else [])
     @ [GenericCall (''Ret'' # map snd ps) True target ps ''Ret'']"

definition impl_safe :: "bool \<Rightarrow> params \<Rightarrow> string fn_type \<Rightarrow> impl_item list" where
  "impl_safe nightly ps fn_type =
     (if nightly then [StaticCall (''Ret'' # map snd ps) False fn_type ps ''Ret''] else [])
     @ [GenericCall (''Ret'' # map snd ps) False fn_type ps ''Ret'']"

definition impl_fun :: "bool \<Rightarrow> params \<Rightarrow> string fn_type \<Rightarrow> string fn_type \<Rightarrow> impl_item list" where
  "impl_fun nightly ps safe_type unsafe_type =
     impl_core ps safe_type @ impl_core ps unsafe_type
     @ impl_unsafe nightly ps unsafe_type safe_type @ impl_safe nightly ps safe_type"

definition impl_pair :: "bool \<Rightarrow> params \<Rightarrow> string option \<Rightarrow> impl_item list" where
  "impl_pair nightly ps abi =
     (let fn_t = \<lparr>fn_unsafe = False, fn_abi = abi, fn_args = map snd ps, fn_ret = ''Ret''\<rparr> in
      impl_fun nightly ps fn_t (fn_t\<lparr>fn_unsafe := True\<rparr>))"

definition impl_all :: "bool \<Rightarrow> bool \<Rightarrow> params \<Rightarrow> impl_item list" where
  "impl_all x86_64 nightly ps =
     impl_pair nightly ps None
     @ impl_pair nightly ps (Some ''cdecl'')
     @ (if x86_64 then impl_pair nightly ps (Some ''win64'') else [])
     @ impl_pair nightly ps (Some ''C'')
     @ impl_pair nightly ps (Some ''system'')"

fun impl_recurse :: "bool \<Rightarrow> bool \<Rightarrow> params \<Rightarrow> params \<Rightarrow> impl_item list" where
  "impl_recurse x86_64 nightly [] ps = impl_all x86_64 nightly ps"
| "impl_recurse x86_64 nightly (hd_nm # tl_nm) ps =
     impl_all x86_64 nightly ps @ impl_recurse x86_64 nightly tl_nm (ps @ [hd_nm])"

definition impl_hookable :: "bool \<Rightarrow> bool \<Rightarrow> params \<Rightarrow> impl_item list" where
  "impl_hookable x86_64 nightly ps = impl_recurse x86_64 nightly ps []"

definition hookable_params :: params where
  "hookable_params =
    [(''__arg_0'', ''A''), (''__arg_1'', ''B''), (''__arg_2'', ''C''), (''__arg_3'', ''D''), (''__arg_4'', ''E''),
     (''__arg_5'', ''F''), (''__arg_6'', ''G''), (''__arg_7'', ''H''), (''__arg_8'', ''I''), (''__arg_9'', ''J''),
     (''__arg_10'', ''K''), (''__arg_11'', ''L''), (''__arg_12'', ''M''), (''__arg_13'', ''N'')]"

section \<open>Typing\<close>

text \<open>
  An implementation holds for every instance of its type variables whose bounds hold; which types
  outlive \<^verbatim>\<open>'static\<close> is a parameter.
\<close>

definition instance_of :: "(string \<Rightarrow> 't) \<Rightarrow> string fn_type \<Rightarrow> 't fn_type" where
  "instance_of \<sigma> T = \<lparr>fn_unsafe = fn_unsafe T, fn_abi = fn_abi T, fn_args = map \<sigma> (fn_args T), fn_ret = \<sigma> (fn_ret T)\<rparr>"

definition bounds_hold :: "('t \<Rightarrow> bool) \<Rightarrow> string list \<Rightarrow> (string \<Rightarrow> 't) \<Rightarrow> bool" where
  "bounds_hold static bs \<sigma> \<longleftrightarrow> list_all (\<lambda>v. static (\<sigma> v)) bs"

text \<open>\<^verbatim>\<open>T: Function<Arguments = As, Output = R>\<close>.\<close>

primrec implements_function :: "('t \<Rightarrow> bool) \<Rightarrow> 't fn_type \<Rightarrow> 't list \<Rightarrow> 't \<Rightarrow> impl_item \<Rightarrow> bool" where
  "implements_function static T As R (FunctionImpl bs U args output)
     \<longleftrightarrow> (\<exists>\<sigma>. T = instance_of \<sigma> U \<and> bounds_hold static bs \<sigma> \<and> As = map \<sigma> args \<and> R = \<sigma> output)"
| "implements_function static T As R (HookableImpl bs U V) \<longleftrightarrow> False"
| "implements_function static T As R (StaticCall bs u U ps output) \<longleftrightarrow> False"
| "implements_function static T As R (GenericCall bs u U ps output) \<longleftrightarrow> False"

text \<open>\<^verbatim>\<open>T: HookableWith<D>\<close>, by a generated implementation.\<close>

primrec implements_hookable :: "('t \<Rightarrow> bool) \<Rightarrow> 't fn_type \<Rightarrow> 't fn_type \<Rightarrow> impl_item \<Rightarrow> bool" where
  "implements_hookable static T D (FunctionImpl bs U args output) \<longleftrightarrow> False"
| "implements_hookable static T D (HookableImpl bs U V)
     \<longleftrightarrow> (\<exists>\<sigma>. T = instance_of \<sigma> U \<and> bounds_hold static bs \<sigma> \<and> D = instance_of \<sigma> V)"
| "implements_hookable static T D (StaticCall bs u U ps output) \<longleftrightarrow> False"
| "implements_hookable static T D (GenericCall bs u U ps output) \<longleftrightarrow> False"

text \<open>\<^verbatim>\<open>StaticDetour<T>::call\<close> and \<^verbatim>\<open>GenericDetour<T>::call\<close>, with parameters \<^verbatim>\<open>As\<close> and result \<^verbatim>\<open>R\<close>.\<close>

primrec provides_static_call :: "('t \<Rightarrow> bool) \<Rightarrow> bool \<Rightarrow> 't fn_type \<Rightarrow> 't list \<Rightarrow> 't \<Rightarrow> impl_item \<Rightarrow> bool" where
  "provides_static_call static u T As R (FunctionImpl bs U args output) \<longleftrightarrow> False"
| "provides_static_call static u T As R (HookableImpl bs U V) \<longleftrightarrow> False"
| "provides_static_call static u T As R (StaticCall bs u' U ps output)
     \<longleftrightarrow> u' = u \<and> (\<exists>\<sigma>. T = instance_of \<sigma> U \<and> bounds_hold static bs \<sigma> \<and> As = map \<sigma> (map snd ps) \<and> R = \<sigma> output)"
| "provides_static_call static u T As R (GenericCall bs u' U ps output) \<longleftrightarrow> False"

primrec provides_generic_call :: "('t \<Rightarrow> bool) \<Rightarrow> bool \<Rightarrow> 't fn_type \<Rightarrow> 't list \<Rightarrow> 't \<Rightarrow> impl_item \<Rightarrow> bool" where
  "provides_generic_call static u T As R (FunctionImpl bs U args output) \<longleftrightarrow> False"
| "provides_generic_call static u T As R (HookableImpl bs U V) \<longleftrightarrow> False"
| "provides_generic_call static u T As R (StaticCall bs u' U ps output) \<longleftrightarrow> False"
| "provides_generic_call static u T As R (GenericCall bs u' U ps output)
     \<longleftrightarrow> u' = u \<and> (\<exists>\<sigma>. T = instance_of \<sigma> U \<and> bounds_hold static bs \<sigma> \<and> As = map \<sigma> (map snd ps) \<and> R = \<sigma> output)"

definition library_impls :: "bool \<Rightarrow> bool \<Rightarrow> impl_item list" where
  "library_impls x86_64 nightly = impl_hookable x86_64 nightly hookable_params"

definition is_function :: "bool \<Rightarrow> bool \<Rightarrow> ('t \<Rightarrow> bool) \<Rightarrow> 't fn_type \<Rightarrow> bool" where
  "is_function x86_64 nightly static T \<longleftrightarrow>
     (\<exists>As R. list_ex (implements_function static T As R) (library_impls x86_64 nightly))"

text \<open>
  The number of implementations of \<^verbatim>\<open>HookableWith<D>\<close> for \<^verbatim>\<open>T\<close>: the reflexive one of
  \<^verbatim>\<open>src/traits.rs\<close>, \<^verbatim>\<open>impl<T: Function> HookableWith<T> for T\<close>, and the generated ones.
\<close>

definition hookable_impls :: "bool \<Rightarrow> bool \<Rightarrow> ('t \<Rightarrow> bool) \<Rightarrow> 't fn_type \<Rightarrow> 't fn_type \<Rightarrow> nat" where
  "hookable_impls x86_64 nightly static T D =
     (if is_function x86_64 nightly static T \<and> T = D then 1 else 0)
     + length (filter (implements_hookable static T D) (library_impls x86_64 nightly))"

definition supported_abi :: "bool \<Rightarrow> string option \<Rightarrow> bool" where
  "supported_abi x86_64 abi \<longleftrightarrow> abi \<in> {None, Some ''cdecl'', Some ''C'', Some ''system''} \<or> x86_64 \<and> abi = Some ''win64''"

section \<open>The generated implementations\<close>

lemma impl_recurse_prefixes:
  "impl_recurse x n qs ps = concat (map (\<lambda>k. impl_all x n (ps @ take k qs)) [0..<Suc (length qs)])"
proof (induction qs arbitrary: ps)
  case (Cons q qs)
  have "[0..<Suc (length (q # qs))] = 0 # map Suc [0..<Suc (length qs)]"
    by (simp add: map_Suc_upt upt_conv_Cons del: upt_Suc)
  then show ?case using Cons by (simp add: o_def del: upt_Suc)
qed simp

lemma library_impls_prefixes:
  "library_impls x n = concat (map (\<lambda>k. impl_all x n (take k hookable_params)) [0..<15])"
proof -
  have "Suc (length hookable_params) = 15" by (simp add: hookable_params_def)
  then show ?thesis
    by (simp only: library_impls_def impl_hookable_def impl_recurse_prefixes append_Nil)
qed

lemma take_params:
  assumes "k \<le> 14"
  shows "length (take k hookable_params) = k" "distinct (''Ret'' # map snd (take k hookable_params))"
proof -
  show "length (take k hookable_params) = k" using assms by (simp add: hookable_params_def)
  have "distinct (''Ret'' # map snd hookable_params)" by (simp add: hookable_params_def)
  then show "distinct (''Ret'' # map snd (take k hookable_params))"
    by (auto simp: take_map [symmetric] dest: in_set_takeD)
qed

text \<open>Type variables are distinct: the instances of a header are all types of its shape.\<close>

lemma instance_iff:
  assumes "distinct (''Ret'' # map snd ps)"
  shows "(\<exists>\<sigma>. T = instance_of \<sigma> \<lparr>fn_unsafe = u, fn_abi = abi, fn_args = map snd ps, fn_ret = ''Ret''\<rparr>)
    \<longleftrightarrow> fn_unsafe T = u \<and> fn_abi T = abi \<and> length (fn_args T) = length ps"
proof
  assume shape: "fn_unsafe T = u \<and> fn_abi T = abi \<and> length (fn_args T) = length ps"
  let ?\<sigma> = "the \<circ> (map_of (zip (map snd ps) (fn_args T)))(''Ret'' \<mapsto> fn_ret T)"
  have "map (the \<circ> map_of (zip (map snd ps) (fn_args T))) (map snd ps) = fn_args T"
  proof (intro nth_equalityI)
    fix i assume "i < length (map (the \<circ> map_of (zip (map snd ps) (fn_args T))) (map snd ps))"
    then have "map_of (zip (map snd ps) (fn_args T)) (map snd ps ! i) = Some (fn_args T ! i)"
      using assms shape by (intro map_of_zip_nth) simp_all
    then show "map (the \<circ> map_of (zip (map snd ps) (fn_args T))) (map snd ps) ! i = fn_args T ! i"
      using \<open>i < _\<close> by simp
  qed (use shape in simp)
  moreover have "map ?\<sigma> (map snd ps) = map (the \<circ> map_of (zip (map snd ps) (fn_args T))) (map snd ps)"
    using assms by (intro map_cong refl) (auto simp: image_iff)
  ultimately have "T = instance_of ?\<sigma> \<lparr>fn_unsafe = u, fn_abi = abi, fn_args = map snd ps, fn_ret = ''Ret''\<rparr>"
    using shape by (simp add: instance_of_def)
  then show "\<exists>\<sigma>. T = instance_of \<sigma> \<lparr>fn_unsafe = u, fn_abi = abi, fn_args = map snd ps, fn_ret = ''Ret''\<rparr>"
    by (rule exI [of _ ?\<sigma>])
qed (auto simp: instance_of_def)

abbreviation header :: "bool \<Rightarrow> string option \<Rightarrow> params \<Rightarrow> string fn_type" where
  "header u abi ps \<equiv> \<lparr>fn_unsafe = u, fn_abi = abi, fn_args = map snd ps, fn_ret = ''Ret''\<rparr>"

text \<open>The function types whose arguments and result are all \<^verbatim>\<open>'static\<close>.\<close>

definition static_type :: "('t \<Rightarrow> bool) \<Rightarrow> 't fn_type \<Rightarrow> bool" where
  "static_type static T \<longleftrightarrow> list_all static (fn_args T) \<and> static (fn_ret T)"

lemma bounded_instance_iff:
  assumes "distinct (''Ret'' # map snd ps)"
  shows "(\<exists>\<sigma>. T = instance_of \<sigma> (header u abi ps) \<and> bounds_hold static (''Ret'' # map snd ps) \<sigma>
        \<and> As = map \<sigma> (map snd ps) \<and> R = \<sigma> ''Ret'')
    \<longleftrightarrow> fn_unsafe T = u \<and> fn_abi T = abi \<and> length (fn_args T) = length ps \<and> static_type static T
        \<and> As = fn_args T \<and> R = fn_ret T" (is "?lhs \<longleftrightarrow> ?rhs")
proof
  assume ?lhs
  then show ?rhs
    by (auto simp: instance_of_def bounds_hold_def static_type_def list_all_iff)
next
  assume ?rhs
  then obtain \<sigma> where "T = instance_of \<sigma> (header u abi ps)" using instance_iff [OF assms, of T u abi] by auto
  with \<open>?rhs\<close> show ?lhs
    by (intro exI [of _ \<sigma>]) (auto simp: instance_of_def bounds_hold_def static_type_def list_all_iff)
qed

lemma hookable_instance_iff:
  assumes "distinct (''Ret'' # map snd ps)"
  shows "(\<exists>\<sigma>. T = instance_of \<sigma> (header True abi ps) \<and> bounds_hold static (''Ret'' # map snd ps) \<sigma>
        \<and> D = instance_of \<sigma> (header False abi ps))
    \<longleftrightarrow> fn_unsafe T \<and> fn_abi T = abi \<and> length (fn_args T) = length ps \<and> static_type static T
        \<and> D = T\<lparr>fn_unsafe := False\<rparr>" (is "?lhs \<longleftrightarrow> ?rhs")
proof -
  have safe: "instance_of \<sigma> (header False abi ps) = (instance_of \<sigma> (header True abi ps))\<lparr>fn_unsafe := False\<rparr>"
    for \<sigma> :: "string \<Rightarrow> 'a"
    by (simp add: instance_of_def)
  have "?lhs \<longleftrightarrow> (\<exists>As R. \<exists>\<sigma>. T = instance_of \<sigma> (header True abi ps)
      \<and> bounds_hold static (''Ret'' # map snd ps) \<sigma> \<and> As = map \<sigma> (map snd ps) \<and> R = \<sigma> ''Ret'')
      \<and> D = T\<lparr>fn_unsafe := False\<rparr>"
    unfolding safe by blast
  then show ?thesis unfolding bounded_instance_iff [OF assms] by auto
qed

lemmas generated_items = impl_pair_def impl_fun_def impl_core_def impl_unsafe_def impl_safe_def Let_def

lemma implements_pair:
  assumes "distinct (''Ret'' # map snd ps)"
  shows "length (filter (implements_function static T As R) (impl_pair n ps abi))
      = (if fn_abi T = abi \<and> static_type static T \<and> As = fn_args T \<and> R = fn_ret T \<and> length (fn_args T) = length ps
         then 1 else 0)"
  by (cases "fn_unsafe T") (simp_all add: generated_items bounded_instance_iff [OF assms] del: map_map)

lemma static_calls_pair:
  assumes "distinct (''Ret'' # map snd ps)"
  shows "length (filter (provides_static_call static u T As R) (impl_pair n ps abi))
      = (if fn_abi T = abi \<and> static_type static T \<and> As = fn_args T \<and> R = fn_ret T
            \<and> n \<and> fn_unsafe T = u \<and> length (fn_args T) = length ps
         then 1 else 0)"
  by (cases u) (simp_all add: generated_items bounded_instance_iff [OF assms] del: map_map)

lemma generic_calls_pair:
  assumes "distinct (''Ret'' # map snd ps)"
  shows "length (filter (provides_generic_call static u T As R) (impl_pair n ps abi))
      = (if fn_abi T = abi \<and> static_type static T \<and> As = fn_args T \<and> R = fn_ret T
            \<and> fn_unsafe T = u \<and> length (fn_args T) = length ps
         then 1 else 0)"
  by (cases u) (simp_all add: generated_items bounded_instance_iff [OF assms] del: map_map)

lemma hookable_pair:
  assumes "distinct (''Ret'' # map snd ps)"
  shows "length (filter (implements_hookable static T D) (impl_pair n ps abi))
      = (if fn_abi T = abi \<and> static_type static T \<and> fn_unsafe T
            \<and> D = T\<lparr>fn_unsafe := False\<rparr> \<and> length (fn_args T) = length ps
         then 1 else 0)"
  using hookable_instance_iff [OF assms, of T abi static D]
  by (simp add: generated_items)

lemma sum_indicator: "sum_list (map (\<lambda>k. if c \<and> l = k then 1 else 0 :: nat) [0..<m]) = (if c \<and> l < m then 1 else 0)"
  by (induction m) auto

text \<open>Each header occurs once for its calling convention, and at one arity.\<close>

lemma count_all:
  assumes "\<And>abi. length (filter P (impl_pair n ps abi)) = (if fn_abi T = abi \<and> c then 1 else 0)"
  shows "length (filter P (impl_all x n ps)) = (if supported_abi x (fn_abi T) \<and> c then 1 else 0)"
  by (cases x) (auto simp: impl_all_def assms supported_abi_def)

lemma count_library:
  assumes pair: "\<And>ps abi. distinct (''Ret'' # map snd ps) \<Longrightarrow>
      length (filter P (impl_pair n ps abi)) = (if fn_abi T = abi \<and> c \<and> length (fn_args T) = length ps then 1 else 0)"
  shows "length (filter P (library_impls x n))
      = (if (supported_abi x (fn_abi T) \<and> c) \<and> length (fn_args T) < 15 then 1 else 0)"
proof -
  have all: "length (filter P (impl_all x n (take k hookable_params)))
      = (if (supported_abi x (fn_abi T) \<and> c) \<and> length (fn_args T) = k then 1 else 0)" if "k \<le> 14" for k
    using count_all [OF pair [OF take_params(2) [OF that]]] take_params(1) [OF that] by simp
  have "length (filter P (library_impls x n))
      = sum_list (map (\<lambda>k. length (filter P (impl_all x n (take k hookable_params)))) [0..<15])"
    by (simp add: library_impls_prefixes filter_concat length_concat o_def del: upt_Suc)
  also have "\<dots> = sum_list (map (\<lambda>k. if (supported_abi x (fn_abi T) \<and> c) \<and> length (fn_args T) = k then 1 else 0) [0..<15])"
    by (intro arg_cong [of _ _ sum_list] map_cong refl all) simp
  finally show ?thesis unfolding sum_indicator .
qed

lemma function_count:
  "length (filter (implements_function static T As R) (library_impls x n))
     = (if (supported_abi x (fn_abi T) \<and> static_type static T \<and> As = fn_args T \<and> R = fn_ret T)
          \<and> length (fn_args T) < 15 then 1 else 0)"
  by (rule count_library) (simp only: implements_pair conj_assoc)

lemma static_call_count:
  "length (filter (provides_static_call static u T As R) (library_impls x n))
     = (if (supported_abi x (fn_abi T) \<and> static_type static T \<and> As = fn_args T \<and> R = fn_ret T \<and> n \<and> fn_unsafe T = u)
          \<and> length (fn_args T) < 15 then 1 else 0)"
  by (rule count_library) (simp only: static_calls_pair conj_assoc)

lemma generic_call_count:
  "length (filter (provides_generic_call static u T As R) (library_impls x n))
     = (if (supported_abi x (fn_abi T) \<and> static_type static T \<and> As = fn_args T \<and> R = fn_ret T \<and> fn_unsafe T = u)
          \<and> length (fn_args T) < 15 then 1 else 0)"
  by (rule count_library) (simp only: generic_calls_pair conj_assoc)

lemma hookable_count:
  "length (filter (implements_hookable static T D) (library_impls x n))
     = (if (supported_abi x (fn_abi T) \<and> static_type static T \<and> fn_unsafe T \<and> D = T\<lparr>fn_unsafe := False\<rparr>)
          \<and> length (fn_args T) < 15 then 1 else 0)"
  by (rule count_library) (simp only: hookable_pair conj_assoc)

lemma list_ex_count: "list_ex P xs \<longleftrightarrow> length (filter P xs) \<noteq> 0"
  by (simp add: list_ex_iff filter_empty_conv)

lemma is_function_iff:
  "is_function x n static T \<longleftrightarrow> supported_abi x (fn_abi T) \<and> length (fn_args T) \<le> 14 \<and> static_type static T"
  unfolding is_function_def list_ex_count function_count by auto

lemma unsafe_type_differs: "fn_unsafe T \<Longrightarrow> T \<noteq> T\<lparr>fn_unsafe := False\<rparr>"
  by (cases T) simp

lemma safe_type_same: "\<not> fn_unsafe T \<Longrightarrow> T\<lparr>fn_unsafe := False\<rparr> = T"
  by (cases T) simp

lemma hookable_impls_count:
  "hookable_impls x n static T D
     = (if is_function x n static T \<and> (D = T \<or> D = T\<lparr>fn_unsafe := False\<rparr>) then 1 else 0)"
  using unsafe_type_differs [of T] safe_type_same [of T]
  unfolding hookable_impls_def hookable_count is_function_iff by auto

text \<open>
  C18: the types the macro makes \<^verbatim>\<open>Function\<close>s are those with a supported calling convention, at most
  fourteen arguments, and only \<^verbatim>\<open>'static\<close> argument and result types. Every one of them has one
  implementation of \<^verbatim>\<open>Function\<close>, whose \<^verbatim>\<open>Arguments\<close> and \<^verbatim>\<open>Output\<close> are its own; every other
  type has none. A detour fits a target exactly if it has the target's type, or that type without
  \<^verbatim>\<open>unsafe\<close>, and then by one implementation of \<^verbatim>\<open>HookableWith\<close>, the reflexive one of the traits
  counted. Every such type has one method \<^verbatim>\<open>GenericDetour::call\<close>, and on nightly one
  \<^verbatim>\<open>StaticDetour::call\<close>, with the parameters and the result of the function, unsafe if and only if
  the function is: no two of the generated items overlap.
\<close>

theorem hookable_types:
  "(is_function x86_64 nightly static T
      \<longleftrightarrow> supported_abi x86_64 (fn_abi T) \<and> length (fn_args T) \<le> 14 \<and> list_all static (fn_args T) \<and> static (fn_ret T))
    \<and> length (filter (implements_function static T As R) (library_impls x86_64 nightly))
        = (if is_function x86_64 nightly static T \<and> As = fn_args T \<and> R = fn_ret T then 1 else 0)
    \<and> hookable_impls x86_64 nightly static T D
        = (if is_function x86_64 nightly static T \<and> (D = T \<or> D = T\<lparr>fn_unsafe := False\<rparr>) then 1 else 0)
    \<and> length (filter (provides_generic_call static u T As R) (library_impls x86_64 nightly))
        = (if is_function x86_64 nightly static T \<and> As = fn_args T \<and> R = fn_ret T \<and> fn_unsafe T = u then 1 else 0)
    \<and> length (filter (provides_static_call static u T As R) (library_impls x86_64 nightly))
        = (if is_function x86_64 nightly static T \<and> As = fn_args T \<and> R = fn_ret T \<and> fn_unsafe T = u \<and> nightly
           then 1 else 0)"
  unfolding hookable_impls_count function_count generic_call_count static_call_count is_function_iff
  by (auto simp: static_type_def)

end
