(* ===== verification/Detour_Example.thy ===== *)
theory Detour_Example
  imports Detour_Session
begin

text \<open>
  A concrete run of \<^verbatim>\<open>Detour::new\<close> and \<^verbatim>\<open>enable\<close>, shared by the examples of the next theories:
  a process with executable memory below 0x500000 and free memory above, and a detour that
  needs no relay. Its trampoline ends up at 0x500000.
\<close>

type_synonym 'a bump_world = "('a, 'a \<times> nat \<times> nat) world"
type_synonym 'a bump_allocator = "('a, 'a \<times> nat \<times> nat) proximity_allocator"

definition demo_os :: "('u::len word, 'u word \<times> nat \<times> nat) os" where
  "demo_os = \<lparr>os_dbg = True, os_query = (\<lambda>_. demo_query), os_page = 0x1000,
     os_protect = (\<lambda>_ _. None), os_ops = bump_ops\<rparr>"

definition demo_world :: "('u::len word) architecture \<Rightarrow> 'u mem \<Rightarrow> 'u word bump_world" where
  "demo_world arch m = \<lparr>w_mem = m, w_icache = m, w_alloc = initial_pool arch, w_poisoned = False\<rparr>"

text \<open>The world after the trampoline \<open>code\<close> was placed, and after the patch was applied.\<close>

definition demo_created :: "('u::len word) architecture \<Rightarrow> 'u mem \<Rightarrow> u8 list \<Rightarrow> 'u word bump_world" where
  "demo_created arch m code = flush_instruction_cache arch 0x500000 (length code)
     (store_code arch (write_bytes m 0x500000 code) ((demo_world arch m)\<lparr>w_alloc :=
        \<lparr>max_distance = word_of_int (detour_range arch), pools = [(0x500000, length code, length code)]\<rparr>\<rparr>))"

definition demo_detour :: "'u::len word patcher \<Rightarrow> u8 list \<Rightarrow> 'u word detour" where
  "demo_detour p code = \<lparr>d_relay = None, d_trampoline = \<lparr>em_ptr = 0x500000, em_len = length code\<rparr>,
     d_patcher = p, d_enabled = False\<rparr>"

definition demo_enabled :: "('u::len word) architecture \<Rightarrow> 'u word patcher \<Rightarrow> 'u word bump_world \<Rightarrow> 'u word bump_world" where
  "demo_enabled arch p w = flush_instruction_cache arch (area_ptr p) (area_len p)
     (store_code arch (write_bytes (w_mem w) (area_ptr p) (detour_prolog p)) w)"

lemma demo_world_simps [simp]:
  "w_mem (demo_world arch m) = m" "w_icache (demo_world arch m) = m" "\<not> w_poisoned (demo_world arch m)"
  "w_mem (demo_created arch m code) = write_bytes m 0x500000 code" "\<not> w_poisoned (demo_created arch m code)"
  by (simp_all add: demo_world_def demo_created_def)

lemma demo_new_allocated:
  fixes arch :: "('u::len word) architecture"
  assumes "make_trampoline arch m target (prolog_margin arch target) = Ok tr"
    and "relay_builder arch target detour = Ok None"
    and "make_patcher arch demo_query m target detour (tramp_prolog_size tr) = Ok p"
    and "emit (tramp_emitter tr) 0x500000 = Ok code"
    and "target \<noteq> detour" "target < 0x500000" "detour < 0x500000"
    and allocated: "thread_allocate demo_env (thread_allocator_new (word_of_int (detour_range arch))) target (length code)
      = Some (Ok (\<lparr>em_ptr = 0x500000, em_len = length code\<rparr>,
          \<lparr>max_distance = word_of_int (detour_range arch), pools = [(0x500000, length code, length code)]\<rparr>))"
  shows "detour_new arch demo_os target detour (demo_world arch m) = Some (Ok (demo_detour p code), demo_created arch m code)"
proof -
  have len: "emitter_len (tramp_emitter tr) = length code" using length_emit [OF assms(4)] by simp
  have env: "os_env demo_os (demo_world arch m) = demo_env"
    by (simp add: os_env_def demo_os_def demo_env_def)
  have "thread_allocate (os_env demo_os (demo_world arch m)) (w_alloc (demo_world arch m)) target (length code)
    = Some (Ok (\<lparr>em_ptr = 0x500000, em_len = length code\<rparr>,
        \<lparr>max_distance = word_of_int (detour_range arch), pools = [(0x500000, length code, length code)]\<rparr>))"
    unfolding env using allocated by (simp add: demo_world_def initial_pool_def)
  then have pic: "allocate_pic arch demo_os (tramp_emitter tr) target (demo_world arch m)
    = Some (Ok \<lparr>em_ptr = 0x500000, em_len = length code\<rparr>, demo_created arch m code)"
    using assms(4) by (simp add: allocate_pic_def len Let_def copy_from_slice_def demo_created_def)
  have exec: "both_executable demo_os (demo_world arch m) target detour = Ok True"
    using assms(6,7) by (simp add: both_executable_def demo_os_def is_executable_address_def demo_query_def)
  have q: "os_query demo_os ps = demo_query" for ps :: "('u word \<times> nat \<times> nat) list" by (simp add: demo_os_def)
  have "detour_new_locked arch demo_os target detour (demo_world arch m) = Some (Ok (demo_detour p code), demo_created arch m code)"
    using assms(1-3) pic exec
    by (simp add: detour_new_locked_def detour_finish_def Let_def q demo_detour_def)
  then show ?thesis using assms(5) by (simp add: detour_new_def poison_def)
qed

lemma demo_new:
  fixes target :: u64
  assumes "make_trampoline arch m target (prolog_margin arch target) = Ok tr"
    and "relay_builder arch target detour = Ok None"
    and "make_patcher arch demo_query m target detour (tramp_prolog_size tr) = Ok p"
    and "emit (tramp_emitter tr) 0x500000 = Ok code" "length code < 0x1000"
    and "target \<noteq> detour" "0 < target" "target < 0x500000" "detour < 0x500000"
    and "in_range (proximity_range (thread_allocator_new (word_of_int (detour_range arch)) :: u64 bump_allocator) target) target"
    and "in_range (proximity_range (thread_allocator_new (word_of_int (detour_range arch)) :: u64 bump_allocator) target) 0x500000"
  shows "detour_new arch demo_os target detour (demo_world arch m) = Some (Ok (demo_detour p code), demo_created arch m code)"
  by (rule demo_new_allocated [OF assms(1-4,6,8,9) demo_allocate [OF assms(7,8,5,10,11)]])

lemma demo_new_32:
  fixes target :: u32
  assumes "make_trampoline arch m target (prolog_margin arch target) = Ok tr"
    and "relay_builder arch target detour = Ok None"
    and "make_patcher arch demo_query m target detour (tramp_prolog_size tr) = Ok p"
    and "emit (tramp_emitter tr) 0x500000 = Ok code" "length code < 0x1000"
    and "target \<noteq> detour" "0 < target" "target < 0x500000" "detour < 0x500000"
    and "in_range (proximity_range (thread_allocator_new (word_of_int (detour_range arch)) :: u32 bump_allocator) target) target"
    and "in_range (proximity_range (thread_allocator_new (word_of_int (detour_range arch)) :: u32 bump_allocator) target) 0x500000"
  shows "detour_new arch demo_os target detour (demo_world arch m) = Some (Ok (demo_detour p code), demo_created arch m code)"
  by (rule demo_new_allocated [OF assms(1-4,6,8,9) demo_allocate_32 [OF assms(7,8,5,10,11)]])

lemma demo_enable:
  assumes "patcher_wf p"
  shows "detour_enable arch demo_os (demo_detour p code) (demo_created arch m code)
    = (Ok (), (demo_detour p code)\<lparr>d_enabled := True\<rparr>, demo_enabled arch p (demo_created arch m code))"
proof -
  have "patcher_wf (d_patcher (demo_detour p code))" using assms by (simp add: demo_detour_def)
  then show ?thesis
    by (simp add: detour_enable_def detour_toggle_wf) (simp add: demo_detour_def demo_enabled_def area_code_def demo_os_def)
qed

lemma ranges_apart:
  fixes a b :: "'u::len word"
  assumes "la \<le> unat (b - a)" "unat (b - a) + lb \<le> 2 ^ LENGTH('u)"
  shows "\<not> (unat (x - b) < lb \<and> unat (x - a) < la)"
proof
  assume x: "unat (x - b) < lb \<and> unat (x - a) < la"
  have "x - a = (x - b) + (b - a)" by simp
  moreover have "unat ((x - b) + (b - a)) = unat (x - b) + unat (b - a)"
    using x assms(2) by (intro unat_add_lem [THEN iffD1]) simp
  ultimately show False using x assms(1) by simp
qed

text \<open>A patch area below the trampoline.\<close>

lemma demo_apart_below:
  fixes p :: "'u::len word patcher"
  assumes "area_len p + unat (area_ptr p) \<le> unat (0x500000 :: 'u word)"
    and "unat (0x500000 :: 'u word) + length code \<le> 2 ^ LENGTH('u)"
  shows "detour_apart (demo_detour p code)"
proof -
  have "unat (0x500000 - area_ptr p) = unat (0x500000 :: 'u word) - unat (area_ptr p)"
    using assms(1) by (intro unat_sub) (simp add: word_le_nat_alt)
  then have "\<not> (unat (x - 0x500000) < length code \<and> unat (x - area_ptr p) < area_len p)" for x
    using assms by (intro ranges_apart) simp_all
  then show ?thesis
    using assms by (auto simp: detour_apart_def d_chunks_def demo_detour_def chunk_apart_def in_chunk_def in_area_def)
qed

lemma demo_apart:
  fixes p :: "u64 patcher"
  assumes "area_len p \<le> 0x1000" "area_ptr p < 0x4FF000" "length code < 0x1000"
  shows "detour_apart (demo_detour p code)"
  using assms by (intro demo_apart_below) (simp_all add: word_less_nat_alt)

lemma demo_apart_32:
  fixes p :: "u32 patcher"
  assumes "area_len p \<le> 0x1000" "area_ptr p < 0x4FF000" "length code < 0x1000"
  shows "detour_apart (demo_detour p code)"
  using assms by (intro demo_apart_below) (simp_all add: word_less_nat_alt)

section \<open>A process that already has a pool\<close>

text \<open>
  Both sides of the processor see the same memory, and of the 0x1000 bytes of executable memory
  at 0x500000 the first \<open>used\<close> are handed out. Several detours fit into it.
\<close>

definition pooled_world :: "u64 architecture \<Rightarrow> 64 mem \<Rightarrow> nat \<Rightarrow> u64 bump_world" where
  "pooled_world arch m used = \<lparr>w_mem = m, w_icache = m, w_alloc =
     \<lparr>max_distance = word_of_int (detour_range arch), pools = [(0x500000, 0x1000, used)]\<rparr>, w_poisoned = False\<rparr>"

lemma pooled_world_simps [simp]:
  "w_mem (pooled_world arch m used) = m" "w_icache (pooled_world arch m used) = m"
  "\<not> w_poisoned (pooled_world arch m used)"
  by (simp_all add: pooled_world_def)

lemma pooled_write:
  assumes "length code = n"
  shows "flush_instruction_cache arch a n (store_code arch (write_bytes m a code) (pooled_world arch m used))
    = pooled_world arch (write_bytes m a code) used"
proof -
  let ?w = "flush_instruction_cache arch a n (store_code arch (write_bytes m a code) (pooled_world arch m used))"
  have "w_icache ?w = w_mem ?w"
    using flush_synced [of "pooled_world arch m used" code n ?w arch a] assms by simp
  then show ?thesis by (simp add: pooled_world_def flush_instruction_cache_def store_code_def)
qed

definition pooled_detour :: "u64 patcher \<Rightarrow> u64 \<Rightarrow> u8 list \<Rightarrow> u64 detour" where
  "pooled_detour p a code = \<lparr>d_relay = None, d_trampoline = \<lparr>em_ptr = a, em_len = length code\<rparr>, d_patcher = p, d_enabled = False\<rparr>"

lemma pooled_new:
  fixes target :: u64
  assumes tr: "make_trampoline arch m target (prolog_margin arch target) = Ok tr"
    and relay: "relay_builder arch target detour = Ok None"
    and p: "make_patcher arch demo_query m target detour (tramp_prolog_size tr) = Ok p"
    and code: "emit (tramp_emitter tr) a = Ok code" "a = 0x500000 + of_nat used" "used + length code \<le> 0x1000"
    and ne: "target \<noteq> detour" "target < 0x500000" "detour < 0x500000"
    and range: "in_range (proximity_range (thread_allocator_new (word_of_int (detour_range arch)) :: u64 bump_allocator) target) 0x500000"
      "in_range (proximity_range (thread_allocator_new (word_of_int (detour_range arch)) :: u64 bump_allocator) target) 0x500FFF"
  shows "detour_new arch demo_os target detour (pooled_world arch m used)
    = Some (Ok (pooled_detour p a code), pooled_world arch (write_bytes m a code) (used + length code))"
proof -
  let ?w = "pooled_world arch m used"
  have len: "emitter_len (tramp_emitter tr) = length code" using length_emit [OF code(1)] by simp
  have "thread_allocate (os_env demo_os ?w) (w_alloc ?w) target (length code)
    = Some (Ok (\<lparr>em_ptr = a, em_len = length code\<rparr>, w_alloc (pooled_world arch m (used + length code))))"
    using code(2,3) range
    by (simp add: thread_allocate_def proximity_allocate_def allocate_memory_def os_env_def demo_os_def pooled_world_def
        is_pool_in_range_def bump_ops_def proximity_range_def thread_allocator_new_def Let_def)
  then have "allocate_pic arch demo_os (tramp_emitter tr) target ?w
    = Some (Ok \<lparr>em_ptr = a, em_len = length code\<rparr>, pooled_world arch (write_bytes m a code) (used + length code))"
    using code(1) pooled_write [of code "length code" arch a m "used + length code"]
    by (simp add: allocate_pic_def len Let_def copy_from_slice_def) (simp add: pooled_world_def)
  moreover have "both_executable demo_os ?w target detour = Ok True"
    using ne by (simp add: both_executable_def demo_os_def is_executable_address_def demo_query_def)
  moreover have "os_query demo_os ps = demo_query" for ps :: "(u64 \<times> nat \<times> nat) list" by (simp add: demo_os_def)
  ultimately have "detour_new_locked arch demo_os target detour ?w
    = Some (Ok (pooled_detour p a code), pooled_world arch (write_bytes m a code) (used + length code))"
    using tr relay p by (simp add: detour_new_locked_def detour_finish_def Let_def pooled_detour_def)
  then show ?thesis using ne(1) by (simp add: detour_new_def poison_def)
qed

lemma pooled_toggle:
  assumes "patcher_wf (d_patcher d)" "d_enabled d \<noteq> en"
  shows "detour_toggle arch demo_os en d (pooled_world arch m used) = (Ok (), d\<lparr>d_enabled := en\<rparr>,
    pooled_world arch (write_bytes m (area_ptr (d_patcher d)) (area_code (d\<lparr>d_enabled := en\<rparr>))) used)"
proof -
  have "length (area_code (d\<lparr>d_enabled := en\<rparr>)) = area_len (d_patcher d)"
    using assms(1) length_area_code [of "d\<lparr>d_enabled := en\<rparr>"] by simp
  from pooled_write [OF this, of arch "area_ptr (d_patcher d)" m used] show ?thesis
    using assms by (simp add: detour_toggle_wf) (simp add: demo_os_def)
qed

lemma pooled_drop:
  assumes "patcher_wf (d_patcher d)" "d_enabled d" "d_relay d = None"
    and "0x500000 \<le> em_ptr (d_trampoline d)" "em_ptr (d_trampoline d) < 0x501000"
  shows "detour_drop arch demo_os d (pooled_world arch m used)
    = (Ok (), pooled_world arch (write_bytes m (area_ptr (d_patcher d)) (original_prolog (d_patcher d))) used)"
proof -
  have "detour_disable arch demo_os d (pooled_world arch m used) = (Ok (), d\<lparr>d_enabled := False\<rparr>,
      pooled_world arch (write_bytes m (area_ptr (d_patcher d)) (original_prolog (d_patcher d))) used)"
    using assms(1,2) by (simp add: detour_disable_def pooled_toggle area_code_def)
  moreover have "pool_holds bump_ops (em_ptr (d_trampoline d)) (0x500000, 0x1000, used)"
    using assms(4,5) by (simp add: pool_holds_def bump_ops_def in_range_def)
  ultimately show ?thesis
    using assms(3)
    by (simp add: detour_drop_def drop_fields_def drop_memory_def executable_memory_drop_def proximity_release_def
        demo_os_def pooled_world_def) (simp add: bump_ops_def)
qed

end
