(* ===== verification/X86_Thunk.thy ===== *)
theory X86_Thunk
  imports Arch_Common
begin

text \<open>
  \<^verbatim>\<open>src/arch/x86/thunk\<close> and \<^verbatim>\<open>src/arch/x86/meta.rs\<close>: the machine code the library emits on
  x86 and x86-64, and the relay decision. Addresses are words of either width;
  \<^verbatim>\<open>cfg(target_arch = "x86_64")\<close> is \<open>target_x86_64\<close>, the width 64. A reference processor for
  the emitted instructions gives them their meaning.
\<close>

section \<open>Relative and absolute branches\<close>

definition target_x86_64 :: "'u::len itself \<Rightarrow> bool" where
  "target_x86_64 _ \<longleftrightarrow> LENGTH('u) = 64"

definition x86_DETOUR_RANGE :: int where
  "x86_DETOUR_RANGE = 0x80000000"

definition size_of_JumpRel :: nat where "size_of_JumpRel = 5"
definition size_of_JccRel :: nat where "size_of_JccRel = 6"
definition size_of_JumpShort :: nat where "size_of_JumpShort = 2"

definition calculate_displacement :: "'u::len word \<Rightarrow> 'u word \<Rightarrow> nat \<Rightarrow> u32 res" where
  "calculate_displacement source destination instruction_size =
     (let displacement = destination - (source + of_nat instruction_size)
      in if target_x86_64 TYPE('u) \<and> \<not> is_within_range x86_DETOUR_RANGE displacement then Panic
         else Ok (ucast displacement))"

definition relative32 :: "'u::len word \<Rightarrow> bool \<Rightarrow> 'u word thunk" where
  "relative32 destination is_jump = fixed_thunk_new 5 (\<lambda>source.
     res_bind (calculate_displacement source destination size_of_JumpRel) (\<lambda>operand.
       clone_from_slice 5 ((if is_jump then 0xE9 else 0xE8) # u32_le operand)))"

definition x86_nop :: "'u::len word thunk" where
  "x86_nop = VecThunk [0x90]"

definition call_rel32 :: "'u::len word \<Rightarrow> 'u word thunk" where
  "call_rel32 destination = relative32 destination False"

definition jmp_rel32 :: "'u::len word \<Rightarrow> 'u word thunk" where
  "jmp_rel32 destination = relative32 destination True"

definition jcc_rel32 :: "'u::len word \<Rightarrow> u8 \<Rightarrow> 'u word thunk" where
  "jcc_rel32 destination condition = fixed_thunk_new 6 (\<lambda>source.
     res_bind (calculate_displacement source destination size_of_JccRel) (\<lambda>operand.
       clone_from_slice 6 (0x0F # (0x80 OR condition) # u32_le operand)))"

text \<open>The operand is \<^verbatim>\<open>displacement - 2\<close> in \<^verbatim>\<open>i8\<close>.\<close>

definition jmp_rel8 :: "u8 \<Rightarrow> 'u::len word thunk" where
  "jmp_rel8 displacement = fixed_thunk_new 2 (\<lambda>_.
     clone_from_slice 2 [0xEB, displacement - of_nat size_of_JumpShort])"

text \<open>The absolute forms of \<^verbatim>\<open>x64.rs\<close>: the destination follows the code as a literal.\<close>

definition x64_call_abs :: "'u::len word \<Rightarrow> 'u word thunk" where
  "x64_call_abs destination =
     VecThunk ([0xFF, 0x15] @ u32_le 2 @ [0xEB, 0x08] @ u64_le (ucast destination))"

definition x64_jmp_abs :: "'u::len word \<Rightarrow> 'u word thunk" where
  "x64_jmp_abs destination = VecThunk ([0xFF, 0x25] @ u32_le 0 @ u64_le (ucast destination))"

definition x64_jcc_abs :: "'u::len word \<Rightarrow> u8 \<Rightarrow> 'u word thunk" where
  "x64_jcc_abs destination condition =
     VecThunk ([0x71 XOR condition, 0x0E, 0xFF, 0x25] @ u32_le 0 @ u64_le (ucast destination))"

text \<open>\<^verbatim>\<open>thunk::call\<close>, \<^verbatim>\<open>thunk::jcc\<close> and \<^verbatim>\<open>thunk::jmp\<close> name the forms of the target.\<close>

definition x86_call :: "'u::len word \<Rightarrow> 'u word thunk" where
  "x86_call d = (if target_x86_64 TYPE('u) then x64_call_abs d else call_rel32 d)"

definition x86_jcc :: "'u::len word \<Rightarrow> u8 \<Rightarrow> 'u word thunk" where
  "x86_jcc d c = (if target_x86_64 TYPE('u) then x64_jcc_abs d c else jcc_rel32 d c)"

definition x86_jmp :: "'u::len word \<Rightarrow> 'u word thunk" where
  "x86_jmp d = (if target_x86_64 TYPE('u) then x64_jmp_abs d else jmp_rel32 d)"

section \<open>Prolog margin and relay\<close>

definition x86_prolog_margin :: "'u::len word \<Rightarrow> nat" where
  "x86_prolog_margin target = size_of_JumpRel"

definition x86_relay_builder ::
  "'u::len word \<Rightarrow> 'u word \<Rightarrow> 'u word code_emitter option res" where
  "x86_relay_builder target detour =
     (let displacement = target - detour in
      if target_x86_64 TYPE('u) \<and> \<not> is_within_range x86_DETOUR_RANGE displacement
      then Ok (Some (add_thunk emitter_new (x86_jmp detour)))
      else Ok None)"

section \<open>A reference processor for the emitted code\<close>

text \<open>The arithmetic flags and the sixteen condition codes; odd codes negate even ones.\<close>

record x86_flags =
  OF :: bool
  CF :: bool
  ZF :: bool
  SF :: bool
  PF :: bool

definition x86_base_cond :: "x86_flags \<Rightarrow> u8 \<Rightarrow> bool" where
  "x86_base_cond f k =
     (if k = 0 then OF f else if k = 1 then CF f else if k = 2 then ZF f
      else if k = 3 then CF f \<or> ZF f else if k = 4 then SF f else if k = 5 then PF f
      else if k = 6 then SF f \<noteq> OF f else ZF f \<or> SF f \<noteq> OF f)"

definition x86_cond :: "x86_flags \<Rightarrow> u8 \<Rightarrow> bool" where
  "x86_cond f c = (x86_base_cond f (drop_bit 1 (c AND 0x0F)) \<noteq> bit c 0)"

record 'a x86_cpu =
  rip :: 'a
  rsp :: 'a
  flags :: x86_flags
  memory :: "'a \<Rightarrow> u8"

definition word_bytes :: "'u::len word \<Rightarrow> u8 list" where
  "word_bytes w = (if LENGTH('u) = 64 then u64_le (ucast w) else u32_le (ucast w))"

definition x86_push :: "'u::len word \<Rightarrow> 'u word x86_cpu \<Rightarrow> 'u word x86_cpu" where
  "x86_push w s = (let sp = rsp s - of_nat (length (word_bytes w)) in
     s\<lparr>rsp := sp, memory := write_bytes (memory s) sp (word_bytes w)\<rparr>)"

definition x86_step :: "'u::len word x86_cpu \<Rightarrow> 'u word x86_cpu option" where
  "x86_step s =
     (let m = memory s; pc = rip s; b0 = m pc; b1 = m (pc + 1);
          rel32_1 = scast (fetch32 m (pc + 1)); rel32_2 = scast (fetch32 m (pc + 2)) in
      if b0 = 0x90 then Some (s\<lparr>rip := pc + 1\<rparr>)
      else if b0 = 0xE9 then Some (s\<lparr>rip := pc + 5 + rel32_1\<rparr>)
      else if b0 = 0xE8 then Some ((x86_push (pc + 5) s)\<lparr>rip := pc + 5 + rel32_1\<rparr>)
      else if b0 = 0xEB then Some (s\<lparr>rip := pc + 2 + scast b1\<rparr>)
      else if b0 AND 0xF0 = 0x70 then
        Some (s\<lparr>rip := pc + 2 + (if x86_cond (flags s) b0 then scast b1 else 0)\<rparr>)
      else if b0 = 0x0F \<and> b1 AND 0xF0 = 0x80 then
        Some (s\<lparr>rip := pc + 6 + (if x86_cond (flags s) b1 then rel32_2 else 0)\<rparr>)
      else if b0 = 0xFF \<and> b1 = 0x25 \<and> LENGTH('u) = 64 then
        Some (s\<lparr>rip := ucast (fetch64 m (pc + 6 + rel32_2))\<rparr>)
      else if b0 = 0xFF \<and> b1 = 0x15 \<and> LENGTH('u) = 64 then
        Some ((x86_push (pc + 6) s)\<lparr>rip := ucast (fetch64 m (pc + 6 + rel32_2))\<rparr>)
      else None)"

primrec x86_run :: "nat \<Rightarrow> 'u::len word x86_cpu \<Rightarrow> 'u word x86_cpu option" where
  "x86_run 0 s = Some s"
| "x86_run (Suc n) s = (case x86_step s of None \<Rightarrow> None | Some t \<Rightarrow> x86_run n t)"

text \<open>From \<open>pc\<close> the processor arrives at \<open>dest\<close> with nothing else changed.\<close>

definition x86_runs_to :: "'u::len mem \<Rightarrow> 'u word \<Rightarrow> 'u word \<Rightarrow> bool" where
  "x86_runs_to m pc dest \<longleftrightarrow>
     (\<forall>s. memory s = m \<and> rip s = pc \<longrightarrow> (\<exists>n. x86_run n s = Some (s\<lparr>rip := dest\<rparr>)))"

section \<open>The displacement and what the processor does with it\<close>

lemma calculate_displacement_lands:
  fixes source destination :: "'u::len word"
  assumes "LENGTH('u) = 32 \<or> LENGTH('u) = 64"
    and "calculate_displacement source destination n = Ok operand"
  shows "source + of_nat n + scast operand = destination"
proof -
  let ?d = "destination - (source + of_nat n)"
  have op: "operand = ucast ?d" and rng: "target_x86_64 TYPE('u) \<Longrightarrow> is_within_range x86_DETOUR_RANGE ?d"
    using assms(2) by (auto simp: calculate_displacement_def Let_def split: if_splits)
  have "- (2 ^ 31) \<le> sint ?d \<and> sint ?d < 2 ^ 31"
  proof (cases "LENGTH('u) = 64")
    case True
    with rng show ?thesis by (simp add: target_x86_64_def is_within_range_def x86_DETOUR_RANGE_def)
  next
    case False
    with assms(1) show ?thesis using sint_ge [of ?d] sint_lt [of ?d] by simp
  qed
  then have "scast operand = ?d"
    unfolding op using assms(1) by (intro scast_ucast_narrow) auto
  then show ?thesis by simp
qed

text \<open>On x86 a displacement always exists; on x86-64 exactly within the range, else a panic.\<close>

lemma calculate_displacement_cases:
  "calculate_displacement (source :: 'u::len word) destination n =
     (if target_x86_64 TYPE('u) \<and>
         \<not> is_within_range x86_DETOUR_RANGE (destination - (source + of_nat n)) then Panic
      else Ok (ucast (destination - (source + of_nat n))))"
  by (simp add: calculate_displacement_def Let_def)

section \<open>Every branch thunk lands where it was built for\<close>

definition x86_rel32_reach :: "nat \<Rightarrow> 'u::len word \<Rightarrow> 'u word \<Rightarrow> bool" where
  "x86_rel32_reach n src dest \<longleftrightarrow> LENGTH('u) = 32 \<or>
     LENGTH('u) = 64 \<and> is_within_range x86_DETOUR_RANGE (dest - (src + of_nat n))"

lemma x86_rel32_reach_Ok:
  "x86_rel32_reach n src dest \<Longrightarrow> calculate_displacement src dest n = Ok (ucast (dest - (src + of_nat n)))"
  by (auto simp: x86_rel32_reach_def calculate_displacement_cases target_x86_64_def)

lemma honest_relative32: "honest (relative32 d j)"
  by (auto simp: honest_def relative32_def fixed_thunk_new_def)

lemma x86_run_one: "x86_step s = Some t \<Longrightarrow> \<exists>n. x86_run n s = Some t"
  by (rule exI [of _ "Suc 0"]) simp

lemma x86_run_two:
  "x86_step s = Some t \<Longrightarrow> x86_step t = Some u \<Longrightarrow> \<exists>n. x86_run n s = Some u"
  by (rule exI [of _ "Suc (Suc 0)"]) simp

lemma x86_runs_toI:
  assumes "\<And>s. memory s = m \<Longrightarrow> rip s = pc \<Longrightarrow> x86_step s = Some (s\<lparr>rip := dest\<rparr>)"
  shows "x86_runs_to m pc dest"
  using assms by (auto simp: x86_runs_to_def intro: x86_run_one)

lemma x86_runs_to_refl: "x86_runs_to m pc pc"
  unfolding x86_runs_to_def by (auto intro: exI [of _ 0])

interpretation jmp_rel32: jump_thunk jmp_rel32 5 "x86_rel32_reach 5" x86_runs_to
proof
  fix dest :: "'u::len word"
  show "thunk_len (jmp_rel32 dest) = 5"
    by (simp add: jmp_rel32_def relative32_def fixed_thunk_new_def)
  show "honest (jmp_rel32 dest)"
    by (simp add: jmp_rel32_def honest_relative32)
next
  fix src dest :: "'u::len word"
  assume "x86_rel32_reach 5 src dest"
  then show "\<exists>code. thunk_generate (jmp_rel32 dest) src = Ok code"
    using x86_rel32_reach_Ok [of 5 src dest]
    by (simp add: jmp_rel32_def relative32_def fixed_thunk_new_def size_of_JumpRel_def)
next
  fix src dest :: "'u::len word" and code m
  assume reach: "x86_rel32_reach 5 src dest"
    and gen: "thunk_generate (jmp_rel32 dest) src = Ok code" and at: "code_at m src code"
  obtain op where calc: "calculate_displacement src dest 5 = Ok op"
    using x86_rel32_reach_Ok [OF reach] by blast
  then have lands: "src + 5 + scast op = dest"
    using calculate_displacement_lands [OF _ calc] reach by (auto simp: x86_rel32_reach_def)
  have "code = 0xE9 # u32_le op"
    using gen calc by (simp add: jmp_rel32_def relative32_def fixed_thunk_new_def size_of_JumpRel_def)
  with at have m0: "m src = 0xE9" and op: "fetch32 m (src + 1) = op"
    by (auto intro: code_at_u32)
  show "x86_runs_to m src dest"
    by (rule x86_runs_toI) (simp add: x86_step_def Let_def m0 op lands)
qed

text \<open>The closing jump of either target.\<close>

definition x86_jmp_size :: "'u::len itself \<Rightarrow> nat" where
  "x86_jmp_size _ = (if LENGTH('u) = 64 then 14 else 5)"

definition x86_usize :: "'u::len itself \<Rightarrow> bool" where
  "x86_usize _ \<longleftrightarrow> LENGTH('u) = 32 \<or> LENGTH('u) = 64"

lemma x86_step_jmp_indirect:
  fixes s :: "'u::len word x86_cpu"
  assumes "LENGTH('u) = 64" "code_at (memory s) (rip s) ([0xFF, 0x25] @ u32_le 0 @ u64_le (ucast dest))"
  shows "x86_step s = Some (s\<lparr>rip := dest\<rparr>)"
proof -
  let ?m = "memory s" and ?pc = "rip s"
  have m: "?m ?pc = 0xFF" "?m (?pc + 1) = 0x25"
    and disp: "fetch32 ?m (?pc + 2) = 0" and lit: "fetch64 ?m (?pc + 6) = ucast dest"
    using assms(2) by (auto simp: add.assoc intro: code_at_u32 code_at_u64)
  then show ?thesis using assms(1) by (simp add: x86_step_def Let_def)
qed

lemma x64_jmp_abs_runs:
  fixes src dest :: "'u::len word"
  assumes "LENGTH('u) = 64" "code_at m src ([0xFF, 0x25] @ u32_le 0 @ u64_le (ucast dest))"
  shows "x86_runs_to m src dest"
  using assms by (intro x86_runs_toI x86_step_jmp_indirect) auto

interpretation x86_jmp: jump_thunk x86_jmp "x86_jmp_size TYPE('u::len)"
    "\<lambda>src dest :: 'u word. x86_usize TYPE('u)" x86_runs_to
proof
  fix dest :: "'u word"
  show "thunk_len (x86_jmp dest) = x86_jmp_size TYPE('u)"
    by (simp add: x86_jmp_def x86_jmp_size_def target_x86_64_def x64_jmp_abs_def jmp_rel32.build_len)
  show "honest (x86_jmp dest)"
    by (simp add: x86_jmp_def x64_jmp_abs_def jmp_rel32.build_honest)
next
  fix src dest :: "'u word"
  assume "x86_usize TYPE('u)"
  then have "LENGTH('u) = 64 \<or> x86_rel32_reach 5 src dest"
    by (auto simp: x86_usize_def x86_rel32_reach_def)
  then show "\<exists>code. thunk_generate (x86_jmp dest) src = Ok code"
    using jmp_rel32.jmp_generates [of src dest]
    by (auto simp: x86_jmp_def target_x86_64_def x64_jmp_abs_def)
next
  fix src dest :: "'u word" and code m
  assume u: "x86_usize TYPE('u)" and gen: "thunk_generate (x86_jmp dest) src = Ok code"
    and at: "code_at m src code"
  show "x86_runs_to m src dest"
  proof (cases "LENGTH('u) = 64")
    case True
    with gen at show ?thesis
      by (intro x64_jmp_abs_runs) (auto simp: x86_jmp_def target_x86_64_def x64_jmp_abs_def)
  next
    case False
    with u have "x86_rel32_reach 5 src dest"
      by (simp add: x86_usize_def x86_rel32_reach_def)
    then show ?thesis
      using jmp_rel32.jmp_lands [of src dest code m] gen at False
      by (simp add: x86_jmp_def target_x86_64_def)
  qed
qed

lemma nibble_cases:
  assumes "(c :: u8) < 16"
  shows "c \<in> {0, 1, 2, 3, 4, 5, 6, 7, 8, 9, 10, 11, 12, 13, 14, 15}"
  using word_less_of_nat_cases [of c 16] assms by (simp add: upt_rec numeral_eq_Suc)

text \<open>\<^verbatim>\<open>0x71 ^ condition\<close> is the short jump with the opposite condition.\<close>

lemma x86_cond_invert:
  "c < 16 \<Longrightarrow> x86_cond f (0x71 XOR c) = (\<not> x86_cond f c) \<and> (0x71 XOR c) AND 0xF0 = (0x70 :: u8)
     \<and> 0x71 XOR c \<noteq> 0x90"
  by (drule nibble_cases, elim insertE emptyE; simp add: x86_cond_def)

lemma x86_cond_near:
  "c < 16 \<Longrightarrow> x86_cond f (0x80 OR c) = x86_cond f c \<and> (0x80 OR c) AND 0xF0 = (0x80 :: u8)"
  by (drule nibble_cases, elim insertE emptyE; simp add: x86_cond_def)

text \<open>A conditional thunk goes to its destination exactly when the condition holds.\<close>

lemma x64_jcc_abs_runs:
  fixes s :: "'u::len word x86_cpu"
  assumes u: "LENGTH('u) = 64" and c: "c < 16" and pc: "rip s = src"
    and at: "code_at (memory s) src
      ([0x71 XOR c, 0x0E, 0xFF, 0x25] @ u32_le 0 @ u64_le (ucast dest))"
  shows "\<exists>n. x86_run n s = Some (s\<lparr>rip := if x86_cond (flags s) c then dest else src + 16\<rparr>)"
proof -
  let ?m = "memory s"
  have m: "?m src = 0x71 XOR c" "?m (src + 1) = 0x0E"
    using at by auto
  note inv = x86_cond_invert [OF c, of "flags s"]
  have neq: "0x71 XOR c \<noteq> 0xE9" "0x71 XOR c \<noteq> 0xE8" "0x71 XOR c \<noteq> 0xEB"
    using inv by auto
  have step: "x86_step s = Some (s\<lparr>rip := if x86_cond (flags s) c then src + 2 else src + 16\<rparr>)"
    using m inv neq by (simp add: x86_step_def Let_def pc add.assoc)
  show ?thesis
  proof (cases "x86_cond (flags s) c")
    case True
    let ?t = "s\<lparr>rip := src + 2\<rparr>"
    have "x86_step ?t = Some (?t\<lparr>rip := dest\<rparr>)"
      using u at by (intro x86_step_jmp_indirect) (simp_all add: add.assoc)
    with True step show ?thesis by (auto intro: x86_run_two)
  next
    case False
    with step show ?thesis by (auto intro: x86_run_one)
  qed
qed

lemma jcc_rel32_runs:
  fixes s :: "'u::len word x86_cpu"
  assumes u: "x86_usize TYPE('u)" and c: "c < 16" and pc: "rip s = src"
    and gen: "thunk_generate (jcc_rel32 dest c) src = Ok code" and at: "code_at (memory s) src code"
  shows "\<exists>n. x86_run n s = Some (s\<lparr>rip := if x86_cond (flags s) c then dest else src + 6\<rparr>)"
proof -
  obtain op where calc: "calculate_displacement src dest 6 = Ok op"
    and code: "code = 0x0F # (0x80 OR c) # u32_le op"
    using gen by (auto simp: jcc_rel32_def fixed_thunk_new_def size_of_JccRel_def)
  have lands: "src + 6 + scast op = dest"
    using calculate_displacement_lands [OF _ calc] u by (simp add: x86_usize_def)
  have m: "memory s src = 0x0F" "memory s (src + 1) = 0x80 OR c"
    and op: "fetch32 (memory s) (src + 2) = op"
    using at code by (auto simp: add.assoc intro: code_at_u32)
  have "x86_step s = Some (s\<lparr>rip := if x86_cond (flags s) c then dest else src + 6\<rparr>)"
    using m op lands pc x86_cond_near [OF c] by (auto simp: x86_step_def Let_def)
  then show ?thesis by (rule x86_run_one)
qed

text \<open>C29: the conditional thunk of either target.\<close>

theorem x86_jcc_correct:
  fixes s :: "'u::len word x86_cpu"
  assumes "LENGTH('u) = 32 \<or> LENGTH('u) = 64" "c < 16" "rip s = src"
    and "thunk_generate (x86_jcc dest c) src = Ok code" "code_at (memory s) src code"
  shows "\<exists>n. x86_run n s =
    Some (s\<lparr>rip := if x86_cond (flags s) c then dest else src + of_nat (length code)\<rparr>)"
proof (cases "LENGTH('u) = 64")
  case True
  with assms(4) have code: "code = [0x71 XOR c, 0x0E, 0xFF, 0x25] @ u32_le 0 @ u64_le (ucast dest)"
    by (simp add: x86_jcc_def target_x86_64_def x64_jcc_abs_def)
  then have len: "src + of_nat (length code) = src + 16" by simp
  show ?thesis
    using x64_jcc_abs_runs [OF True assms(2,3), of dest] assms(5) code
    unfolding len by (simp split del: if_split)
next
  case False
  with assms(1,4) have gen: "thunk_generate (jcc_rel32 dest c) src = Ok code"
    by (simp add: x86_jcc_def target_x86_64_def)
  then have len: "src + of_nat (length code) = src + 6"
    by (auto simp: jcc_rel32_def fixed_thunk_new_def)
  show ?thesis
    using jcc_rel32_runs [OF _ assms(2,3) gen assms(5)] assms(1) unfolding len
    by (simp add: x86_usize_def split del: if_split)
qed

theorem x86_jcc_correct_witness:
  "\<exists>n. x86_run n \<lparr>rip = 0x1000, rsp = 0x9000,
       flags = \<lparr>OF = False, CF = False, ZF = True, SF = False, PF = False\<rparr>,
       memory = write_bytes (\<lambda>_. 0) (0x1000 :: u64)
         ([0x75, 0x0E, 0xFF, 0x25] @ u32_le 0 @ u64_le 0x7FFF12345678)\<rparr>
     = Some \<lparr>rip = 0x7FFF12345678, rsp = 0x9000,
       flags = \<lparr>OF = False, CF = False, ZF = True, SF = False, PF = False\<rparr>,
       memory = write_bytes (\<lambda>_. 0) (0x1000 :: u64)
         ([0x75, 0x0E, 0xFF, 0x25] @ u32_le 0 @ u64_le 0x7FFF12345678)\<rparr>"
proof -
  let ?code = "[0x75, 0x0E, 0xFF, 0x25] @ u32_le 0 @ u64_le 0x7FFF12345678"
  let ?s = "\<lparr>rip = 0x1000, rsp = 0x9000,
       flags = \<lparr>OF = False, CF = False, ZF = True, SF = False, PF = False\<rparr>,
       memory = write_bytes (\<lambda>_. 0) (0x1000 :: u64) ?code\<rparr> :: u64 x86_cpu"
  have gen: "thunk_generate (x86_jcc (0x7FFF12345678 :: u64) 4) 0x1000 = Ok ?code"
    by (simp add: x86_jcc_def target_x86_64_def x64_jcc_abs_def)
  have at: "code_at (memory ?s) 0x1000 ?code"
    by (simp only: x86_cpu.simps, rule code_at_write_bytes) simp
  have "x86_cond (flags ?s) 4" by (simp add: x86_cond_def x86_base_cond_def)
  then show ?thesis
    using x86_jcc_correct [OF _ _ _ gen at] by simp
qed

text \<open>
  A call thunk: the callee is entered with a return address on the stack from which control
  comes back to the first byte after the thunk (over the literal on x86-64).
\<close>

definition x86_calls :: "'u::len word x86_cpu \<Rightarrow> 'u word \<Rightarrow> 'u word \<Rightarrow> 'u word x86_cpu \<Rightarrow> bool" where
  "x86_calls s dest ret t \<longleftrightarrow> x86_step s = Some t \<and> rip t = dest
     \<and> code_at (memory t) (rsp t) (word_bytes ret)"

lemma x86_push_top:
  fixes s :: "'u::len word x86_cpu"
  assumes "x86_usize TYPE('u)"
  shows "code_at (memory (x86_push w s)) (rsp (x86_push w s)) (word_bytes w)"
proof -
  have "length (word_bytes w) \<le> 8" by (simp add: word_bytes_def)
  also have "(8::nat) \<le> 2 ^ LENGTH('u)"
    using assms by (auto simp: x86_usize_def)
  finally show ?thesis by (simp add: x86_push_def Let_def)
qed

text \<open>The call thunk of either target.\<close>

theorem x86_call_correct:
  fixes s :: "'u::len word x86_cpu"
  assumes "LENGTH('u) = 32 \<or> LENGTH('u) = 64" "rip s = src"
    and "thunk_generate (x86_call dest) src = Ok code" "code_at (memory s) src code"
  shows "\<exists>ret t. x86_calls s dest ret t
    \<and> (\<forall>m. code_at m src code \<longrightarrow> x86_runs_to m ret (src + of_nat (length code)))"
proof (cases "LENGTH('u) = 64")
  case True
  with assms(3) have code: "code = [0xFF, 0x15] @ u32_le 2 @ [0xEB, 0x08] @ u64_le (ucast dest)"
    by (simp add: x86_call_def target_x86_64_def x64_call_abs_def)
  let ?m = "memory s"
  have m: "?m src = 0xFF" "?m (src + 1) = 0x15" "fetch32 ?m (src + 2) = 2"
    and lit: "fetch64 ?m (src + 8) = ucast dest"
    using assms(4) unfolding code by (auto simp: add.assoc intro: code_at_u32 code_at_u64)
  let ?t = "(x86_push (src + 6) s)\<lparr>rip := dest\<rparr>"
  have "x86_step s = Some ?t"
    using m lit True assms(2) by (simp add: x86_step_def Let_def add.assoc)
  moreover have "code_at (memory ?t) (rsp ?t) (word_bytes (src + 6))"
    using x86_push_top [of "src + 6" s] True by (simp add: x86_usize_def)
  ultimately have "x86_calls s dest (src + 6) ?t" by (simp add: x86_calls_def)
  moreover have "x86_runs_to m (src + 6) (src + of_nat (length code))" if "code_at m src code" for m
  proof -
    have "m (src + 6) = 0xEB" "m (src + 7) = 0x08"
      using that unfolding code by (simp_all add: add.assoc)
    then show ?thesis
      unfolding code by (intro x86_runs_toI) (simp add: x86_step_def Let_def add.assoc)
  qed
  ultimately show ?thesis by blast
next
  case False
  with assms(3) have gen: "thunk_generate (relative32 dest False) src = Ok code"
    by (simp add: x86_call_def target_x86_64_def call_rel32_def)
  then obtain op where calc: "calculate_displacement src dest 5 = Ok op"
    and code: "code = 0xE8 # u32_le op"
    by (auto simp: relative32_def fixed_thunk_new_def size_of_JumpRel_def)
  have lands: "src + 5 + scast op = dest"
    using calculate_displacement_lands [OF assms(1) calc] by simp
  have m: "memory s src = 0xE8" "fetch32 (memory s) (src + 1) = op"
    using assms(4) code by (auto intro: code_at_u32)
  let ?t = "(x86_push (src + 5) s)\<lparr>rip := dest\<rparr>"
  have "x86_step s = Some ?t"
    using m lands assms(2) by (simp add: x86_step_def Let_def)
  moreover have "code_at (memory ?t) (rsp ?t) (word_bytes (src + 5))"
    using x86_push_top [of "src + 5" s] assms(1) by (simp add: x86_usize_def)
  ultimately have "x86_calls s dest (src + 5) ?t" by (simp add: x86_calls_def)
  moreover have "x86_runs_to m (src + 5) (src + of_nat (length code))" for m
    by (simp add: code x86_runs_to_refl)
  ultimately show ?thesis by blast
qed

theorem x86_call_correct_witness:
  "\<exists>ret t. x86_calls \<lparr>rip = 0x1000, rsp = 0x9000,
       flags = \<lparr>OF = False, CF = False, ZF = True, SF = False, PF = False\<rparr>,
       memory = write_bytes (\<lambda>_. 0) (0x1000 :: u32) [0xE8, 0xFB, 0x0F, 0, 0]\<rparr> 0x2000 ret t
    \<and> (\<forall>m. code_at m 0x1000 [0xE8, 0xFB, 0x0F, 0, 0] \<longrightarrow> x86_runs_to m ret 0x1005)"
proof -
  let ?code = "[0xE8, 0xFB, 0x0F, 0, 0]"
  let ?s = "\<lparr>rip = 0x1000, rsp = 0x9000,
       flags = \<lparr>OF = False, CF = False, ZF = True, SF = False, PF = False\<rparr>,
       memory = write_bytes (\<lambda>_. 0) (0x1000 :: u32) ?code\<rparr> :: u32 x86_cpu"
  have gen: "thunk_generate (x86_call (0x2000 :: u32)) 0x1000 = Ok ?code"
    by (simp add: x86_call_def target_x86_64_def call_rel32_def relative32_def fixed_thunk_new_def
        calculate_displacement_cases clone_from_slice_def u32_le_def size_of_JumpRel_def)
  have at: "code_at (memory ?s) 0x1000 ?code"
    by (simp only: x86_cpu.simps, rule code_at_write_bytes) simp
  show ?thesis
    using x86_call_correct [OF _ _ gen at] by simp
qed

end
