(* ===== verification/X86_Patcher.thy ===== *)
theory X86_Patcher
  imports X86_Thunk Region_Query
begin

text \<open>
  \<^verbatim>\<open>src/arch/x86/patcher.rs\<close>: choosing the patch area (a long jump in the prolog, or a short
  jump with a long jump in the padding above the function) and the code that goes there.
\<close>

section \<open>The patch area\<close>

definition x86_is_code_padding :: "u8 list \<Rightarrow> bool" where
  "x86_is_code_padding buffer = list_all (\<lambda>code. code \<in> set [0x00, 0x90, 0xCC]) buffer"

definition x86_is_patchable :: "'u::len mem \<Rightarrow> 'u word \<Rightarrow> nat \<Rightarrow> nat \<Rightarrow> bool" where
  "x86_is_patchable m target prolog_size patch_size =
     (if prolog_size \<ge> patch_size then True
      else x86_is_code_padding
             (read_bytes m (target + of_nat prolog_size) (patch_size - prolog_size)))"

definition x86_patch_area ::
  "'u::len word query \<Rightarrow> 'u mem \<Rightarrow> 'u word \<Rightarrow> nat \<Rightarrow> ('u word \<times> nat) res" where
  "x86_patch_area query m target prolog_size =
     (let jump_rel08_size = size_of_JumpShort; jump_rel32_size = size_of_JumpRel in
      if \<not> x86_is_patchable m target prolog_size jump_rel32_size then
        if x86_is_patchable m target prolog_size jump_rel08_size then
          (let hot_patch = target - of_nat jump_rel32_size;
               hot_patch_area = read_bytes m hot_patch jump_rel32_size in
           res_bind
             (if \<not> x86_is_code_padding hot_patch_area then Ok True
              else res_map Not (is_executable_address query hot_patch))
             (\<lambda>rejected. if rejected then Err NoPatchArea
                         else Ok (hot_patch, jump_rel32_size + jump_rel08_size)))
        else Err NoPatchArea
      else Ok (target, jump_rel32_size))"

section \<open>The redirect code\<close>

text \<open>\<^verbatim>\<open>while emitter.len() < patch_area.len()\<close>: one \<^verbatim>\<open>nop\<close> per round.\<close>

function pad_nops :: "'u::len word code_emitter \<Rightarrow> nat \<Rightarrow> 'u word code_emitter" where
  "pad_nops emitter n =
     (if emitter_len emitter < n then pad_nops (add_thunk emitter x86_nop) n else emitter)"
  by pat_completeness auto
termination
  by (relation "measure (\<lambda>(emitter, n). n - emitter_len emitter)") (auto simp: x86_nop_def)

declare pad_nops.simps [simp del]

definition x86_hook_template :: "'u::len word \<Rightarrow> nat \<Rightarrow> 'u word code_emitter" where
  "x86_hook_template detour patch_area_len =
     (let emitter = add_thunk emitter_new (jmp_rel32 detour);
          jump_rel32_size = size_of_JumpRel;
          uses_hot_patch = patch_area_len > jump_rel32_size;
          emitter = (if uses_hot_patch
                     then add_thunk emitter (jmp_rel8 (- of_nat jump_rel32_size)) else emitter)
      in pad_nops emitter patch_area_len)"

definition x86_patcher_new ::
  "'u::len word query \<Rightarrow> 'u mem \<Rightarrow> 'u word \<Rightarrow> 'u word \<Rightarrow> nat \<Rightarrow> 'u word patcher res" where
  "x86_patcher_new query m target detour prolog_size =
     res_bind (x86_patch_area query m target prolog_size) (\<lambda>(patch_address, len).
       res_bind (emit (x86_hook_template detour len) patch_address) (\<lambda>code.
         Ok \<lparr>area_ptr = patch_address, area_len = len,
             original_prolog = read_bytes m patch_address len, detour_prolog = code\<rparr>))"

section \<open>Which area is chosen\<close>

lemma x86_patch_area_Ok:
  "x86_patch_area query m target n = Ok (ptr, len) \<longleftrightarrow>
     (x86_is_patchable m target n 5 \<and> ptr = target \<and> len = 5)
   \<or> (\<not> x86_is_patchable m target n 5 \<and> x86_is_patchable m target n 2
       \<and> x86_is_code_padding (read_bytes m (target - 5) 5)
       \<and> is_executable_address query (target - 5) = Ok True \<and> ptr = target - 5 \<and> len = 7)"
  by (auto simp: x86_patch_area_def Let_def size_of_JumpShort_def size_of_JumpRel_def)

lemma x86_patch_area_no_Panic: "x86_patch_area query m target n \<noteq> Panic"
  using is_executable_address_cases(3) [of query "target - 5"]
  by (cases "is_executable_address query (target - 5)")
     (auto simp: x86_patch_area_def Let_def size_of_JumpShort_def size_of_JumpRel_def)

lemma x86_hook_template_5: "x86_hook_template detour 5 = add_thunk emitter_new (jmp_rel32 detour)"
  by (simp add: x86_hook_template_def size_of_JumpRel_def pad_nops.simps jmp_rel32.build_len)

lemma thunk_len_jmp_rel8 [simp]: "thunk_len (jmp_rel8 d) = 2"
  by (simp add: jmp_rel8_def fixed_thunk_new_def)

lemma x86_hook_template_7:
  "x86_hook_template detour 7 =
     add_thunk (add_thunk emitter_new (jmp_rel32 detour)) (jmp_rel8 (- 5))"
  by (simp add: x86_hook_template_def size_of_JumpRel_def pad_nops.simps jmp_rel32.build_len)

lemma emit_hook_5:
  "emit (x86_hook_template detour 5) base = thunk_generate (jmp_rel32 detour) base"
  by (simp add: x86_hook_template_5 jmp_rel32.emit_single)

lemma emit_hook_7:
  "emit (x86_hook_template detour 7) base =
     res_map (\<lambda>code. code @ [0xEB, 0xF9]) (thunk_generate (jmp_rel32 detour) base)"
  using jmp_rel32.generate_length [of detour base]
  by (cases "thunk_generate (jmp_rel32 detour) base")
     (simp_all add: x86_hook_template_7 emit_add_thunk jmp_rel32.emit_single jmp_rel32.build_len
       jmp_rel8_def fixed_thunk_new_def size_of_JumpShort_def clone_from_slice_def)

lemma x86_patcher_new_Ok:
  "x86_patcher_new query m target detour n = Ok p \<longleftrightarrow>
     (\<exists>code. x86_patch_area query m target n = Ok (area_ptr p, area_len p)
       \<and> emit (x86_hook_template detour (area_len p)) (area_ptr p) = Ok code
       \<and> detour_prolog p = code
       \<and> original_prolog p = read_bytes m (area_ptr p) (area_len p))"
  by (cases p) (auto simp: x86_patcher_new_def)

section \<open>The patcher contract\<close>

lemma x86_run_add:
  "x86_run (j + k) s = (case x86_run j s of None \<Rightarrow> None | Some t \<Rightarrow> x86_run k t)"
  by (induction j arbitrary: s) (auto split: option.splits)

lemma x86_runs_to_trans:
  assumes "x86_runs_to m a b" "x86_runs_to m b c"
  shows "x86_runs_to m a c"
  unfolding x86_runs_to_def
proof (intro allI impI)
  fix s :: "'a word x86_cpu"
  assume s: "memory s = m \<and> rip s = a"
  with assms(1) obtain j where j: "x86_run j s = Some (s\<lparr>rip := b\<rparr>)"
    by (auto simp: x86_runs_to_def)
  from s assms(2) obtain k where "x86_run k (s\<lparr>rip := b\<rparr>) = Some (s\<lparr>rip := b, rip := c\<rparr>)"
    unfolding x86_runs_to_def by (metis x86_cpu.select_convs(1,4) x86_cpu.surjective
        x86_cpu.update_convs(1))
  with j have "x86_run (j + k) s = Some (s\<lparr>rip := c\<rparr>)"
    by (simp add: x86_run_add)
  then show "\<exists>n. x86_run n s = Some (s\<lparr>rip := c\<rparr>)" ..
qed

lemma hot_patch_hop:
  assumes "code_at m (target - 5) (code @ [0xEB, 0xF9])" "length code = 5"
  shows "x86_runs_to m target (target - 5)"
proof -
  have "m target = 0xEB" "m (target + 1) = 0xF9" using assms by simp_all
  then show ?thesis by (intro x86_runs_toI) (simp add: x86_step_def Let_def)
qed

lemma jmp_rel32_generated_reach:
  fixes src dest :: "'u::len word"
  assumes "x86_usize TYPE('u)" "thunk_generate (jmp_rel32 dest) src = Ok code"
  shows "x86_rel32_reach 5 src dest"
  using assms by (auto simp: x86_usize_def x86_rel32_reach_def jmp_rel32_def relative32_def
      fixed_thunk_new_def size_of_JumpRel_def calculate_displacement_cases target_x86_64_def
      split: if_splits)

lemma x86_hook_code:
  assumes "x86_patcher_new query m target detour n = Ok p"
  obtains jump where "thunk_generate (jmp_rel32 detour) (area_ptr p) = Ok jump" "length jump = 5"
    and "area_ptr p = target \<and> area_len p = 5 \<and> detour_prolog p = jump
       \<or> area_ptr p = target - 5 \<and> area_len p = 7 \<and> detour_prolog p = jump @ [0xEB, 0xF9]"
proof -
  from assms have area: "area_ptr p = target \<and> area_len p = 5
      \<or> area_ptr p = target - 5 \<and> area_len p = 7"
    and code: "emit (x86_hook_template detour (area_len p)) (area_ptr p) = Ok (detour_prolog p)"
    by (auto simp: x86_patcher_new_Ok x86_patch_area_Ok)
  from area code obtain jump where jump: "thunk_generate (jmp_rel32 detour) (area_ptr p) = Ok jump"
    and "area_ptr p = target \<and> area_len p = 5 \<and> detour_prolog p = jump
       \<or> area_ptr p = target - 5 \<and> area_len p = 7 \<and> detour_prolog p = jump @ [0xEB, 0xF9]"
    by (auto simp: emit_hook_5 emit_hook_7)
  then show thesis using that jmp_rel32.generate_length [OF jump] by blast
qed

interpretation x86_patcher: patcher_module "x86_patcher_new query" x86_runs_to
    "\<lambda>p (target :: 'u::len word) detour. x86_usize TYPE('u)" for query
proof
  fix m :: "'u mem" and target detour n p
  assume new: "x86_patcher_new query m target detour n = Ok p"
  then show orig: "original_prolog p = read_bytes m (area_ptr p) (area_len p)"
    by (simp add: x86_patcher_new_Ok)
  have "length (detour_prolog p) = area_len p"
    by (rule x86_hook_code [OF new]) auto
  then show "patcher_wf p" by (simp add: patcher_wf_def orig)
next
  fix m :: "'u mem" and target detour :: "'u word" and n p
  assume new: "x86_patcher_new query m target detour n = Ok p" and u: "x86_usize TYPE('u)"
  have "area_len p \<le> 7" by (rule x86_hook_code [OF new]) auto
  also have "(7::nat) \<le> 2 ^ LENGTH('u)" using u by (auto simp: x86_usize_def)
  finally show "area_len p \<le> 2 ^ LENGTH('u)" .
next
  fix m m' :: "'u mem" and target detour n p
  assume new: "x86_patcher_new query m target detour n = Ok p" and u: "x86_usize TYPE('u)"
    and at: "code_at m' (area_ptr p) (detour_prolog p)"
  obtain jump where jump: "thunk_generate (jmp_rel32 detour) (area_ptr p) = Ok jump" "length jump = 5"
    and area: "area_ptr p = target \<and> area_len p = 5 \<and> detour_prolog p = jump
       \<or> area_ptr p = target - 5 \<and> area_len p = 7 \<and> detour_prolog p = jump @ [0xEB, 0xF9]"
    by (rule x86_hook_code [OF new])
  have "code_at m' (area_ptr p) jump" using area at by auto
  then have long: "x86_runs_to m' (area_ptr p) detour"
    by (rule jmp_rel32.jmp_lands [OF jmp_rel32_generated_reach [OF u jump(1)] jump(1)])
  from area show "x86_runs_to m' target detour"
  proof
    assume "area_ptr p = target \<and> area_len p = 5 \<and> detour_prolog p = jump"
    with long show ?thesis by simp
  next
    assume a: "area_ptr p = target - 5 \<and> area_len p = 7 \<and> detour_prolog p = jump @ [0xEB, 0xF9]"
    then have "x86_runs_to m' target (target - 5)"
      using at jump(2) by (intro hot_patch_hop [of m' target jump]) simp_all
    with long a show ?thesis using x86_runs_to_trans by metis
  qed
qed

section \<open>Properties\<close>

lemma x86_is_code_padding_nth:
  "x86_is_code_padding (read_bytes m a n) \<Longrightarrow> i < n \<Longrightarrow> m (a + of_nat i) \<in> {0x00, 0x90, 0xCC}"
  by (auto simp: x86_is_code_padding_def list_all_length)

lemma x86_is_patchable_nth:
  assumes "x86_is_patchable m target n k" "i < k" "\<not> i < n"
  shows "m (target + of_nat i) \<in> {0x00, 0x90, 0xCC}"
proof -
  have "x86_is_code_padding (read_bytes m (target + of_nat n) (k - n))"
    using assms by (simp add: x86_is_patchable_def split: if_splits)
  then have "m (target + of_nat n + of_nat (i - n)) \<in> {0x00, 0x90, 0xCC}"
    using assms by (intro x86_is_code_padding_nth) auto
  moreover have "target + of_nat n + of_nat (i - n) = target + of_nat i"
    using assms(3) by simp
  ultimately show ?thesis by simp
qed

text \<open>
  C28: the patch never overwrites live code. Every byte of the chosen area belongs to the
  disassembled prolog or is padding.
\<close>

theorem x86_patch_area_spares_code:
  assumes "x86_patch_area query m target n = Ok (ptr, len)" "i < len"
  shows "(\<exists>j < n. ptr + of_nat i = target + of_nat j) \<or> m (ptr + of_nat i) \<in> {0x00, 0x90, 0xCC}"
proof (cases "x86_is_patchable m target n 5")
  case True
  with assms have "ptr = target" "i < 5" by (auto simp: x86_patch_area_Ok)
  then show ?thesis using x86_is_patchable_nth [OF True, of i] by (cases "i < n") auto
next
  case False
  with assms have ptr: "ptr = target - 5" and "i < 7" and patch2: "x86_is_patchable m target n 2"
    and pad: "x86_is_code_padding (read_bytes m (target - 5) 5)"
    by (auto simp: x86_patch_area_Ok)
  show ?thesis
  proof (cases "i < 5")
    case True
    then show ?thesis using x86_is_code_padding_nth [OF pad] ptr by blast
  next
    case i: False
    then have eq: "ptr + of_nat i = target + of_nat (i - 5)" using ptr by simp
    show ?thesis
      unfolding eq using x86_is_patchable_nth [OF patch2, of "i - 5"] i \<open>i < 7\<close> by (cases "i - 5 < n") auto
  qed
qed

theorem x86_patch_area_spares_code_witness:
  "let m = write_bytes (\<lambda>_. 0x55) (0x1000 :: u64) [0x90, 0x90, 0x90, 0x90, 0x90, 0x31, 0xC0, 0xC3];
       q = (\<lambda>_. Inr \<lparr>lower = 0, upper = 0x2000, region_protection = [READ, EXECUTE]\<rparr>)
   in x86_patch_area q m 0x1005 3 = Ok (0x1000, 7)
      \<and> ((\<exists>j < 3. (0x1000 :: u64) + of_nat 2 = 0x1005 + of_nat j)
          \<or> m (0x1000 + of_nat 2) \<in> {0x00, 0x90, 0xCC})"
proof -
  let ?m = "write_bytes (\<lambda>_. 0x55) (0x1000 :: u64) [0x90, 0x90, 0x90, 0x90, 0x90, 0x31, 0xC0, 0xC3]"
  let ?q = "(\<lambda>_. Inr \<lparr>lower = 0, upper = 0x2000, region_protection = [READ, EXECUTE]\<rparr>)
    :: u64 \<Rightarrow> region_error + u64 region"
  have area: "x86_patch_area ?q ?m 0x1005 3 = Ok (0x1000, 7)"
    by (simp add: x86_patch_area_Ok x86_is_patchable_def x86_is_code_padding_def read_bytes_def
        write_bytes_def is_executable_address_def upt_rec)
  show ?thesis
    using x86_patch_area_spares_code [OF area, of 2] area by simp
qed

text \<open>
  C24: with the hook enabled, calling the target arrives at the detour, through the long jump
  in the prolog or through the short jump and the long jump above the function.
\<close>

theorem x86_hook_reaches_detour:
  fixes target :: "'u::len word"
  assumes "LENGTH('u) = 32 \<or> LENGTH('u) = 64"
    and "x86_patcher_new query m target detour n = Ok p" "patcher_toggle p True m1 = Ok m2"
  shows "x86_runs_to m2 target detour"
  using x86_patcher.toggle_on_reaches [OF assms(2) _ assms(3)] assms(1) by (simp add: x86_usize_def)

theorem x86_hook_reaches_detour_witness:
  "let m = write_bytes (\<lambda>_. 0x55) (0x1000 :: u64) [0x90, 0x90, 0x90, 0x90, 0x90, 0x31, 0xC0, 0xC3]
   in x86_runs_to (write_bytes m 0x1000 [0xE9, 0xFB, 0x0F, 0, 0, 0xEB, 0xF9]) 0x1005 0x2000"
proof -
  let ?m = "write_bytes (\<lambda>_. 0x55) (0x1000 :: u64) [0x90, 0x90, 0x90, 0x90, 0x90, 0x31, 0xC0, 0xC3]"
  let ?q = "(\<lambda>_. Inr \<lparr>lower = 0, upper = 0x2000, region_protection = [READ, EXECUTE]\<rparr>)
    :: u64 \<Rightarrow> region_error + u64 region"
  let ?p = "\<lparr>area_ptr = 0x1000, area_len = 7,
    original_prolog = read_bytes ?m 0x1000 7,
    detour_prolog = [0xE9, 0xFB, 0x0F, 0, 0, 0xEB, 0xF9]\<rparr>"
  have area: "x86_patch_area ?q ?m 0x1005 3 = Ok (0x1000, 7)"
    by (simp add: x86_patch_area_Ok x86_is_patchable_def x86_is_code_padding_def read_bytes_def
        write_bytes_def is_executable_address_def upt_rec)
  have new: "x86_patcher_new ?q ?m 0x1005 0x2000 3 = Ok ?p"
    by (simp add: x86_patcher_new_Ok area emit_hook_7 jmp_rel32_def relative32_def
        fixed_thunk_new_def size_of_JumpRel_def calculate_displacement_cases is_within_range_def
        x86_DETOUR_RANGE_def clone_from_slice_def u32_le_def)
  have "patcher_toggle ?p True ?m = Ok (write_bytes ?m 0x1000 [0xE9, 0xFB, 0x0F, 0, 0, 0xEB, 0xF9])"
    by (simp add: patcher_toggle_def copy_from_slice_def)
  then show ?thesis
    using x86_hook_reaches_detour [OF _ new, of ?m] by simp
qed

text \<open>
  The relay is decided on \<^verbatim>\<open>target - detour\<close>, the jump is encoded with
  \<^verbatim>\<open>detour - (target + 5)\<close>. For the four distances at the end of the range no relay is built
  although the jump cannot be encoded, and building the patcher panics.
\<close>

lemma x86_patcher_new_long_jump:
  fixes target detour :: u64
  assumes "5 \<le> n"
  shows "x86_patcher_new query m target detour n = Panic \<longleftrightarrow>
    \<not> is_within_range x86_DETOUR_RANGE (detour - (target + 5))"
  using assms
  by (simp add: x86_patcher_new_def x86_patch_area_def Let_def size_of_JumpRel_def x86_is_patchable_def
      emit_hook_5 jmp_rel32_def relative32_def fixed_thunk_new_def calculate_displacement_cases
      target_x86_64_def clone_from_slice_def)

text \<open>C30: exactly the distances at which no relay is built and the patcher panics.\<close>

theorem x86_relay_gap:
  fixes target detour :: u64
  assumes "5 \<le> n"
  shows "x86_relay_builder target detour = Ok None \<and> x86_patcher_new query m target detour n = Panic
    \<longleftrightarrow> 0x7FFFFFFC \<le> sint (target - detour) \<and> sint (target - detour) < 0x80000000"
proof -
  define d where "d = sint (target - detour)"
  have none: "x86_relay_builder target detour = Ok None \<longleftrightarrow> - 0x80000000 \<le> d \<and> d < 0x80000000"
    by (simp add: x86_relay_builder_def Let_def target_x86_64_def is_within_range_def
        x86_DETOUR_RANGE_def d_def)
  have disp: "detour - (target + 5) = word_of_int (- d - 5)"
    by (simp add: d_def)
  have "sint (detour - (target + 5)) = - d - 5" if "- 0x80000000 \<le> d" "d < 0x80000000"
    unfolding disp using that by (intro sint_word_of_int_u64) simp_all
  then show ?thesis
    unfolding x86_patcher_new_long_jump [OF assms] none is_within_range_def x86_DETOUR_RANGE_def
      d_def [symmetric]
    by auto
qed

theorem x86_relay_gap_witness:
  "x86_relay_builder (0x7FFF80000000 :: u64) 0x7FFF00000001 = Ok None
    \<and> x86_patcher_new (\<lambda>_. Inl FreeMemory) (\<lambda>_. 0x90) (0x7FFF80000000 :: u64) 0x7FFF00000001 5 = Panic"
  by (simp add: x86_relay_gap)

end
