(* ===== verification/X86_Trampoline.thy ===== *)
theory X86_Trampoline
  imports X86_Patcher
begin

text \<open>
  \<^verbatim>\<open>src/arch/x86/trampoline\<close>: the classification of instructions and the builder that
  relocates the prolog. The disassembler is the third-party crate \<^verbatim>\<open>iced_x86\<close>, a parameter:
  \<open>decoder\<close> maps the bitness, a byte slice and its address to the instructions its iterator
  yields. An instruction is what the source asks of one.
\<close>

section \<open>Instructions, as the source queries them\<close>

text \<open>
  The mnemonics the source names, the remaining loop mnemonic \<^verbatim>\<open>Jrcxz\<close> of the crate, and an
  opaque rest; likewise for operand kinds and registers.
\<close>

datatype mnemonic =
    Loop | Loope | Loopne | Jecxz | Jcxz | Jrcxz | Jmp | Call | Ret | OtherMnemonic nat

datatype op_kind = NearBranch16 | NearBranch32 | NearBranch64 | OpMemory | OtherOpKind nat

datatype register = RIP | OtherRegister nat

record instruction =
  ip :: u64
  insn_len :: nat
  next_ip :: u64
  is_invalid :: bool
  mnemonic :: mnemonic
  op_kinds :: "op_kind list"
  near_branch_target :: u64
  memory_base :: register
  memory_displacement64 :: u64

type_synonym decoder = "nat \<Rightarrow> u8 list \<Rightarrow> u64 \<Rightarrow> instruction list"

text \<open>\<^verbatim>\<open>op0_kind()\<close> is the kind of the first operand, when there is one.\<close>

definition relative_branch_target :: "instruction \<Rightarrow> u64 option" where
  "relative_branch_target i =
     (case op_kinds i of
        k # _ \<Rightarrow> if k \<in> {NearBranch16, NearBranch32, NearBranch64}
                 then Some (near_branch_target i) else None
      | [] \<Rightarrow> None)"

definition rip_operand_target :: "instruction \<Rightarrow> u64 option" where
  "rip_operand_target i =
     map_option (\<lambda>_. memory_displacement64 i)
       (find (\<lambda>op. op = OpMemory \<and> memory_base i = RIP) (op_kinds i))"

definition is_loop :: "instruction \<Rightarrow> bool" where
  "is_loop i \<longleftrightarrow> mnemonic i \<in> {Loop, Loope, Loopne, Jecxz, Jcxz}"

definition is_unconditional_jump :: "instruction \<Rightarrow> bool" where
  "is_unconditional_jump i \<longleftrightarrow> mnemonic i = Jmp"

definition is_call :: "instruction \<Rightarrow> bool" where
  "is_call i \<longleftrightarrow> mnemonic i = Call"

definition is_return :: "instruction \<Rightarrow> bool" where
  "is_return i \<longleftrightarrow> mnemonic i = Ret"

section \<open>Processing one instruction\<close>

definition is_instruction_in_branch :: "'u::len word builder \<Rightarrow> instruction \<Rightarrow> bool" where
  "is_instruction_in_branch b i =
     (case branch_address b of None \<Rightarrow> False | Some offset \<Rightarrow> ip i < ucast offset)"

text \<open>The closure of the RIP-relative thunk; \<open>offset\<close> is the address it is generated for.\<close>

definition rip_thunk_code ::
  "'u::len word \<Rightarrow> 'u word \<Rightarrow> u8 list \<Rightarrow> 'u word \<Rightarrow> u8 list res" where
  "rip_thunk_code instruction_address displacement instruction_bytes offset =
     (let adjusted_displacement = instruction_address - offset + displacement in
      if \<not> is_within_range x86_DETOUR_RANGE adjusted_displacement then Panic
      else if length instruction_bytes < 4 then Panic
      else let index = length instruction_bytes - 4 in
        Ok (take index instruction_bytes @ u32_le (ucast adjusted_displacement)))"

definition handle_rip_relative_instruction ::
  "'u::len word builder \<Rightarrow> instruction \<Rightarrow> u8 list \<Rightarrow> 'u word \<Rightarrow> ('u word thunk \<times> 'u word builder) res" where
  "handle_rip_relative_instruction b i instruction_bytes target =
     (let displacement = target - ucast (ip i) - of_nat (insn_len i);
          b = b\<lparr>finished := is_unconditional_jump i\<rparr> in
      if - int (total_bytes b) \<le> sint displacement \<and> sint displacement < 0
      then Ok (VecThunk instruction_bytes, b)
      else Ok (unsafe_thunk_new (rip_thunk_code (ucast (ip i)) displacement instruction_bytes)
                 (insn_len i), b))"

definition handle_relative_branch ::
  "'u::len word builder \<Rightarrow> instruction \<Rightarrow> u8 list \<Rightarrow> 'u word \<Rightarrow> ('u word thunk \<times> 'u word builder) res" where
  "handle_relative_branch b i instruction_bytes destination_address_abs =
     (if is_call i then Ok (x86_call destination_address_abs, b)
      else if in_range (prolog_range b) destination_address_abs then
        Ok (VecThunk instruction_bytes, b\<lparr>branch_address := Some destination_address_abs\<rparr>)
      else if is_loop i then Err UnsupportedInstruction
      else if is_unconditional_jump i then
        Ok (x86_jmp destination_address_abs, b\<lparr>finished := \<not> is_instruction_in_branch b i\<rparr>)
      else case find (\<lambda>op. op \<noteq> 0x0F) instruction_bytes of
             None \<Rightarrow> Panic
           | Some primary_opcode \<Rightarrow>
               Ok (x86_jcc destination_address_abs (primary_opcode AND 0x0F), b))"

definition process_instruction ::
  "'u::len word builder \<Rightarrow> instruction \<Rightarrow> u8 list \<Rightarrow> ('u word thunk \<times> 'u word builder) res" where
  "process_instruction b i instruction_bytes =
     (case rip_operand_target i of
        Some target \<Rightarrow> handle_rip_relative_instruction b i instruction_bytes (ucast target)
      | None \<Rightarrow> (case relative_branch_target i of
          Some target \<Rightarrow> handle_relative_branch b i instruction_bytes (ucast target)
        | None \<Rightarrow>
            Ok (VecThunk instruction_bytes,
                if is_return i then b\<lparr>finished := \<not> is_instruction_in_branch b i\<rparr> else b)))"

section \<open>Building the trampoline\<close>

text \<open>The \<^verbatim>\<open>for\<close> loop over the decoder; \<open>code_slice\<close> is the code it decodes.\<close>

fun x86_build_loop ::
  "u8 list \<Rightarrow> instruction list \<Rightarrow> 'u::len word builder \<Rightarrow> 'u word code_emitter
     \<Rightarrow> ('u word builder \<times> 'u word code_emitter) res" where
  "x86_build_loop code_slice [] b emitter = Ok (b, emitter)"
| "x86_build_loop code_slice (i # rest) b emitter =
     (if is_invalid i then Ok (b, emitter)
      else
        let b = b\<lparr>total_bytes := total_bytes b + insn_len i\<rparr>;
            instr_offset = unat (ucast (ip i) - b_target b) in
        if instr_offset + insn_len i > length code_slice then Panic
        else
          res_bind (process_instruction b i (take (insn_len i) (drop instr_offset code_slice)))
            (\<lambda>(thunk, b).
              if is_instruction_in_branch b i \<and> insn_len i \<noteq> thunk_len thunk
              then Err UnsupportedInstruction
              else
                let emitter = add_thunk emitter thunk;
                    margin_met = total_bytes b \<ge> margin b \<and> \<not> finished b;
                    emitter = (if margin_met then add_thunk emitter (x86_jmp (ucast (next_ip i)))
                               else emitter);
                    b = (if margin_met then b\<lparr>finished := True\<rparr> else b) in
                if finished b then Ok (b, emitter) else x86_build_loop code_slice rest b emitter))"

definition x86_build ::
  "decoder \<Rightarrow> 'u::len mem \<Rightarrow> 'u word builder \<Rightarrow> 'u word trampoline res" where
  "x86_build decoder m b =
     (let code_slice = read_bytes m (b_target b) (margin b + 15);
          instructions = decoder LENGTH('u) code_slice (ucast (b_target b)) in
      res_bind (x86_build_loop code_slice instructions b emitter_new) (\<lambda>(b, emitter).
        Ok \<lparr>tramp_emitter = emitter, tramp_prolog_size = total_bytes b\<rparr>))"

definition x86_trampoline_new ::
  "decoder \<Rightarrow> 'u::len mem \<Rightarrow> 'u word \<Rightarrow> nat \<Rightarrow> 'u word trampoline res" where
  "x86_trampoline_new decoder m target k = x86_build decoder m (builder_new target k)"

section \<open>What becomes of one instruction\<close>

text \<open>
  What an instruction must become, for a prolog of \<open>k\<close> bytes at \<open>target\<close> of which \<open>n\<close>, this
  instruction included, have been read. A RIP-relative operand is adjusted, unless it refers back
  into those bytes; a call, jump or conditional jump goes to the very destination of the original,
  on the condition its opcode names, unless the destination lies in the prolog; everything else is
  copied. A loop out of the prolog becomes nothing.
\<close>

definition primary_condition :: "u8 list \<Rightarrow> u8 \<Rightarrow> bool" where
  "primary_condition bytes c \<longleftrightarrow> (\<exists>xs p ys. bytes = xs @ p # ys \<and> set xs \<subseteq> {0x0F} \<and> p \<noteq> 0x0F \<and> c = p AND 0x0F)"

definition relocated ::
  "'u::len word \<Rightarrow> nat \<Rightarrow> nat \<Rightarrow> u8 list \<Rightarrow> instruction \<Rightarrow> 'u word thunk \<Rightarrow> bool" where
  "relocated target k n bytes i t \<longleftrightarrow> (case (rip_operand_target i, relative_branch_target i) of
     (Some d, _) \<Rightarrow>
       let displacement = ucast d - (ucast (ip i) + of_nat (insn_len i)) in
       if - int n \<le> sint displacement \<and> sint displacement < 0 then t = VecThunk bytes
       else t = UnsafeThunk (rip_thunk_code (ucast (ip i)) displacement bytes) (insn_len i)
   | (None, Some d) \<Rightarrow>
       if mnemonic i = Call then t = x86_call (ucast d)
       else if target \<le> ucast d \<and> ucast d < target + of_nat k then t = VecThunk bytes
       else mnemonic i \<notin> {Loop, Loope, Loopne, Jecxz, Jcxz}
         \<and> (if mnemonic i = Jmp then t = x86_jmp (ucast d)
            else \<exists>c. primary_condition bytes c \<and> t = x86_jcc (ucast d) c)
   | (None, None) \<Rightarrow> t = VecThunk bytes)"

text \<open>A prolog becomes the thunks of its instructions, in order.\<close>

definition insn_bytes :: "u8 list \<Rightarrow> 'u::len word \<Rightarrow> instruction \<Rightarrow> u8 list" where
  "insn_bytes code target i = take (insn_len i) (drop (unat (ucast (ip i) - target)) code)"

fun relocates ::
  "'u::len word \<Rightarrow> nat \<Rightarrow> u8 list \<Rightarrow> nat \<Rightarrow> instruction list \<Rightarrow> 'u word thunk list \<Rightarrow> bool" where
  "relocates target k code n [] [] \<longleftrightarrow> True"
| "relocates target k code n (i # used) (t # ts) \<longleftrightarrow> \<not> is_invalid i
     \<and> relocated target k (n + insn_len i) (insn_bytes code target i) i t
     \<and> relocates target k code (n + insn_len i) used ts"
| "relocates target k code n [] (t # ts) \<longleftrightarrow> False"
| "relocates target k code n (i # used) [] \<longleftrightarrow> False"

text \<open>Branches into the prolog, and instructions that leave the function for good.\<close>

definition internal_branch :: "'u::len word \<Rightarrow> nat \<Rightarrow> instruction \<Rightarrow> bool" where
  "internal_branch target k i \<longleftrightarrow> rip_operand_target i = None \<and> \<not> is_call i
     \<and> (\<exists>d. relative_branch_target i = Some d \<and> in_range (target, target + of_nat k) (ucast d))"

definition leaves_function :: "instruction \<Rightarrow> bool" where
  "leaves_function i \<longleftrightarrow>
     is_unconditional_jump i \<and> (rip_operand_target i \<noteq> None \<or> relative_branch_target i \<noteq> None)
   \<or> is_return i \<and> rip_operand_target i = None \<and> relative_branch_target i = None"

lemma and_0F_less_16: "(x :: u8) AND 0x0F < 16"
proof -
  have "x AND 0x0F \<le> 0x0F" by (rule word_and_le1)
  then show ?thesis by (rule le_less_trans) simp
qed

lemma handle_relative_branch_frame:
  "handle_relative_branch b i bs d = Ok (t, b') \<Longrightarrow>
     b_target b' = b_target b \<and> margin b' = margin b \<and> total_bytes b' = total_bytes b
     \<and> (finished b' \<longrightarrow> finished b \<or> is_unconditional_jump i)
     \<and> (branch_address b' = branch_address b \<or> \<not> is_call i \<and> in_range (prolog_range b) d)
     \<and> (is_unconditional_jump i \<longrightarrow> finished b' \<or> branch_address b' \<noteq> None)"
  by (auto simp: handle_relative_branch_def is_instruction_in_branch_def is_unconditional_jump_def is_call_def
      split: if_splits option.splits)

lemma process_instruction_frame:
  assumes "process_instruction b i bs = Ok (t, b')"
  shows "b_target b' = b_target b" "margin b' = margin b" "total_bytes b' = total_bytes b"
    and "finished b' \<Longrightarrow> finished b \<or> leaves_function i"
    and "branch_address b' = branch_address b \<or> internal_branch (b_target b) (margin b) i"
    and "leaves_function i \<Longrightarrow> finished b' \<or> branch_address b' \<noteq> None"
  using assms handle_relative_branch_frame [of b i bs _ t b']
  by (auto simp: process_instruction_def handle_rip_relative_instruction_def leaves_function_def
      internal_branch_def prolog_range_def is_instruction_in_branch_def Let_def
      is_unconditional_jump_def is_return_def split: option.splits if_splits)

lemma find_primary_condition:
  assumes "find (\<lambda>op. op \<noteq> 0x0F) bytes = Some p"
  shows "primary_condition bytes (p AND 0x0F)"
proof -
  obtain i where i: "i < length bytes" "bytes ! i \<noteq> 0x0F" "p = bytes ! i" "\<forall>j < i. \<not> bytes ! j \<noteq> 0x0F"
    using assms unfolding find_Some_iff by blast
  then have "bytes = take i bytes @ p # drop (Suc i) bytes" by (simp add: id_take_nth_drop)
  moreover have "set (take i bytes) \<subseteq> {0x0F}" using i(1,4) by (auto simp: in_set_conv_nth)
  ultimately show ?thesis using i(2,3) unfolding primary_condition_def by blast
qed

lemma process_instruction_relocated:
  assumes "process_instruction b i bs = Ok (t, b')"
  shows "relocated (b_target b) (margin b) (total_bytes b) bs i t"
  using assms find_primary_condition [of bs]
  by (auto simp: process_instruction_def handle_rip_relative_instruction_def handle_relative_branch_def
      relocated_def Let_def unsafe_thunk_new_def diff_diff_eq in_range_def prolog_range_def is_call_def is_loop_def
      is_unconditional_jump_def split: option.splits if_splits)

lemma process_instruction_error:
  "process_instruction b i bs = Err e \<Longrightarrow> e = UnsupportedInstruction"
  by (auto simp: process_instruction_def handle_rip_relative_instruction_def handle_relative_branch_def
      Let_def split: option.splits if_splits)

section \<open>The shape of a trampoline\<close>

text \<open>
  What the decoder documents: consecutive instructions, each starting where the one before
  ends.
\<close>

fun stream_from :: "u64 \<Rightarrow> instruction list \<Rightarrow> bool" where
  "stream_from a [] = True"
| "stream_from a (i # is) \<longleftrightarrow> ip i = a \<and> next_ip i = a + of_nat (insn_len i) \<and> stream_from (next_ip i) is"

text \<open>
  The end of the trampoline of the instructions \<open>used\<close>: a jump behind them once \<open>k\<close> bytes are
  covered, unless the last of them leaves the function outside of a branch (\<open>br\<close>: into the prolog,
  before them); or nothing because the last of them leaves the function; or nothing because the
  decoder gave up before that.
\<close>

definition tramp_tail ::
  "bool \<Rightarrow> 'u::len word \<Rightarrow> instruction list \<Rightarrow> instruction list \<Rightarrow> u64 \<Rightarrow> nat \<Rightarrow> nat \<Rightarrow> 'u word thunk list \<Rightarrow> bool" where
  "tramp_tail br target used rest a k n tail \<longleftrightarrow>
     tail = [x86_jmp (ucast (a + of_nat (sum_list (map insn_len used))))] \<and> used \<noteq> [] \<and> k \<le> n
       \<and> (leaves_function (last used) \<longrightarrow> br \<or> (\<exists>i \<in> set used. internal_branch target k i))
   \<or> tail = [] \<and> used \<noteq> [] \<and> leaves_function (last used)
   \<or> tail = [] \<and> (rest = [] \<or> is_invalid (hd rest)) \<and> n < k"

lemma tramp_tail_Cons:
  assumes "tramp_tail br' target used rest (a + of_nat (insn_len i)) k n tail"
    and "br' \<Longrightarrow> br \<or> internal_branch target k i"
  shows "tramp_tail br target (i # used) rest a k n tail"
  using assms by (auto simp: tramp_tail_def add.assoc)

lemma x86_build_loop_step:
  fixes b :: "'u::len word builder"
  assumes "\<not> is_invalid i"
    and step: "process_instruction (b\<lparr>total_bytes := total_bytes b + insn_len i\<rparr>) i (insn_bytes code (b_target b) i) = Ok (t, b1)"
  shows "x86_build_loop code (i # rest) b e =
    (if unat (ucast (ip i) - b_target b) + insn_len i > length code then Panic
     else if is_instruction_in_branch b1 i \<and> insn_len i \<noteq> thunk_len t then Err UnsupportedInstruction
     else if finished b1 then Ok (b1, add_thunk e t)
     else if margin b1 \<le> total_bytes b1
       then Ok (b1\<lparr>finished := True\<rparr>, add_thunk (add_thunk e t) (x86_jmp (ucast (next_ip i))))
     else x86_build_loop code rest b1 (add_thunk e t))"
  using assms by (simp add: Let_def insn_bytes_def)

lemma x86_build_loop_shape:
  fixes b :: "'u::len word builder"
  assumes "x86_build_loop code is b e = Ok (b', e')" "\<not> finished b" "stream_from a is"
    and "total_bytes b < margin b"
  shows "\<exists>used rest ts tail. is = used @ rest
    \<and> relocates (b_target b) (margin b) code (total_bytes b) used ts
    \<and> thunks e' = thunks e @ ts @ tail
    \<and> total_bytes b' = total_bytes b + sum_list (map insn_len used)
    \<and> total_bytes b + sum_list (map insn_len (butlast used)) < margin b
    \<and> tramp_tail (branch_address b \<noteq> None) (b_target b) used rest a (margin b) (total_bytes b') tail"
  using assms
proof (induction "is" arbitrary: b e a)
  case Nil
  then show ?case
    by (intro exI [of _ "[]"]) (simp add: tramp_tail_def)
next
  case (Cons i rest)
  show ?case
  proof (cases "is_invalid i")
    case True
    with Cons.prems show ?thesis
      by (intro exI [of _ "[]"] exI [of _ "i # rest"] exI [of _ "[] :: 'u word thunk list"])
         (simp add: tramp_tail_def)
  next
    case False
    let ?b = "b\<lparr>total_bytes := total_bytes b + insn_len i\<rparr>"
    let ?bs = "insn_bytes code (b_target b) i"
    obtain t b1 where step: "process_instruction ?b i ?bs = Ok (t, b1)"
      using Cons.prems(1) False by (auto simp: Let_def insn_bytes_def split: if_splits)
    note loop = Cons.prems(1) [unfolded x86_build_loop_step [OF False step]]
    note frame = process_instruction_frame(1-3) [OF step, simplified]
    note fin = process_instruction_frame(4) [OF step, simplified]
    note branch = process_instruction_frame(5) [OF step, simplified]
    note leaves = process_instruction_frame(6) [OF step, simplified]
    have one: "relocates (b_target b) (margin b) code (total_bytes b) (i # used) (t # ts)"
      if "relocates (b_target b) (margin b) code (total_bytes b + insn_len i) used ts" for used ts
      using that False process_instruction_relocated [OF step] by simp
    have a: "ip i = a" "next_ip i = a + of_nat (insn_len i)" "stream_from (a + of_nat (insn_len i)) rest"
      using Cons.prems(3) by auto
    consider (full) "margin b1 \<le> total_bytes b1" "\<not> finished b1"
        "b' = b1\<lparr>finished := True\<rparr>" "e' = add_thunk (add_thunk e t) (x86_jmp (ucast (next_ip i)))"
      | (terminated) "finished b1" "b' = b1" "e' = add_thunk e t"
      | (more) "\<not> finished b1" "total_bytes b1 < margin b1" "x86_build_loop code rest b1 (add_thunk e t) = Ok (b', e')"
      using loop by (cases "finished b1"; cases "margin b1 \<le> total_bytes b1")
        (auto split: if_splits)
    then show ?thesis
    proof cases
      case full
      have "tramp_tail (branch_address b \<noteq> None) (b_target b) [i] rest a (margin b) (total_bytes b')
          [x86_jmp (ucast (next_ip i))]"
        using full a frame branch leaves by (auto simp: tramp_tail_def)
      then show ?thesis
        using full frame one [of "[]" "[]"] Cons.prems(4)
        by (intro exI [of _ "[i]"] exI [of _ rest] exI [of _ "[t]"]
            exI [of _ "[x86_jmp (ucast (next_ip i))]"]) simp
    next
      case terminated
      with frame fin one [of "[]" "[]"] Cons.prems(2,4) show ?thesis
        by (intro exI [of _ "[i]"] exI [of _ rest] exI [of _ "[t]"] exI [of _ "[]"])
           (auto simp: tramp_tail_def)
    next
      case more
      from Cons.IH [OF more(3,1) a(3) more(2)] obtain used rest' ts tail where rest: "rest = used @ rest'"
        and ts: "relocates (b_target b) (margin b) code (total_bytes b + insn_len i) used ts"
        and e': "thunks e' = thunks (add_thunk e t) @ ts @ tail"
        and n: "total_bytes b' = total_bytes b1 + sum_list (map insn_len used)"
          "total_bytes b1 + sum_list (map insn_len (butlast used)) < margin b1"
        and tail: "tramp_tail (branch_address b1 \<noteq> None) (b_target b) used rest' (a + of_nat (insn_len i)) (margin b)
          (total_bytes b') tail"
        unfolding frame by blast
      have "tramp_tail (branch_address b \<noteq> None) (b_target b) (i # used) rest' a (margin b) (total_bytes b') tail"
        using branch by (intro tramp_tail_Cons [OF tail]) auto
      then show ?thesis
        using rest e' n frame one [OF ts] Cons.prems(4)
        by (intro exI [of _ "i # used"] exI [of _ rest'] exI [of _ "t # ts"] exI [of _ tail]) simp
    qed
  qed
qed

section \<open>Properties\<close>

lemma x86_trampoline_new_loop:
  assumes "x86_trampoline_new decoder m target k = Ok tr"
  obtains b' where "x86_build_loop (read_bytes m target (k + 15))
      (decoder LENGTH('u::len) (read_bytes m target (k + 15)) (ucast target))
      (builder_new (target :: 'u word) k) emitter_new = Ok (b', tramp_emitter tr)"
    and "tramp_prolog_size tr = total_bytes b'"
  using assms by (auto simp: x86_trampoline_new_def x86_build_def Let_def)

lemma x86_trampoline_parts:
  fixes target :: "'u::len word"
  defines "code \<equiv> \<lambda>m k. read_bytes m target (k + 15)"
  assumes "x86_trampoline_new decoder m target k = Ok tr" "0 < k"
    and "stream_from (ucast target) (decoder LENGTH('u) (code m k) (ucast target))"
  shows "\<exists>used rest ts tail. decoder LENGTH('u) (code m k) (ucast target) = used @ rest
    \<and> relocates target k (code m k) 0 used ts
    \<and> thunks (tramp_emitter tr) = ts @ tail
    \<and> tramp_prolog_size tr = sum_list (map insn_len used)
    \<and> sum_list (map insn_len (butlast used)) < k
    \<and> tramp_tail False target used rest (ucast target) k (tramp_prolog_size tr) tail"
proof -
  from assms(2) obtain b' where loop: "x86_build_loop (code m k)
      (decoder LENGTH('u) (code m k) (ucast target)) (builder_new target k) emitter_new
        = Ok (b', tramp_emitter tr)" and size: "tramp_prolog_size tr = total_bytes b'"
    unfolding code_def by (rule x86_trampoline_new_loop)
  show ?thesis
    using x86_build_loop_shape [OF loop _ assms(4)] assms(3) size by simp
qed


text \<open>The procedure of the crate's documentation: \<^verbatim>\<open>mov eax, 5; ret\<close> at \<^verbatim>\<open>0x400020\<close>.\<close>

definition return_five_insns :: "instruction list" where
  "return_five_insns =
     [\<lparr>ip = 0x400020, insn_len = 5, next_ip = 0x400025, is_invalid = False,
        mnemonic = OtherMnemonic 0, op_kinds = [OtherOpKind 0, OtherOpKind 1],
        near_branch_target = 0, memory_base = OtherRegister 0, memory_displacement64 = 0\<rparr>,
      \<lparr>ip = 0x400025, insn_len = 1, next_ip = 0x400026, is_invalid = False,
        mnemonic = Ret, op_kinds = [],
        near_branch_target = 0, memory_base = OtherRegister 0, memory_displacement64 = 0\<rparr>]"

definition return_five_mem :: "64 mem" where
  "return_five_mem = write_bytes (\<lambda>_. 0xCC) 0x400020 [0xB8, 5, 0, 0, 0, 0xC3]"

lemma return_five_trampoline:
  "x86_trampoline_new (\<lambda>_ _ _. return_five_insns) return_five_mem 0x400020 5 =
     Ok \<lparr>tramp_emitter = \<lparr>thunks = [VecThunk [0xB8, 5, 0, 0, 0], x86_jmp 0x400025]\<rparr>,
         tramp_prolog_size = 5\<rparr>"
  by (simp add: x86_trampoline_new_def x86_build_def Let_def return_five_insns_def return_five_mem_def
      process_instruction_def rip_operand_target_def relative_branch_target_def is_return_def
      is_instruction_in_branch_def add_thunk_def emitter_new_def read_bytes_def write_bytes_def upt_rec
      builder_new_def)

lemma return_five_stream: "stream_from 0x400020 return_five_insns"
  by (simp add: return_five_insns_def)


text \<open>The closing jump, when there is one, arrives behind the prolog wherever the code is placed.\<close>

lemma x86_trampoline_closing:
  fixes target :: "'u::len word"
  defines "code_bytes \<equiv> \<lambda>m k. read_bytes m target (k + 15)"
  assumes "LENGTH('u) = 32 \<or> LENGTH('u) = 64" "0 < k"
    and "x86_trampoline_new decoder m target k = Ok tr"
    and "stream_from (ucast target) (decoder LENGTH('u) (code_bytes m k) (ucast target))"
    and "emit (tramp_emitter tr) base = Ok code" "code_at m' base code"
  shows "\<exists>used rest ts tail. decoder LENGTH('u) (code_bytes m k) (ucast target) = used @ rest
    \<and> relocates target k (code_bytes m k) 0 used ts
    \<and> thunks (tramp_emitter tr) = ts @ tail
    \<and> tramp_prolog_size tr = sum_list (map insn_len used)
    \<and> sum_list (map insn_len (butlast used)) < k
    \<and> tramp_tail False target used rest (ucast target) k (tramp_prolog_size tr) tail
    \<and> (tail \<noteq> [] \<longrightarrow> x86_runs_to m' (base + of_nat (sum_list (map thunk_len ts)))
        (target + of_nat (tramp_prolog_size tr)))"
proof -
  obtain used rest ts tail where parts: "decoder LENGTH('u) (code_bytes m k) (ucast target) = used @ rest"
      "relocates target k (code_bytes m k) 0 used ts" "thunks (tramp_emitter tr) = ts @ tail"
      "tramp_prolog_size tr = sum_list (map insn_len used)"
      "sum_list (map insn_len (butlast used)) < k"
      "tramp_tail False target used rest (ucast target) k (tramp_prolog_size tr) tail"
    using x86_trampoline_parts [OF assms(4,3)] assms(5) unfolding code_bytes_def by blast
  have "x86_runs_to m' (base + of_nat (sum_list (map thunk_len ts))) (target + of_nat (tramp_prolog_size tr))"
    if "tail \<noteq> []"
  proof -
    have "ucast (ucast target + of_nat n :: u64) = target + of_nat n" for n
      using assms(2) by (intro ucast_add_trunc) auto
    then have "thunks (tramp_emitter tr) = ts @ [x86_jmp (target + of_nat (tramp_prolog_size tr))]"
      using parts(3,4,6) that by (auto simp: tramp_tail_def)
    moreover have "x86_usize TYPE('u)" using assms(2) by (simp add: x86_usize_def)
    ultimately show ?thesis using x86_jmp.closing_jump_lands assms(6,7) by blast
  qed
  then show ?thesis using parts by blast
qed

text \<open>What the closure of a RIP-relative thunk generates.\<close>

lemma rip_thunk_out:
  fixes offset :: u64
  assumes "process_instruction b i bytes = Ok (UnsafeThunk f n, b')" "rip_operand_target i = Some d"
    and "length bytes = insn_len i" "f offset = Ok out"
  shows "out = take (insn_len i - 4) bytes @ u32_le (ucast (d - of_nat (insn_len i) - offset))"
    and "4 \<le> insn_len i"
    and "scast (ucast (d - of_nat (insn_len i) - offset) :: u32) = d - of_nat (insn_len i) - offset"
proof -
  let ?adj = "d - of_nat (insn_len i) - offset"
  have adj: "ip i - offset + (d - ip i - of_nat (insn_len i)) = ?adj" by simp
  have f: "f = rip_thunk_code (ip i) (d - ip i - of_nat (insn_len i)) bytes"
    using assms(1,2) by (auto simp: process_instruction_def handle_rip_relative_instruction_def
        Let_def unsafe_thunk_new_def split: if_splits)
  have range: "is_within_range x86_DETOUR_RANGE ?adj"
    and out: "4 \<le> insn_len i" "out = take (insn_len i - 4) bytes @ u32_le (ucast ?adj)"
    using assms(3,4) unfolding f rip_thunk_code_def Let_def adj
    by (auto split: if_splits)
  show "out = take (insn_len i - 4) bytes @ u32_le (ucast ?adj)" "4 \<le> insn_len i" by (rule out)+
  show "scast (ucast ?adj :: u32) = ?adj"
    using range by (intro scast_ucast_narrow) (simp_all add: is_within_range_def x86_DETOUR_RANGE_def)
qed

text \<open>
  C25: an instruction that ends in the displacement of its RIP-relative operand (an opcode with its
  prefixes and ModR/M byte, then the displacement, no immediate) keeps its opcode, and its new
  displacement, read from the memory it is placed in, refers to the original operand.
\<close>

theorem x86_rip_operand_relocated:
  fixes offset :: u64
  assumes "process_instruction b i bytes = Ok (UnsafeThunk f n, b')" "rip_operand_target i = Some d"
    and "bytes = opcode @ u32_le disp" "length bytes = insn_len i"
    and "f offset = Ok out" "code_at m offset out"
  shows "\<exists>disp'. out = opcode @ u32_le disp'
    \<and> fetch32 m (offset + of_nat (length opcode)) = disp'
    \<and> offset + of_nat (insn_len i) + scast disp' = d"
proof -
  let ?disp = "ucast (d - of_nat (insn_len i) - offset) :: u32"
  note out = rip_thunk_out [OF assms(1,2,4,5)]
  have len: "insn_len i = length opcode + 4" using assms(3,4) by simp
  then have shape: "out = opcode @ u32_le ?disp" using out(1) assms(3) by simp
  then have "fetch32 m (offset + of_nat (length opcode)) = ?disp"
    using assms(6) by (intro code_at_u32) simp
  moreover have "offset + of_nat (insn_len i) + scast ?disp = d" using out(3) by simp
  ultimately show ?thesis using shape by blast
qed

text \<open>\<^verbatim>\<open>mov al, [rip+0x3]\<close> at \<^verbatim>\<open>0x1002\<close>, of the crate's own test, moved to \<^verbatim>\<open>0x5000\<close>.\<close>

definition rip_insn :: "nat \<Rightarrow> u64 \<Rightarrow> instruction" where
  "rip_insn n d = \<lparr>ip = 0x1002, insn_len = n, next_ip = 0x1002 + of_nat n, is_invalid = False,
     mnemonic = OtherMnemonic 0, op_kinds = [OtherOpKind 0, OpMemory], near_branch_target = 0,
     memory_base = RIP, memory_displacement64 = d\<rparr>"

lemma rip_insn_target: "rip_operand_target (rip_insn n d) = Some d"
  by (simp add: rip_insn_def rip_operand_target_def)

lemma rip_insn_step:
  assumes "0 < sint (d - 0x1002 - of_nat n)"
  shows "process_instruction (builder_new (0x1000 :: u64) 5) (rip_insn n d) bytes =
      Ok (UnsafeThunk (rip_thunk_code 0x1002 (d - 0x1002 - of_nat n) bytes) n, builder_new 0x1000 5)"
  using assms
  by (simp add: process_instruction_def handle_rip_relative_instruction_def Let_def rip_insn_target
      is_unconditional_jump_def unsafe_thunk_new_def builder_new_def)
     (simp add: rip_insn_def)

theorem x86_rip_operand_relocated_witness:
  "\<exists>disp'. [0x8A, 0x05, 0x05, 0xC0, 0xFF, 0xFF] = [0x8A, 0x05] @ u32_le disp'
    \<and> fetch32 (write_bytes (\<lambda>_. 0) (0x5000 :: u64) [0x8A, 0x05, 0x05, 0xC0, 0xFF, 0xFF]) 0x5002 = disp'
    \<and> 0x5000 + 6 + scast disp' = (0x100B :: u64)"
proof -
  let ?bytes = "[0x8A, 0x05] @ u32_le 3" and ?out = "[0x8A, 0x05, 0x05, 0xC0, 0xFF, 0xFF]"
  let ?m = "write_bytes (\<lambda>_. 0) (0x5000 :: u64) ?out"
  have step: "process_instruction (builder_new (0x1000 :: u64) 5) (rip_insn 6 0x100B) ?bytes =
      Ok (UnsafeThunk (rip_thunk_code 0x1002 3 ?bytes) 6, builder_new 0x1000 5)"
    using rip_insn_step [of "0x100B" 6 ?bytes] by simp
  have out: "rip_thunk_code (0x1002 :: u64) 3 ?bytes 0x5000 = Ok ?out"
    by (simp add: rip_thunk_code_def is_within_range_def x86_DETOUR_RANGE_def u32_le_def)
  have at: "code_at ?m 0x5000 ?out" by (rule code_at_write_bytes) simp
  show ?thesis
    using x86_rip_operand_relocated [OF step rip_insn_target refl _ out at] by (simp add: rip_insn_def)
qed

text \<open>
  C26: when an immediate follows the displacement, the adjusted displacement is written over its
  end: the instruction keeps the opcode and the first bytes of the old displacement, as many as
  the immediate has, and the immediate is lost, replaced by the upper bytes of the adjusted
  displacement.
\<close>

theorem x86_rip_immediate_overwritten:
  fixes offset :: u64
  assumes "process_instruction b i bytes = Ok (UnsafeThunk f n, b')" "rip_operand_target i = Some d"
    and "bytes = opcode @ u32_le disp @ imm" "length imm \<le> 4" "length bytes = insn_len i"
    and "f offset = Ok out"
  shows "out = opcode @ take (length imm) (u32_le disp) @ u32_le (ucast (d - of_nat (insn_len i) - offset))
    \<and> drop (insn_len i - length imm) out = drop (4 - length imm) (u32_le (ucast (d - of_nat (insn_len i) - offset)))"
proof -
  note out = rip_thunk_out [OF assms(1,2,5,6)]
  have len: "insn_len i = length opcode + 4 + length imm" using assms(3,5) by simp
  then have "out = opcode @ take (length imm) (u32_le disp) @ u32_le (ucast (d - of_nat (insn_len i) - offset))"
    using out(1) assms(3,4) by simp
  then show ?thesis using assms(4) len by simp
qed

text \<open>
  \<^verbatim>\<open>cmp dword ptr [rip+0x100], 5\<close>, moved to \<^verbatim>\<open>0x5000\<close>: it compares with -1 there, and its displacement
  is \<^verbatim>\<open>0xFFC10200\<close> instead of \<^verbatim>\<open>0xFFFFC102\<close>.
\<close>

theorem x86_rip_immediate_overwritten_witness:
  "rip_thunk_code (0x1002 :: u64) 0x100 [0x83, 0x3D, 0x00, 0x01, 0, 0, 5] 0x5000
    = Ok ([0x83, 0x3D] @ take (length [5 :: u8]) (u32_le 0x100) @ u32_le 0xFFFFC102)
   \<and> drop 6 ([0x83, 0x3D] @ take (length [5 :: u8]) (u32_le 0x100) @ u32_le 0xFFFFC102) = [0xFF]"
proof -
  let ?bytes = "[0x83, 0x3D] @ u32_le 0x100 @ [5]"
  let ?out = "[0x83, 0x3D] @ take (length [5 :: u8]) (u32_le 0x100) @ u32_le 0xFFFFC102"
  have bytes: "?bytes = [0x83, 0x3D, 0x00, 0x01, 0, 0, 5]" by (simp add: u32_le_def)
  have step: "process_instruction (builder_new (0x1000 :: u64) 5) (rip_insn 7 0x1109) ?bytes =
      Ok (UnsafeThunk (rip_thunk_code 0x1002 0x100 ?bytes) 7, builder_new 0x1000 5)"
    using rip_insn_step [of "0x1109" 7 ?bytes] by simp
  obtain out where out: "rip_thunk_code (0x1002 :: u64) 0x100 ?bytes 0x5000 = Ok out"
    by (simp add: rip_thunk_code_def is_within_range_def x86_DETOUR_RANGE_def)
  have low: "ucast (0x1109 - of_nat (insn_len (rip_insn 7 0x1109)) - 0x5000 :: u64) = (0xFFFFC102 :: u32)"
    by (simp add: rip_insn_def)
  have "out = ?out \<and> drop (7 - length [5 :: u8]) out = drop (4 - length [5 :: u8]) (u32_le 0xFFFFC102)"
    using x86_rip_immediate_overwritten [OF step rip_insn_target refl _ _ out, unfolded low]
    by (simp add: rip_insn_def)
  then show ?thesis using out unfolding bytes by (simp add: u32_le_def)
qed

lemma find_primary_opcode:
  "p \<noteq> 0x0F \<Longrightarrow> find (\<lambda>op. op \<noteq> (0x0F :: u8)) (p # bs) = Some p"
  "p \<noteq> 0x0F \<Longrightarrow> find (\<lambda>op. op \<noteq> (0x0F :: u8)) (0x0F # p # bs) = Some p"
  by simp_all

lemma nibble_of_condition:
  "c < 16 \<Longrightarrow> (0x70 OR c) AND 0x0F = (c :: u8) \<and> 0x70 OR c \<noteq> 0x0F
     \<and> (0x80 OR c) AND 0x0F = c \<and> 0x80 OR c \<noteq> 0x0F"
  by (drule nibble_cases, elim insertE emptyE; simp)

lemma process_far_jcc:
  assumes "rip_operand_target i = None" "relative_branch_target i = Some d"
    and "\<not> is_call i" "\<not> is_loop i" "\<not> is_unconditional_jump i"
    and "\<not> in_range (prolog_range b) (ucast d)"
  shows "process_instruction b i bytes =
    (case find (\<lambda>op. op \<noteq> 0x0F) bytes of None \<Rightarrow> Panic
     | Some p \<Rightarrow> Ok (x86_jcc (ucast d) (p AND 0x0F), b))"
  using assms by (simp add: process_instruction_def handle_relative_branch_def)

text \<open>
  C27: a conditional branch out of the prolog, in its short or its long encoding, becomes the
  conditional thunk of the same condition to the same destination.
\<close>

theorem x86_far_branch_keeps_condition:
  assumes "rip_operand_target i = None" "relative_branch_target i = Some d"
    and "\<not> is_call i" "\<not> is_loop i" "\<not> is_unconditional_jump i"
    and "\<not> in_range (prolog_range b) (ucast d :: 'u::len word)" "c < 16"
    and "bytes = [0x70 OR c, rel] \<or> bytes = [0x0F, 0x80 OR c] @ u32_le disp"
  shows "process_instruction b i bytes = Ok (x86_jcc (ucast d) c, b)"
  using assms(8) nibble_of_condition [OF assms(7)]
  by (auto simp: process_far_jcc [OF assms(1-6)])

definition far_branch_insn :: "mnemonic \<Rightarrow> instruction" where
  "far_branch_insn mn = \<lparr>ip = 0x1000, insn_len = 2, next_ip = 0x1002, is_invalid = False,
     mnemonic = mn, op_kinds = [NearBranch64], near_branch_target = 0x1022,
     memory_base = OtherRegister 0, memory_displacement64 = 0\<rparr>"

lemma far_branch_insn_facts:
  "rip_operand_target (far_branch_insn mn) = None"
  "relative_branch_target (far_branch_insn mn) = Some 0x1022"
  "is_call (far_branch_insn mn) = (mn = Call)"
  "is_unconditional_jump (far_branch_insn mn) = (mn = Jmp)"
  "is_loop (far_branch_insn mn) = (mn \<in> {Loop, Loope, Loopne, Jecxz, Jcxz})"
  "\<not> in_range (prolog_range (builder_new 0x1000 5)) (0x1022 :: u64)"
  by (simp_all add: far_branch_insn_def rip_operand_target_def relative_branch_target_def is_call_def
      is_unconditional_jump_def is_loop_def in_range_def prolog_range_def)

theorem x86_far_branch_keeps_condition_witness:
  "process_instruction (builder_new (0x1000 :: u64) 5) (far_branch_insn (OtherMnemonic 0)) [0x75, 0x20]
     = Ok (x86_jcc 0x1022 5, builder_new 0x1000 5)"
  using x86_far_branch_keeps_condition [where i = "far_branch_insn (OtherMnemonic 0)"
      and d = "0x1022" and b = "builder_new (0x1000 :: u64) 5" and c = 5
      and bytes = "[0x75, 0x20]" and rel = "0x20"]
  by (simp add: far_branch_insn_facts)

text \<open>A prefix byte is taken for the opcode: \<^verbatim>\<open>bnd jne\<close> is relocated as a \<^verbatim>\<open>jb\<close>.\<close>

lemma x86_prefixed_jcc_wrong_condition:
  "process_instruction (builder_new (0x1000 :: u64) 5) (far_branch_insn (OtherMnemonic 0))
     [0xF2, 0x75, 0x20] = Ok (x86_jcc 0x1022 2, builder_new 0x1000 5)"
  by (simp add: process_far_jcc far_branch_insn_facts)

text \<open>
  C31: a loop out of the prolog is refused, as the comment in the source says, unless it is
  \<^verbatim>\<open>jrcxz\<close>, which the list of loop mnemonics lacks: its opcode \<^verbatim>\<open>0xE3\<close> is read as
  condition 3, so it becomes a jump on the carry flag being clear.
\<close>

theorem x86_external_loops:
  assumes "rip_operand_target i = None" "relative_branch_target i = Some d"
    and "\<not> in_range (prolog_range b) (ucast d :: 'u::len word)"
  shows "(mnemonic i \<in> {Loop, Loope, Loopne, Jecxz, Jcxz} \<longrightarrow>
           process_instruction b i bytes = Err UnsupportedInstruction)
    \<and> (mnemonic i = Jrcxz \<and> bytes = [0xE3, rel] \<longrightarrow>
           process_instruction b i bytes = Ok (x86_jcc (ucast d) 3, b))"
  using assms
  by (auto simp: process_instruction_def handle_relative_branch_def is_call_def is_loop_def
      is_unconditional_jump_def)

theorem x86_external_loops_witness:
  "process_instruction (builder_new (0x1000 :: u64) 5) (far_branch_insn Loop) [0xE2, 0x20]
     = Err UnsupportedInstruction
   \<and> process_instruction (builder_new (0x1000 :: u64) 5) (far_branch_insn Jrcxz) [0xE3, 0x20]
     = Ok (x86_jcc 0x1022 3, builder_new 0x1000 5)"
proof -
  have mn: "mnemonic (far_branch_insn k) = k" for k by (simp add: far_branch_insn_def)
  show ?thesis
    using x86_external_loops [where i = "far_branch_insn Loop" and d = "0x1022"
        and b = "builder_new (0x1000 :: u64) 5" and bytes = "[0xE2, 0x20]" and rel = "0x20"]
      x86_external_loops [where i = "far_branch_insn Jrcxz" and d = "0x1022"
        and b = "builder_new (0x1000 :: u64) 5" and bytes = "[0xE3, 0x20]" and rel = "0x20"]
    by (simp add: far_branch_insn_facts mn)
qed

lemma x86_build_loop_error:
  "x86_build_loop code is b e = Err err \<Longrightarrow> err = UnsupportedInstruction"
proof (induction "is" arbitrary: b e)
  case Nil
  then show ?case by simp
next
  case (Cons i rest)
  let ?b = "b\<lparr>total_bytes := total_bytes b + insn_len i\<rparr>"
  have inv: "\<not> is_invalid i" using Cons.prems by auto
  show ?case
  proof (cases "process_instruction ?b i (insn_bytes code (b_target b) i)")
    case (Ok p)
    obtain t b1 where "p = (t, b1)" by (cases p)
    then show ?thesis
      using Cons.prems Cons.IH [of b1 "add_thunk e t"] Ok
      by (auto simp del: x86_build_loop.simps simp: x86_build_loop_step [OF inv] split: if_splits)
  next
    case (Err e')
    then show ?thesis
      using Cons.prems inv process_instruction_error [OF Err]
      by (auto simp: Let_def insn_bytes_def split: if_splits)
  next
    case Panic
    then show ?thesis
      using Cons.prems inv by (auto simp: Let_def insn_bytes_def split: if_splits)
  qed
qed

text \<open>
  C33: the only error a trampoline reports is \<^verbatim>\<open>UnsupportedInstruction\<close>; code that starts with
  an invalid instruction is accepted with an empty trampoline, not refused with
  \<^verbatim>\<open>InvalidCode\<close>.
\<close>

theorem x86_invalid_code_accepted:
  fixes target :: "'u::len word"
  shows "(x86_trampoline_new decoder m target k = Err e \<longrightarrow> e = UnsupportedInstruction)
    \<and> (decoder LENGTH('u) (read_bytes m target (k + 15)) (ucast target) = i # rest \<and> is_invalid i
        \<longrightarrow> x86_trampoline_new decoder m target k =
              Ok \<lparr>tramp_emitter = emitter_new, tramp_prolog_size = 0\<rparr>)"
proof (intro conjI impI)
  assume err: "x86_trampoline_new decoder m target k = Err e"
  show "e = UnsupportedInstruction"
  proof (cases "x86_build_loop (read_bytes m target (k + 15))
      (decoder LENGTH('u) (read_bytes m target (k + 15)) (ucast target)) (builder_new target k) emitter_new")
    case (Err e')
    with err show ?thesis
      using x86_build_loop_error [OF Err] by (simp add: x86_trampoline_new_def x86_build_def Let_def)
  qed (use err in \<open>auto simp: x86_trampoline_new_def x86_build_def Let_def\<close>)
qed (simp add: x86_trampoline_new_def x86_build_def Let_def)

definition invalid_insn :: instruction where
  "invalid_insn = \<lparr>ip = 0x1000, insn_len = 1, next_ip = 0x1001, is_invalid = True,
     mnemonic = OtherMnemonic 0, op_kinds = [], near_branch_target = 0,
     memory_base = OtherRegister 0, memory_displacement64 = 0\<rparr>"

theorem x86_invalid_code_accepted_witness:
  "x86_trampoline_new (\<lambda>_ _ a. [invalid_insn]) (\<lambda>_. 0x06) (0x1000 :: u64) 5
     = Ok \<lparr>tramp_emitter = emitter_new, tramp_prolog_size = 0\<rparr>
   \<and> x86_trampoline_new (\<lambda>_ _ a. [far_branch_insn Loop]) (\<lambda>_. 0xE2) (0x1000 :: u64) 5
     = Err UnsupportedInstruction"
proof
  have "is_invalid invalid_insn" by (simp add: invalid_insn_def)
  then show "x86_trampoline_new (\<lambda>_ _ a. [invalid_insn]) (\<lambda>_. 0x06) (0x1000 :: u64) 5
     = Ok \<lparr>tramp_emitter = emitter_new, tramp_prolog_size = 0\<rparr>"
    using x86_invalid_code_accepted [of "\<lambda>_ _ a. [invalid_insn]" "\<lambda>_. 0x06" "0x1000 :: u64" 5
        SameAddress invalid_insn "[]"]
    by simp
  have "\<exists>e. x86_trampoline_new (\<lambda>_ _ a. [far_branch_insn Loop]) (\<lambda>_. 0xE2) (0x1000 :: u64) 5 = Err e"
    by (simp add: x86_trampoline_new_def x86_build_def Let_def far_branch_insn_def
        process_instruction_def rip_operand_target_def relative_branch_target_def
        handle_relative_branch_def is_call_def is_loop_def in_range_def prolog_range_def)
  then show "x86_trampoline_new (\<lambda>_ _ a. [far_branch_insn Loop]) (\<lambda>_. 0xE2) (0x1000 :: u64) 5
     = Err UnsupportedInstruction"
    using x86_invalid_code_accepted by fastforce
qed

end
