(* ===== verification/Aarch64_Thunk.thy ===== *)
theory Aarch64_Thunk
  imports Arch_Common
begin

text \<open>
  \<^verbatim>\<open>src/arch/aarch64/thunk\<close> and \<^verbatim>\<open>src/arch/aarch64/meta.rs\<close>: the expansions of
  position-dependent instructions and absolute jumps through the scratch register x16, the
  relay decision, and a reference processor for the instructions involved.
\<close>

section \<open>Encoders\<close>

definition X16 :: u8 where "X16 = 16"
definition X17 :: u8 where "X17 = 17"

definition encode_mov_imm64 :: "u8 \<Rightarrow> u64 \<Rightarrow> u8 list" where
  "encode_mov_imm64 reg val =
     (let part0 = ucast (val AND 0xFFFF) :: u32;
          part1 = ucast (drop_bit 16 val AND 0xFFFF) :: u32;
          part2 = ucast (drop_bit 32 val AND 0xFFFF) :: u32;
          part3 = ucast (drop_bit 48 val AND 0xFFFF) :: u32
      in u32_le (0xD2800000 OR push_bit 5 part0 OR ucast reg)
         @ u32_le (0xF2A00000 OR push_bit 5 part1 OR ucast reg)
         @ u32_le (0xF2C00000 OR push_bit 5 part2 OR ucast reg)
         @ u32_le (0xF2E00000 OR push_bit 5 part3 OR ucast reg))"

definition a64_jmp_abs :: "u64 \<Rightarrow> u64 thunk" where
  "a64_jmp_abs dest = VecThunk (u32_le 0x58000050 @ u32_le 0xD61F0200 @ u64_le dest)"

definition a64_call_abs :: "u64 \<Rightarrow> u64 thunk" where
  "a64_call_abs dest = VecThunk (u32_le 0x58000050 @ u32_le 0xD63F0200 @ u64_le dest)"

definition mov_imm64 :: "u8 \<Rightarrow> u64 \<Rightarrow> u64 thunk" where
  "mov_imm64 reg val = VecThunk (encode_mov_imm64 reg val)"

definition a64_nop :: "u64 thunk" where
  "a64_nop = VecThunk (u32_le 0xD503201F)"

definition cbz_far :: "u8 \<Rightarrow> bool \<Rightarrow> bool \<Rightarrow> u64 \<Rightarrow> u64 thunk" where
  "cbz_far reg sf_64 negate dest =
     (let base = (case (negate, sf_64) of
          (False, True) \<Rightarrow> 0xB5000000
        | (False, False) \<Rightarrow> 0x35000000
        | (True, True) \<Rightarrow> 0xB4000000
        | (True, False) \<Rightarrow> 0x34000000) :: u32
      in VecThunk (u32_le (base OR push_bit 5 5 OR ucast reg)
         @ u32_le 0x58000050 @ u32_le 0xD61F0200 @ u64_le dest))"

text \<open>The parameter \<^verbatim>\<open>bit\<close> of the source is \<open>bit_no\<close> here.\<close>

definition tbz_far :: "u8 \<Rightarrow> u8 \<Rightarrow> bool \<Rightarrow> u64 \<Rightarrow> u64 thunk" where
  "tbz_far reg bit_no negate dest =
     (let b5 = ucast (drop_bit 5 bit_no AND 1) :: u32;
          b40 = ucast (bit_no AND 31) :: u32;
          opcode = (if negate then 0x36000000 else 0x37000000) :: u32;
          insn = push_bit 31 b5 OR opcode OR push_bit 19 b40 OR push_bit 5 5 OR ucast reg
      in VecThunk (u32_le insn @ u32_le 0x58000050 @ u32_le 0xD61F0200 @ u64_le dest))"

definition ldr_literal_64 :: "u8 \<Rightarrow> u64 \<Rightarrow> u64 thunk" where
  "ldr_literal_64 rt src_addr =
     (let addr_reg = if rt = X17 then X16 else X17
      in VecThunk (encode_mov_imm64 addr_reg src_addr
           @ u32_le (0xF9400000 OR push_bit 5 (ucast addr_reg) OR ucast rt)))"

definition ldr_literal_32 :: "u8 \<Rightarrow> u64 \<Rightarrow> u64 thunk" where
  "ldr_literal_32 rt src_addr =
     (let addr_reg = if rt = X17 then X16 else X17
      in VecThunk (encode_mov_imm64 addr_reg src_addr
           @ u32_le (0xB9400000 OR push_bit 5 (ucast addr_reg) OR ucast rt)))"

definition ldrsw_literal :: "u8 \<Rightarrow> u64 \<Rightarrow> u64 thunk" where
  "ldrsw_literal rt src_addr =
     (let addr_reg = if rt = X17 then X16 else X17
      in VecThunk (encode_mov_imm64 addr_reg src_addr
           @ u32_le (0xB9800000 OR push_bit 5 (ucast addr_reg) OR ucast rt)))"

section \<open>Prolog margin and relay\<close>

definition a64_DETOUR_RANGE :: int where
  "a64_DETOUR_RANGE = 0x8000000"

definition a64_prolog_margin :: "u64 \<Rightarrow> nat" where
  "a64_prolog_margin target = 4"

definition a64_relay_builder :: "u64 \<Rightarrow> u64 \<Rightarrow> u64 code_emitter option res" where
  "a64_relay_builder target detour =
     (let displacement = detour - target in
      if \<not> is_within_range a64_DETOUR_RANGE displacement
      then Ok (Some (add_thunk emitter_new (a64_jmp_abs detour)))
      else Ok None)"

section \<open>A reference processor\<close>

text \<open>
  The immediates of the architecture manual are sign-extended bit fields, here read through
  words of the width of the field.
\<close>

definition a64_imm26 :: "u32 \<Rightarrow> u64" where
  "a64_imm26 i = scast (ucast (push_bit 2 i) :: 28 word)"

definition a64_imm19 :: "u32 \<Rightarrow> u64" where
  "a64_imm19 i = scast (ucast (push_bit 2 (drop_bit 5 i)) :: 21 word)"

definition a64_imm14 :: "u32 \<Rightarrow> u64" where
  "a64_imm14 i = scast (ucast (push_bit 2 (drop_bit 5 i)) :: 16 word)"

definition a64_imm21 :: "u32 \<Rightarrow> u64" where
  "a64_imm21 i = scast (ucast (push_bit 2 (drop_bit 5 i) OR (drop_bit 29 i AND 3)) :: 21 word)"

record a64_flags =
  NF :: bool
  ZF :: bool
  CF :: bool
  VF :: bool

record a64_cpu =
  a64_pc :: u64
  a64_regs :: "u32 \<Rightarrow> u64"
  a64_nzcv :: a64_flags
  a64_mem :: "u64 \<Rightarrow> u8"

text \<open>\<^verbatim>\<open>ConditionHolds\<close>\<close>

definition a64_cond :: "a64_flags \<Rightarrow> u32 \<Rightarrow> bool" where
  "a64_cond f c =
     (let k = drop_bit 1 c;
          r = (if k = 0 then ZF f else if k = 1 then CF f else if k = 2 then NF f
               else if k = 3 then VF f else if k = 4 then CF f \<and> \<not> ZF f
               else if k = 5 then NF f = VF f else if k = 6 then NF f = VF f \<and> \<not> ZF f else True)
      in if bit c 0 \<and> c \<noteq> 15 then \<not> r else r)"

text \<open>Register 31 reads as zero and ignores writes.\<close>

definition a64_get :: "a64_cpu \<Rightarrow> u32 \<Rightarrow> u64" where
  "a64_get s r = (if r = 31 then 0 else a64_regs s r)"

definition a64_set :: "u32 \<Rightarrow> u64 \<Rightarrow> a64_cpu \<Rightarrow> a64_cpu" where
  "a64_set r v s = (if r = 31 then s else s\<lparr>a64_regs := (a64_regs s)(r := v)\<rparr>)"

definition a64_goto :: "u64 \<Rightarrow> a64_cpu \<Rightarrow> a64_cpu" where
  "a64_goto a s = s\<lparr>a64_pc := a\<rparr>"

definition a64_movk :: "u64 \<Rightarrow> u32 \<Rightarrow> nat \<Rightarrow> u64" where
  "a64_movk old imm n = (old AND NOT (push_bit n 0xFFFF)) OR push_bit n (ucast imm)"

definition a64_cb_taken :: "a64_cpu \<Rightarrow> u32 \<Rightarrow> bool" where
  "a64_cb_taken s i =
     (let v = a64_get s (i AND 0x1F) in
      ((if bit i 31 then v = 0 else (ucast v :: u32) = 0) \<noteq> bit i 24))"

definition a64_tb_taken :: "a64_cpu \<Rightarrow> u32 \<Rightarrow> bool" where
  "a64_tb_taken s i =
     (bit (a64_get s (i AND 0x1F)) ((if bit i 31 then 32 else 0) + unat (drop_bit 19 i AND 0x1F)) = bit i 24)"

definition a64_step :: "a64_cpu \<Rightarrow> a64_cpu option" where
  "a64_step s =
     (let pc = a64_pc s; m = a64_mem s; i = fetch32 m pc;
          rt = i AND 0x1F; rn = drop_bit 5 i AND 0x1F;
          imm12 = ucast (drop_bit 10 i AND 0xFFF) :: u64;
          imm16 = drop_bit 5 i AND 0xFFFF; hw = 16 * unat (drop_bit 21 i AND 3) in
      if i AND 0xFC000000 = 0x14000000 then Some (a64_goto (pc + a64_imm26 i) s)
      else if i AND 0xFC000000 = 0x94000000 then Some (a64_goto (pc + a64_imm26 i) (a64_set 30 (pc + 4) s))
      else if i AND 0xFF000010 = 0x54000000 then
        Some (a64_goto (if a64_cond (a64_nzcv s) (i AND 0xF) then pc + a64_imm19 i else pc + 4) s)
      else if i AND 0x7E000000 = 0x34000000 then
        Some (a64_goto (if a64_cb_taken s i then pc + a64_imm19 i else pc + 4) s)
      else if i AND 0x7E000000 = 0x36000000 then
        Some (a64_goto (if a64_tb_taken s i then pc + a64_imm14 i else pc + 4) s)
      else if i AND 0x9F000000 = 0x10000000 then
        Some (a64_goto (pc + 4) (a64_set rt (pc + a64_imm21 i) s))
      else if i AND 0x9F000000 = 0x90000000 then
        Some (a64_goto (pc + 4) (a64_set rt ((pc AND NOT 0xFFF) + push_bit 12 (a64_imm21 i)) s))
      else if i AND 0xFF000000 = 0x18000000 then
        Some (a64_goto (pc + 4) (a64_set rt (ucast (fetch32 m (pc + a64_imm19 i))) s))
      else if i AND 0xFF000000 = 0x58000000 then
        Some (a64_goto (pc + 4) (a64_set rt (fetch64 m (pc + a64_imm19 i)) s))
      else if i AND 0xFF000000 = 0x98000000 then
        Some (a64_goto (pc + 4) (a64_set rt (scast (fetch32 m (pc + a64_imm19 i))) s))
      else if i AND 0xFF000000 = 0xD8000000 then Some (a64_goto (pc + 4) s)
      else if i AND 0xFF800000 = 0xD2800000 then
        Some (a64_goto (pc + 4) (a64_set rt (push_bit hw (ucast imm16)) s))
      else if i AND 0xFFC00000 = 0x52800000 then
        Some (a64_goto (pc + 4) (a64_set rt (push_bit hw (ucast imm16)) s))
      else if i AND 0xFF800000 = 0xF2800000 then
        Some (a64_goto (pc + 4) (a64_set rt (a64_movk (a64_get s rt) imm16 hw) s))
      else if i AND 0xFFFFFC1F = 0xD61F0000 then Some (a64_goto (a64_get s rn) s)
      else if i AND 0xFFFFFC1F = 0xD63F0000 then Some (a64_goto (a64_get s rn) (a64_set 30 (pc + 4) s))
      else if i AND 0xFFFFFC1F = 0xD65F0000 then Some (a64_goto (a64_get s rn) s)
      else if i AND 0xFFC00000 = 0xF9400000 \<and> rn \<noteq> 31 then
        Some (a64_goto (pc + 4) (a64_set rt (fetch64 m (a64_get s rn + 8 * imm12)) s))
      else if i AND 0xFFC00000 = 0xB9400000 \<and> rn \<noteq> 31 then
        Some (a64_goto (pc + 4) (a64_set rt (ucast (fetch32 m (a64_get s rn + 4 * imm12))) s))
      else if i AND 0xFFC00000 = 0xB9800000 \<and> rn \<noteq> 31 then
        Some (a64_goto (pc + 4) (a64_set rt (scast (fetch32 m (a64_get s rn + 4 * imm12))) s))
      else if i = 0xD503201F then Some (a64_goto (pc + 4) s)
      else None)"

primrec a64_run :: "nat \<Rightarrow> a64_cpu \<Rightarrow> a64_cpu option" where
  "a64_run 0 s = Some s"
| "a64_run (Suc n) s = (case a64_step s of None \<Rightarrow> None | Some t \<Rightarrow> a64_run n t)"

text \<open>Control arrives at \<open>dest\<close>; besides the program counter only x16 may change.\<close>

definition a64_runs_to :: "64 mem \<Rightarrow> u64 \<Rightarrow> u64 \<Rightarrow> bool" where
  "a64_runs_to m pc dest \<longleftrightarrow> (\<forall>s. a64_mem s = m \<and> a64_pc s = pc \<longrightarrow>
     (\<exists>n v. a64_run n s = Some (s\<lparr>a64_pc := dest, a64_regs := (a64_regs s)(16 := v)\<rparr>)))"

section \<open>Running the thunks\<close>

lemma a64_run_add:
  "a64_run (j + k) s = (case a64_run j s of None \<Rightarrow> None | Some t \<Rightarrow> a64_run k t)"
  by (induction j arbitrary: s) (auto split: option.splits)

lemma a64_step_ldr_x16:
  assumes "fetch32 (a64_mem s) (a64_pc s) = 0x58000050"
  shows "a64_step s = Some (a64_goto (a64_pc s + 4) (a64_set 16 (fetch64 (a64_mem s) (a64_pc s + 8)) s))"
  using assms by (simp add: a64_step_def Let_def a64_imm19_def)

lemma a64_step_br_x16:
  assumes "fetch32 (a64_mem s) (a64_pc s) = 0xD61F0200"
  shows "a64_step s = Some (a64_goto (a64_regs s 16) s)"
  using assms by (simp add: a64_step_def Let_def a64_get_def)

lemma a64_step_blr_x16:
  assumes "fetch32 (a64_mem s) (a64_pc s) = 0xD63F0200"
  shows "a64_step s = Some (a64_goto (a64_regs s 16) (a64_set 30 (a64_pc s + 4) s))"
  using assms by (simp add: a64_step_def Let_def a64_get_def)

lemma a64_jmp_abs_run:
  assumes "code_at (a64_mem s) (a64_pc s) (u32_le 0x58000050 @ u32_le 0xD61F0200 @ u64_le dest)"
  shows "a64_run (Suc (Suc 0)) s = Some (s\<lparr>a64_pc := dest, a64_regs := (a64_regs s)(16 := dest)\<rparr>)"
proof -
  have 1: "fetch32 (a64_mem s) (a64_pc s) = 0x58000050"
    and 2: "fetch32 (a64_mem s) (a64_pc s + 4) = 0xD61F0200"
    and 3: "fetch64 (a64_mem s) (a64_pc s + 8) = dest"
    using assms by (auto simp: add.assoc intro!: code_at_u32 code_at_u64)
  show ?thesis
    using a64_step_ldr_x16 [OF 1] a64_step_br_x16 [of "a64_goto (a64_pc s + 4) (a64_set 16 dest s)"] 2 3
    by (simp add: a64_goto_def a64_set_def)
qed

interpretation a64_jmp: jump_thunk a64_jmp_abs 16 "\<lambda>src dest. True" a64_runs_to
proof
  fix dest src code m
  show "thunk_len (a64_jmp_abs dest) = 16" by (simp add: a64_jmp_abs_def)
  show "honest (a64_jmp_abs dest)" by (simp add: a64_jmp_abs_def)
  show "\<exists>code. thunk_generate (a64_jmp_abs dest) src = Ok code" by (simp add: a64_jmp_abs_def)
next
  fix dest src code m
  assume "thunk_generate (a64_jmp_abs dest) src = Ok code" "code_at m src code"
  then have at: "code_at m src (u32_le 0x58000050 @ u32_le 0xD61F0200 @ u64_le dest)"
    by (simp add: a64_jmp_abs_def)
  show "a64_runs_to m src dest"
    unfolding a64_runs_to_def
  proof (intro allI impI)
    fix s :: a64_cpu
    assume "a64_mem s = m \<and> a64_pc s = src"
    then have "code_at (a64_mem s) (a64_pc s) (u32_le 0x58000050 @ u32_le 0xD61F0200 @ u64_le dest)"
      using at by simp
    from a64_jmp_abs_run [OF this]
    show "\<exists>n v. a64_run n s = Some (s\<lparr>a64_pc := dest, a64_regs := (a64_regs s)(16 := v)\<rparr>)" by blast
  qed
qed

text \<open>The words of \<^verbatim>\<open>encode_mov_imm64\<close>: known bits, register, immediate and position.\<close>

definition mov_word :: "u32 \<Rightarrow> u32 \<Rightarrow> u32 \<Rightarrow> u32" where
  "mov_word base part reg = base OR push_bit 5 (part AND 0xFFFF) OR (reg AND 0x1F)"

lemma mov_word_fields:
  "mov_word 0xD2800000 p x AND 0x1F = x AND 0x1F \<and> drop_bit 5 (mov_word 0xD2800000 p x) AND 0xFFFF = p AND 0xFFFF
   \<and> mov_word 0xD2800000 p x AND 0xFFE00000 = 0xD2800000"
  "mov_word 0xF2A00000 p x AND 0x1F = x AND 0x1F \<and> drop_bit 5 (mov_word 0xF2A00000 p x) AND 0xFFFF = p AND 0xFFFF
   \<and> mov_word 0xF2A00000 p x AND 0xFFE00000 = 0xF2A00000"
  "mov_word 0xF2C00000 p x AND 0x1F = x AND 0x1F \<and> drop_bit 5 (mov_word 0xF2C00000 p x) AND 0xFFFF = p AND 0xFFFF
   \<and> mov_word 0xF2C00000 p x AND 0xFFE00000 = 0xF2C00000"
  "mov_word 0xF2E00000 p x AND 0x1F = x AND 0x1F \<and> drop_bit 5 (mov_word 0xF2E00000 p x) AND 0xFFFF = p AND 0xFFFF
   \<and> mov_word 0xF2E00000 p x AND 0xFFE00000 = 0xF2E00000"
  unfolding mov_word_def
  by (intro conjI; rule u32_eqI; simp add: upt_rec; elim disjE; simp add: bit_simps; simp add: eval_nat_numeral)+

lemma hw_field: "drop_bit 21 i AND 3 = drop_bit 21 ((i :: u32) AND 0x600000)"
  by (simp only: drop_bit_and) simp

lemma a64_step_movz:
  assumes "fetch32 (a64_mem s) (a64_pc s) = i" "i AND 0xFF800000 = 0xD2800000"
  shows "a64_step s = Some (a64_goto (a64_pc s + 4) (a64_set (i AND 0x1F)
    (push_bit (16 * unat (drop_bit 21 i AND 3)) (ucast (drop_bit 5 i AND 0xFFFF))) s))"
  unfolding a64_step_def Let_def assms(1) using assms(2) by (simp add: mask_differ [OF assms(2)])

lemma a64_step_movz32:
  assumes "fetch32 (a64_mem s) (a64_pc s) = i" "i AND 0xFFC00000 = 0x52800000"
  shows "a64_step s = Some (a64_goto (a64_pc s + 4) (a64_set (i AND 0x1F)
    (push_bit (16 * unat (drop_bit 21 i AND 3)) (ucast (drop_bit 5 i AND 0xFFFF))) s))"
  unfolding a64_step_def Let_def assms(1) using assms(2) by (simp add: mask_differ [OF assms(2)])

lemma a64_step_movk:
  assumes "fetch32 (a64_mem s) (a64_pc s) = i" "i AND 0xFF800000 = 0xF2800000"
  shows "a64_step s = Some (a64_goto (a64_pc s + 4) (a64_set (i AND 0x1F)
    (a64_movk (a64_get s (i AND 0x1F)) (drop_bit 5 i AND 0xFFFF) (16 * unat (drop_bit 21 i AND 3))) s))"
  unfolding a64_step_def Let_def assms(1) using assms(2) by (simp add: mask_differ [OF assms(2)])

lemma a64_step_movz_word:
  assumes "fetch32 (a64_mem s) (a64_pc s) = mov_word 0xD2800000 p x"
  shows "a64_step s = Some (a64_goto (a64_pc s + 4) (a64_set (x AND 0x1F) (ucast (p AND 0xFFFF)) s))"
proof -
  note f = mov_word_fields(1) [of p x]
  have m: "mov_word 0xD2800000 p x AND 0xFFE00000 = 0xD2800000" using f by simp
  show ?thesis
    using a64_step_movz [OF assms] f unfolding hw_field by (simp add: mask_agree [OF m])
qed

lemma a64_step_movk_word:
  assumes "fetch32 (a64_mem s) (a64_pc s) = mov_word base p x"
    and "base = 0xF2A00000 \<and> n = 16 \<or> base = 0xF2C00000 \<and> n = 32 \<or> base = 0xF2E00000 \<and> n = 48"
  shows "a64_step s = Some (a64_goto (a64_pc s + 4)
    (a64_set (x AND 0x1F) (a64_movk (a64_get s (x AND 0x1F)) (p AND 0xFFFF) n) s))"
proof -
  have f: "mov_word base p x AND 0x1F = x AND 0x1F" "drop_bit 5 (mov_word base p x) AND 0xFFFF = p AND 0xFFFF"
    and m: "mov_word base p x AND 0xFFE00000 = base"
    using assms(2) mov_word_fields(2-4) [of p x] by auto
  have "mov_word base p x AND 0xFF800000 = base AND 0xFF800000"
    "mov_word base p x AND 0x600000 = base AND 0x600000"
    by (rule mask_agree [OF m], simp)+
  then have "mov_word base p x AND 0xFF800000 = 0xF2800000"
    "16 * unat (drop_bit 21 (mov_word base p x) AND 3) = n"
    using assms(2) unfolding hw_field by auto
  then show ?thesis using a64_step_movk [OF assms(1)] f by simp
qed

lemma bit_mask16: "bit (0xFFFF :: int) n \<longleftrightarrow> n < 16"
proof -
  have "(0xFFFF :: int) = mask 16" by (simp add: mask_eq_exp_minus_1)
  then show ?thesis by (simp only: bit_mask_iff) simp
qed

lemma bit_movk:
  "n < 64 \<Longrightarrow> bit (a64_movk old (p AND 0xFFFF) k) n \<longleftrightarrow>
     (if k \<le> n \<and> n < k + 16 then bit p (n - k) else bit old n)"
  unfolding a64_movk_def
  by (auto simp: bit_simps bit_mask16)

lemma a64_movk_chain:
  "a64_movk (a64_movk (a64_movk (ucast (ucast v AND 0xFFFF :: u32)) (ucast (drop_bit 16 v) AND 0xFFFF) 16)
     (ucast (drop_bit 32 v) AND 0xFFFF) 32) (ucast (drop_bit 48 v) AND 0xFFFF) 48 = (v :: u64)"
  by (rule bit_word_eqI) (auto simp: bit_movk bit_simps bit_mask16)

lemma encode_mov_imm64_words:
  "encode_mov_imm64 (ucast (x AND 0x1F :: u32)) v =
     u32_le (mov_word 0xD2800000 (ucast v) x) @ u32_le (mov_word 0xF2A00000 (ucast (drop_bit 16 v)) x)
     @ u32_le (mov_word 0xF2C00000 (ucast (drop_bit 32 v)) x) @ u32_le (mov_word 0xF2E00000 (ucast (drop_bit 48 v)) x)"
proof -
  have "ucast (ucast (x AND 0x1F) :: u8) = x AND 0x1F"
    by (rule u32_eqI) (simp add: upt_rec; elim disjE; simp add: bit_simps)
  moreover have "(ucast (w AND 0xFFFF) :: u32) = ucast w AND 0xFFFF" for w :: u64
    by (rule bit_word_eqI) (auto simp: bit_simps)
  ultimately show ?thesis
    by (simp add: encode_mov_imm64_def Let_def mov_word_def or.assoc)
qed

lemma a64_goto_simps [simp]:
  "a64_pc (a64_goto a s) = a" "a64_mem (a64_goto a s) = a64_mem s" "a64_regs (a64_goto a s) = a64_regs s"
  "a64_nzcv (a64_goto a s) = a64_nzcv s" "a64_goto a (a64_goto b s) = a64_goto a s"
  "a64_get (a64_goto a s) r = a64_get s r" "a64_set r v (a64_goto a s) = a64_goto a (a64_set r v s)"
  by (simp_all add: a64_goto_def a64_get_def a64_set_def)

lemma a64_set_31 [simp]: "a64_set 31 v s = s"
  by (simp add: a64_set_def)

lemma a64_set_simps [simp]:
  "a64_pc (a64_set r v s) = a64_pc s" "a64_mem (a64_set r v s) = a64_mem s"
  "a64_nzcv (a64_set r v s) = a64_nzcv s" "a64_set r v (a64_set r w s) = a64_set r v s"
  "a64_get (a64_set r v s) r = (if r = 31 then 0 else v)"
  "q \<noteq> r \<Longrightarrow> a64_get (a64_set r v s) q = a64_get s q"
  by (simp_all add: a64_get_def a64_set_def)

lemma a64_mov_run:
  assumes "code_at (a64_mem s) (a64_pc s) (encode_mov_imm64 (ucast (x AND 0x1F :: u32)) v)"
  shows "a64_run (Suc (Suc (Suc (Suc 0)))) s = Some (a64_goto (a64_pc s + 16) (a64_set (x AND 0x1F) v s))"
proof -
  let ?r = "x AND 0x1F" and ?pc = "a64_pc s"
  let ?st = "\<lambda>k w. a64_goto (?pc + k) (a64_set ?r w s)"
  let ?p1 = "ucast (drop_bit 16 v) :: u32" and ?p2 = "ucast (drop_bit 32 v) :: u32"
    and ?p3 = "ucast (drop_bit 48 v) :: u32"
  have code: "fetch32 (a64_mem s) ?pc = mov_word 0xD2800000 (ucast v) x"
    "fetch32 (a64_mem s) (?pc + 4) = mov_word 0xF2A00000 ?p1 x"
    "fetch32 (a64_mem s) (?pc + 8) = mov_word 0xF2C00000 ?p2 x"
    "fetch32 (a64_mem s) (?pc + 12) = mov_word 0xF2E00000 ?p3 x"
    using assms unfolding encode_mov_imm64_words by (auto simp: add.assoc intro!: code_at_u32)
  have movk: "a64_step (?st k w) = Some (?st (k + 4) (a64_movk w (p AND 0xFFFF) n))"
    if "fetch32 (a64_mem s) (?pc + k) = mov_word base p x"
      "base = 0xF2A00000 \<and> n = 16 \<or> base = 0xF2C00000 \<and> n = 32 \<or> base = 0xF2E00000 \<and> n = 48"
    for k w p n base
    using a64_step_movk_word [of "?st k w" base p x n] that
    by (cases "?r = 31") (simp_all add: add.assoc)
  have "a64_step s = Some (?st 4 (ucast (ucast v AND 0xFFFF :: u32)))"
    using a64_step_movz_word [OF code(1)] by simp
  moreover have "a64_step (?st 4 w) = Some (?st 8 (a64_movk w (?p1 AND 0xFFFF) 16))" for w
    using movk [OF code(2)] by simp
  moreover have "a64_step (?st 8 w) = Some (?st 12 (a64_movk w (?p2 AND 0xFFFF) 32))" for w
    using movk [OF code(3)] by simp
  moreover have "a64_step (?st 12 w) = Some (?st 16 (a64_movk w (?p3 AND 0xFFFF) 48))" for w
    using movk [OF code(4)] by simp
  ultimately show ?thesis
    by (simp only: a64_run.simps option.case a64_movk_chain)
qed

section \<open>Branch expansions\<close>

lemma a64_imm19_take:
  "drop_bit 5 i AND 0x7FFFF = k \<Longrightarrow> a64_imm19 i = scast (ucast (push_bit 2 k) :: 21 word)"
proof -
  assume "drop_bit 5 i AND 0x7FFFF = k"
  moreover have "drop_bit 5 i AND 0x7FFFF = take_bit 19 (drop_bit 5 i)"
    by (simp add: take_bit_eq_mask mask_eq_exp_minus_1)
  ultimately have "(ucast (push_bit 2 (drop_bit 5 i)) :: 21 word) = ucast (push_bit 2 k)"
    by (intro bit_word_eqI) (auto simp: bit_simps)
  then show ?thesis by (simp add: a64_imm19_def)
qed

lemma a64_imm14_take:
  "drop_bit 5 i AND 0x3FFF = k \<Longrightarrow> a64_imm14 i = scast (ucast (push_bit 2 k) :: 16 word)"
proof -
  assume "drop_bit 5 i AND 0x3FFF = k"
  moreover have "drop_bit 5 i AND 0x3FFF = take_bit 14 (drop_bit 5 i)"
    by (simp add: take_bit_eq_mask mask_eq_exp_minus_1)
  ultimately have "(ucast (push_bit 2 (drop_bit 5 i)) :: 16 word) = ucast (push_bit 2 k)"
    by (intro bit_word_eqI) (auto simp: bit_simps)
  then show ?thesis by (simp add: a64_imm14_def)
qed

lemma a64_step_cb:
  assumes "fetch32 (a64_mem s) (a64_pc s) = i" "i AND 0x7E000000 = 0x34000000"
  shows "a64_step s = Some (a64_goto (if a64_cb_taken s i then a64_pc s + a64_imm19 i else a64_pc s + 4) s)"
  unfolding a64_step_def Let_def assms(1) using assms(2) by (simp add: mask_differ [OF assms(2)])

lemma a64_step_tb:
  assumes "fetch32 (a64_mem s) (a64_pc s) = i" "i AND 0x7E000000 = 0x36000000"
  shows "a64_step s = Some (a64_goto (if a64_tb_taken s i then a64_pc s + a64_imm14 i else a64_pc s + 4) s)"
  unfolding a64_step_def Let_def assms(1) using assms(2) by (simp add: mask_differ [OF assms(2)])

text \<open>The first word of \<^verbatim>\<open>cbz_far\<close>: the condition inverted, 20 bytes forward.\<close>

definition cb_word :: "bool \<Rightarrow> bool \<Rightarrow> u32 \<Rightarrow> u32" where
  "cb_word sf_64 negate x =
     (case (negate, sf_64) of
          (False, True) \<Rightarrow> 0xB5000000
        | (False, False) \<Rightarrow> 0x35000000
        | (True, True) \<Rightarrow> 0xB4000000
        | (True, False) \<Rightarrow> 0x34000000) OR push_bit 5 5 OR (x AND 0x1F)"

lemma branch_word_fields:
  fixes x :: u32
  shows
  "(0xB5000000 OR push_bit 5 5 OR (x AND 0x1F)) AND 0x7E000000 = 0x34000000"
  "drop_bit 5 (0xB5000000 OR push_bit 5 5 OR (x AND 0x1F)) AND 0x7FFFF = 5"
  "(0xB5000000 OR push_bit 5 5 OR (x AND 0x1F)) AND 0x1F = x AND 0x1F"
  "(0x35000000 OR push_bit 5 5 OR (x AND 0x1F)) AND 0x7E000000 = 0x34000000"
  "drop_bit 5 (0x35000000 OR push_bit 5 5 OR (x AND 0x1F)) AND 0x7FFFF = 5"
  "(0x35000000 OR push_bit 5 5 OR (x AND 0x1F)) AND 0x1F = x AND 0x1F"
  "(0xB4000000 OR push_bit 5 5 OR (x AND 0x1F)) AND 0x7E000000 = 0x34000000"
  "drop_bit 5 (0xB4000000 OR push_bit 5 5 OR (x AND 0x1F)) AND 0x7FFFF = 5"
  "(0xB4000000 OR push_bit 5 5 OR (x AND 0x1F)) AND 0x1F = x AND 0x1F"
  "(0x34000000 OR push_bit 5 5 OR (x AND 0x1F)) AND 0x7E000000 = 0x34000000"
  "drop_bit 5 (0x34000000 OR push_bit 5 5 OR (x AND 0x1F)) AND 0x7FFFF = 5"
  "(0x34000000 OR push_bit 5 5 OR (x AND 0x1F)) AND 0x1F = x AND 0x1F"
  by (rule u32_eqI; simp add: upt_rec; elim disjE; simp add: bit_simps; simp add: eval_nat_numeral)+

lemma cb_word_fields:
  "cb_word sf neg x AND 0x7E000000 = 0x34000000 \<and> drop_bit 5 (cb_word sf neg x) AND 0x7FFFF = 5
   \<and> cb_word sf neg x AND 0x1F = x AND 0x1F"
  unfolding cb_word_def by (cases sf; cases neg; simp only: prod.case bool.case branch_word_fields simp_thms)

lemma cb_word_bits: "bit (cb_word sf neg x) 31 = sf" "bit (cb_word sf neg x) 24 = (\<not> neg)"
  unfolding cb_word_def by (cases sf; cases neg; simp add: bit_simps)+

text \<open>The first word of \<^verbatim>\<open>tbz_far\<close>, for the bit number of the instruction \<open>i\<close>.\<close>

definition tb_word :: "bool \<Rightarrow> u32 \<Rightarrow> u32" where
  "tb_word negate i = push_bit 31 (drop_bit 31 i AND 1) OR (if negate then 0x36000000 else 0x37000000)
     OR push_bit 19 (drop_bit 19 i AND 0x1F) OR push_bit 5 5 OR (i AND 0x1F)"

lemma tb_word_fields:
  "tb_word True i AND 0x7E000000 = 0x36000000" "tb_word False i AND 0x7E000000 = 0x36000000"
  "drop_bit 5 (tb_word True i) AND 0x3FFF = 5" "drop_bit 5 (tb_word False i) AND 0x3FFF = 5"
  "tb_word True i AND 0x1F = i AND 0x1F" "tb_word False i AND 0x1F = i AND 0x1F"
  "drop_bit 19 (tb_word True i) AND 0x1F = drop_bit 19 i AND 0x1F"
  "drop_bit 19 (tb_word False i) AND 0x1F = drop_bit 19 i AND 0x1F"
  unfolding tb_word_def if_True if_False
  by (rule u32_eqI; simp add: upt_rec; elim disjE; simp add: bit_simps; simp add: eval_nat_numeral)+

lemma tb_word_bits: "bit (tb_word neg i) 31 = bit i 31" "bit (tb_word neg i) 24 = (\<not> neg)"
  unfolding tb_word_def by (cases neg; simp add: bit_simps)+

lemma ucast_reg: "ucast (ucast (x AND 0x1F :: u32) :: u8) = x AND 0x1F"
  by (rule u32_eqI) (simp add: upt_rec; elim disjE; simp add: bit_simps)

lemma ucast_reg': "ucast (ucast x AND 0x1F :: u8) = (x :: u32) AND 0x1F"
  by (rule u32_eqI) (simp add: upt_rec; elim disjE; simp add: bit_simps)

lemma cbz_far_code:
  "thunk_generate (cbz_far (ucast x AND 0x1F) sf neg dest) src = Ok
     (u32_le (cb_word sf neg x) @ u32_le 0x58000050 @ u32_le 0xD61F0200 @ u64_le dest)"
  by (simp add: cbz_far_def Let_def cb_word_def ucast_reg' split: bool.split)

definition tb_bit :: "u32 \<Rightarrow> u8" where
  "tb_bit i = ucast (push_bit 5 (drop_bit 31 i AND 1) OR (drop_bit 19 i AND 0x1F))"

lemma tb_bit_parts:
  "ucast (drop_bit 5 (tb_bit i) AND 1) = drop_bit 31 i AND (1 :: u32)"
  "ucast (tb_bit i AND 31) = drop_bit 19 i AND (0x1F :: u32)"
  unfolding tb_bit_def
  by (rule u32_eqI; simp add: upt_rec; elim disjE; simp add: bit_simps; simp add: eval_nat_numeral)+

lemma tbz_far_code:
  "thunk_generate (tbz_far (ucast i AND 0x1F) (tb_bit i) neg dest) src = Ok
     (u32_le (tb_word neg i) @ u32_le 0x58000050 @ u32_le 0xD61F0200 @ u64_le dest)"
  by (simp add: tbz_far_def Let_def tb_word_def ucast_reg' tb_bit_parts)

text \<open>An inverted branch over an absolute jump.\<close>

lemma a64_inverted_run:
  assumes "a64_step s = Some (a64_goto (if skip then a64_pc s + 20 else a64_pc s + 4) s)"
    and "code_at (a64_mem s) (a64_pc s) (u32_le w @ u32_le 0x58000050 @ u32_le 0xD61F0200 @ u64_le dest)"
  shows "\<exists>n v. a64_run n s = Some (s\<lparr>a64_pc := (if skip then a64_pc s + 20 else dest),
    a64_regs := (a64_regs s)(16 := v)\<rparr>)"
proof (cases skip)
  case True
  then have "a64_run (Suc 0) s = Some (s\<lparr>a64_pc := a64_pc s + 20, a64_regs := (a64_regs s)(16 := a64_regs s 16)\<rparr>)"
    using assms(1) by (simp add: a64_goto_def)
  then show ?thesis unfolding if_P [OF True] by blast
next
  case False
  let ?t = "a64_goto (a64_pc s + 4) s"
  have "code_at (a64_mem ?t) (a64_pc ?t) (u32_le 0x58000050 @ u32_le 0xD61F0200 @ u64_le dest)"
    using assms(2) by (simp add: add.assoc)
  from a64_jmp_abs_run [OF this]
  have "a64_run (Suc (Suc (Suc 0))) s = Some (s\<lparr>a64_pc := dest, a64_regs := (a64_regs s)(16 := dest)\<rparr>)"
    using assms(1) False by (simp add: a64_goto_def)
  then show ?thesis unfolding if_not_P [OF False] by blast
qed

lemma scast_20_21: "scast (ucast (push_bit 2 (5 :: u32)) :: 21 word) = (20 :: u64)"
  "scast (ucast (push_bit 2 (5 :: u32)) :: 16 word) = (20 :: u64)"
  by (simp_all only: scast_eq) simp_all

lemma cbz_far_run:
  assumes "thunk_generate (cbz_far (ucast i AND 0x1F) (bit i 31) (bit i 24) dest) (a64_pc s) = Ok code"
    and "code_at (a64_mem s) (a64_pc s) code"
  shows "length code = 20 \<and> (\<exists>n v. a64_run n s = Some (s\<lparr>a64_pc :=
      (if a64_cb_taken s i then dest else a64_pc s + 20), a64_regs := (a64_regs s)(16 := v)\<rparr>))"
proof -
  let ?w = "cb_word (bit i 31) (bit i 24) i"
  have code: "code = u32_le ?w @ u32_le 0x58000050 @ u32_le 0xD61F0200 @ u64_le dest"
    using assms(1) by (simp add: cbz_far_code)
  then have "fetch32 (a64_mem s) (a64_pc s) = ?w" using assms(2) by (auto intro: code_at_u32)
  moreover have "a64_cb_taken s ?w \<longleftrightarrow> \<not> a64_cb_taken s i"
    by (simp add: a64_cb_taken_def cb_word_fields cb_word_bits Let_def)
  moreover have "a64_imm19 ?w = 20"
    using a64_imm19_take [of ?w 5] by (simp add: cb_word_fields scast_20_21 del: push_bit_numeral)
  ultimately have "a64_step s = Some (a64_goto (if \<not> a64_cb_taken s i then a64_pc s + 20 else a64_pc s + 4) s)"
    using a64_step_cb [of s ?w] cb_word_fields by simp
  from a64_inverted_run [OF this] assms(2) code show ?thesis by (auto split: if_splits)
qed

lemma tbz_far_run:
  assumes "thunk_generate (tbz_far (ucast i AND 0x1F) (tb_bit i) (bit i 24) dest) (a64_pc s) = Ok code"
    and "code_at (a64_mem s) (a64_pc s) code"
  shows "length code = 20 \<and> (\<exists>n v. a64_run n s = Some (s\<lparr>a64_pc :=
      (if a64_tb_taken s i then dest else a64_pc s + 20), a64_regs := (a64_regs s)(16 := v)\<rparr>))"
proof -
  let ?w = "tb_word (bit i 24) i"
  have f: "?w AND 0x7E000000 = 0x36000000" "drop_bit 5 ?w AND 0x3FFF = 5" "?w AND 0x1F = i AND 0x1F"
    "drop_bit 19 ?w AND 0x1F = drop_bit 19 i AND 0x1F"
    by (cases "bit i 24"; simp only: tb_word_fields)+
  have code: "code = u32_le ?w @ u32_le 0x58000050 @ u32_le 0xD61F0200 @ u64_le dest"
    using assms(1) by (simp add: tbz_far_code)
  then have "fetch32 (a64_mem s) (a64_pc s) = ?w" using assms(2) by (auto intro: code_at_u32)
  moreover have "a64_tb_taken s ?w \<longleftrightarrow> \<not> a64_tb_taken s i"
    by (simp add: a64_tb_taken_def f tb_word_bits)
  moreover have "a64_imm14 ?w = 20"
    using a64_imm14_take [of ?w 5] by (simp add: f scast_20_21 del: push_bit_numeral)
  ultimately have "a64_step s = Some (a64_goto (if \<not> a64_tb_taken s i then a64_pc s + 20 else a64_pc s + 4) s)"
    using a64_step_tb [of s ?w] f by simp
  from a64_inverted_run [OF this] assms(2) code show ?thesis by (auto split: if_splits)
qed

section \<open>Literal loads\<close>

text \<open>The three loads: 64 bits, 32 bits, 32 bits sign-extended.\<close>

datatype a64_load_kind = LdrX | LdrW | LdrSW

definition a64_load :: "a64_load_kind \<Rightarrow> 64 mem \<Rightarrow> u64 \<Rightarrow> u64" where
  "a64_load k m a = (case k of LdrX \<Rightarrow> fetch64 m a | LdrW \<Rightarrow> ucast (fetch32 m a) | LdrSW \<Rightarrow> scast (fetch32 m a))"

definition ldr_base :: "a64_load_kind \<Rightarrow> u32" where
  "ldr_base k = (case k of LdrX \<Rightarrow> 0xF9400000 | LdrW \<Rightarrow> 0xB9400000 | LdrSW \<Rightarrow> 0xB9800000)"

lemma ldr_word_fields:
  fixes x :: u32
  shows
  "(0xF9400000 OR 0x200 OR (x AND 0x1F)) AND 0xFFC00000 = 0xF9400000" "(0xF9400000 OR 0x200 OR (x AND 0x1F)) AND 0x1F = x AND 0x1F"
  "drop_bit 5 (0xF9400000 OR 0x200 OR (x AND 0x1F)) AND 0x1F = 16" "drop_bit 10 (0xF9400000 OR 0x200 OR (x AND 0x1F)) AND 0xFFF = 0"
  "(0xF9400000 OR 0x220 OR (x AND 0x1F)) AND 0xFFC00000 = 0xF9400000" "(0xF9400000 OR 0x220 OR (x AND 0x1F)) AND 0x1F = x AND 0x1F"
  "drop_bit 5 (0xF9400000 OR 0x220 OR (x AND 0x1F)) AND 0x1F = 17" "drop_bit 10 (0xF9400000 OR 0x220 OR (x AND 0x1F)) AND 0xFFF = 0"
  "(0xB9400000 OR 0x200 OR (x AND 0x1F)) AND 0xFFC00000 = 0xB9400000" "(0xB9400000 OR 0x200 OR (x AND 0x1F)) AND 0x1F = x AND 0x1F"
  "drop_bit 5 (0xB9400000 OR 0x200 OR (x AND 0x1F)) AND 0x1F = 16" "drop_bit 10 (0xB9400000 OR 0x200 OR (x AND 0x1F)) AND 0xFFF = 0"
  "(0xB9400000 OR 0x220 OR (x AND 0x1F)) AND 0xFFC00000 = 0xB9400000" "(0xB9400000 OR 0x220 OR (x AND 0x1F)) AND 0x1F = x AND 0x1F"
  "drop_bit 5 (0xB9400000 OR 0x220 OR (x AND 0x1F)) AND 0x1F = 17" "drop_bit 10 (0xB9400000 OR 0x220 OR (x AND 0x1F)) AND 0xFFF = 0"
  "(0xB9800000 OR 0x200 OR (x AND 0x1F)) AND 0xFFC00000 = 0xB9800000" "(0xB9800000 OR 0x200 OR (x AND 0x1F)) AND 0x1F = x AND 0x1F"
  "drop_bit 5 (0xB9800000 OR 0x200 OR (x AND 0x1F)) AND 0x1F = 16" "drop_bit 10 (0xB9800000 OR 0x200 OR (x AND 0x1F)) AND 0xFFF = 0"
  "(0xB9800000 OR 0x220 OR (x AND 0x1F)) AND 0xFFC00000 = 0xB9800000" "(0xB9800000 OR 0x220 OR (x AND 0x1F)) AND 0x1F = x AND 0x1F"
  "drop_bit 5 (0xB9800000 OR 0x220 OR (x AND 0x1F)) AND 0x1F = 17" "drop_bit 10 (0xB9800000 OR 0x220 OR (x AND 0x1F)) AND 0xFFF = 0"
  by (rule u32_eqI; simp add: upt_rec; elim disjE; simp add: bit_simps; simp add: eval_nat_numeral)+

definition ldr_scale :: "a64_load_kind \<Rightarrow> u64" where
  "ldr_scale k = (case k of LdrX \<Rightarrow> 8 | LdrW \<Rightarrow> 4 | LdrSW \<Rightarrow> 4)"

lemma a64_step_ldr_imm:
  assumes "fetch32 (a64_mem s) (a64_pc s) = i" "i AND 0xFFC00000 = ldr_base k"
    and "drop_bit 5 i AND 0x1F \<noteq> 31"
  shows "a64_step s = Some (a64_goto (a64_pc s + 4) (a64_set (i AND 0x1F)
    (a64_load k (a64_mem s) (a64_get s (drop_bit 5 i AND 0x1F) + ldr_scale k * ucast (drop_bit 10 i AND 0xFFF))) s))"
proof (cases k)
  case LdrX
  then have m: "i AND 0xFFC00000 = 0xF9400000" using assms(2) by (simp add: ldr_base_def)
  show ?thesis unfolding a64_step_def Let_def assms(1)
    using m assms(3) LdrX by (simp add: mask_differ [OF m] a64_load_def ldr_scale_def)
next
  case LdrW
  then have m: "i AND 0xFFC00000 = 0xB9400000" using assms(2) by (simp add: ldr_base_def)
  show ?thesis unfolding a64_step_def Let_def assms(1)
    using m assms(3) LdrW by (simp add: mask_differ [OF m] a64_load_def ldr_scale_def)
next
  case LdrSW
  then have m: "i AND 0xFFC00000 = 0xB9800000" using assms(2) by (simp add: ldr_base_def)
  show ?thesis unfolding a64_step_def Let_def assms(1)
    using m assms(3) LdrSW by (simp add: mask_differ [OF m] a64_load_def ldr_scale_def)
qed

text \<open>The scratch register of a literal load into the register of \<open>x\<close>.\<close>

definition ldr_scratch :: "u32 \<Rightarrow> u32" where
  "ldr_scratch x = (if x AND 0x1F = 17 then 16 else 17)"

definition ldr_thunk :: "a64_load_kind \<Rightarrow> u8 \<Rightarrow> u64 \<Rightarrow> u64 thunk" where
  "ldr_thunk k rt a = (case k of LdrX \<Rightarrow> ldr_literal_64 rt a | LdrW \<Rightarrow> ldr_literal_32 rt a
     | LdrSW \<Rightarrow> ldrsw_literal rt a)"

lemma ucast_reg_17: "ucast (x AND 0x1F :: u32) = (17 :: u8) \<longleftrightarrow> x AND 0x1F = 17"
proof
  assume "ucast (x AND 0x1F) = (17 :: u8)"
  then have "ucast (ucast (x AND 0x1F) :: u8) = (17 :: u32)" by simp
  then show "x AND 0x1F = 17" by (simp only: ucast_reg)
qed simp

lemma ldr_thunk_code:
  "thunk_generate (ldr_thunk k (ucast (x AND 0x1F)) a) src = Ok
     (encode_mov_imm64 (ucast (ldr_scratch x)) a
      @ u32_le (ldr_base k OR push_bit 5 (ldr_scratch x) OR (x AND 0x1F)))"
  by (cases k; simp only: ldr_thunk_def a64_load_kind.case ldr_literal_64_def ldr_literal_32_def
      ldrsw_literal_def X16_def X17_def Let_def ldr_scratch_def ldr_base_def ucast_reg_17 ucast_reg
      thunk_generate.simps; simp)

lemma ldr_run:
  assumes "thunk_generate (ldr_thunk k (ucast (x AND 0x1F)) a) (a64_pc s) = Ok code"
    and "code_at (a64_mem s) (a64_pc s) code"
  shows "length code = 20 \<and> (\<exists>n. a64_run n s = Some (a64_goto (a64_pc s + 20)
    (a64_set (x AND 0x1F) (a64_load k (a64_mem s) a) (a64_set (ldr_scratch x) a s))))"
proof -
  let ?a = "ldr_scratch x" let ?w = "ldr_base k OR push_bit 5 ?a OR (x AND 0x1F)"
  have a: "?a AND 0x1F = ?a" "?a \<noteq> 31" by (simp_all add: ldr_scratch_def)
  have code: "code = encode_mov_imm64 (ucast (?a AND 0x1F)) a @ u32_le ?w"
    using assms(1) a by (simp add: ldr_thunk_code)
  have len: "length (encode_mov_imm64 r v) = 16" for r v
    by (simp add: encode_mov_imm64_def Let_def)
  have mov: "code_at (a64_mem s) (a64_pc s) (encode_mov_imm64 (ucast (?a AND 0x1F)) a)"
    and ldr: "fetch32 (a64_mem s) (a64_pc s + 16) = ?w"
    using assms(2) code by (auto simp: len intro: code_at_u32)
  let ?t = "a64_goto (a64_pc s + 16) (a64_set ?a a s)"
  have f: "?w AND 0xFFC00000 = ldr_base k" "?w AND 0x1F = x AND 0x1F" "drop_bit 5 ?w AND 0x1F = ?a"
    "drop_bit 10 ?w AND 0xFFF = 0"
    by (cases k; cases "x AND 0x1F = 17"; simp add: ldr_base_def ldr_scratch_def ldr_word_fields)+
  have "a64_step ?t = Some (a64_goto (a64_pc ?t + 4) (a64_set (?w AND 0x1F)
      (a64_load k (a64_mem ?t) (a64_get ?t (drop_bit 5 ?w AND 0x1F)
        + ldr_scale k * ucast (drop_bit 10 ?w AND 0xFFF))) ?t))"
    using ldr f a by (intro a64_step_ldr_imm) simp_all
  then have "a64_run (Suc 0) ?t = Some (a64_goto (a64_pc s + 20)
      (a64_set (x AND 0x1F) (a64_load k (a64_mem s) a) (a64_set ?a a s)))"
    unfolding f using a by simp
  with a64_mov_run [OF mov] have "a64_run (Suc (Suc (Suc (Suc 0))) + Suc 0) s = Some (a64_goto (a64_pc s + 20)
      (a64_set (x AND 0x1F) (a64_load k (a64_mem s) a) (a64_set ?a a s)))"
    unfolding a64_run_add a(1) by simp
  moreover have "length code = 20" using code len by simp
  ultimately show ?thesis by blast
qed

section \<open>Calls\<close>

text \<open>
  A call thunk calls its destination, with the address of the literal inside the thunk as
  the return address: returning executes the literal.
\<close>

theorem a64_call_links_literal:
  assumes "thunk_generate (a64_call_abs dest) (a64_pc s) = Ok code" "code_at (a64_mem s) (a64_pc s) code"
  shows "\<exists>n t. a64_run n s = Some t \<and> a64_pc t = dest \<and> a64_get t 30 \<noteq> a64_pc s + of_nat (length code)
    \<and> code_at (a64_mem s) (a64_get t 30) (u64_le dest)"
proof -
  have code: "code = u32_le 0x58000050 @ u32_le 0xD63F0200 @ u64_le dest"
    using assms(1) by (simp add: a64_call_abs_def)
  have 1: "fetch32 (a64_mem s) (a64_pc s) = 0x58000050"
    and 2: "fetch32 (a64_mem s) (a64_pc s + 4) = 0xD63F0200"
    and 3: "code_at (a64_mem s) (a64_pc s + 8) (u64_le dest)"
    using assms(2) by (auto simp: code add.assoc intro!: code_at_u32)
  let ?t = "a64_goto dest (a64_set 30 (a64_pc s + 8) (a64_set 16 dest s))"
  have "a64_run (Suc (Suc 0)) s = Some ?t"
    using a64_step_ldr_x16 [OF 1] a64_step_blr_x16 [of "a64_goto (a64_pc s + 4) (a64_set 16 dest s)"] 2
      code_at_u64 [OF 3] by (simp add: add.assoc a64_set_def a64_goto_def)
  moreover have "a64_pc ?t = dest \<and> a64_get ?t 30 \<noteq> a64_pc s + of_nat (length code)
    \<and> code_at (a64_mem s) (a64_get ?t 30) (u64_le dest)"
    using 3 by (simp add: code)
  ultimately show ?thesis by blast
qed

theorem a64_call_links_literal_witness:
  "\<exists>n t. a64_run n \<lparr>a64_pc = 0x1000, a64_regs = (\<lambda>_. 0),
        a64_nzcv = \<lparr>NF = False, ZF = False, CF = False, VF = False\<rparr>,
        a64_mem = write_bytes (\<lambda>_. 0) 0x1000 (u32_le 0x58000050 @ u32_le 0xD63F0200 @ u64_le 0x2000)\<rparr> = Some t
    \<and> a64_pc t = 0x2000 \<and> a64_get t 30 \<noteq> 0x1010
    \<and> code_at (write_bytes (\<lambda>_. 0) 0x1000 (u32_le 0x58000050 @ u32_le 0xD63F0200 @ u64_le 0x2000))
        (a64_get t 30) (u64_le 0x2000)"
proof -
  let ?code = "u32_le 0x58000050 @ u32_le 0xD63F0200 @ u64_le 0x2000"
  let ?s = "\<lparr>a64_pc = 0x1000, a64_regs = (\<lambda>_. 0),
    a64_nzcv = \<lparr>NF = False, ZF = False, CF = False, VF = False\<rparr>, a64_mem = write_bytes (\<lambda>_. 0) 0x1000 ?code\<rparr>"
  have gen: "thunk_generate (a64_call_abs 0x2000) (a64_pc ?s) = Ok ?code"
    by (simp add: a64_call_abs_def)
  have placed: "code_at (a64_mem ?s) (a64_pc ?s) ?code"
    unfolding a64_cpu.simps by (rule code_at_write_bytes) simp
  show ?thesis using a64_call_links_literal [OF gen placed] by simp
qed

end
