(* ===== verification/Aarch64_Patcher.thy ===== *)
theory Aarch64_Patcher
  imports Aarch64_Thunk
begin

text \<open>
  \<^verbatim>\<open>src/arch/aarch64/patcher.rs\<close>: the four-byte patch, a \<^verbatim>\<open>B imm26\<close>. The flag \<open>dbg\<close> says
  whether debug assertions are compiled in.
\<close>

section \<open>The patch\<close>

definition a64_is_code_padding :: "u8 list \<Rightarrow> bool" where
  "a64_is_code_padding buf = list_all (\<lambda>chunk.
     case chunk of
       [b0, b1, b2, b3] \<Rightarrow> (let w = u32_of_le b0 b1 b2 b3 in w = 0xD503201F \<or> w = 0)
     | _ \<Rightarrow> list_all (\<lambda>b. b = 0x00) chunk) (chunks4 buf)"

definition a64_patch_area :: "64 mem \<Rightarrow> u64 \<Rightarrow> nat \<Rightarrow> (u64 \<times> nat) res" where
  "a64_patch_area m target prolog_size =
     (let JUMP_SIZE = 4 in
      if prolog_size \<ge> JUMP_SIZE then Ok (target, JUMP_SIZE)
      else
        let extra = read_bytes m (target + of_nat prolog_size) (JUMP_SIZE - prolog_size) in
        if a64_is_code_padding extra then Ok (target, JUMP_SIZE) else Err NoPatchArea)"

definition a64_branch_bytes :: "bool \<Rightarrow> u64 \<Rightarrow> u64 \<Rightarrow> u8 list res" where
  "a64_branch_bytes dbg src dst =
     (let displacement = dst - src in
      if dbg \<and> sint displacement mod 4 \<noteq> 0 then Panic
      else
        let imm26 = ucast (signed_drop_bit 2 displacement) AND 0x03FFFFFF
        in Ok (u32_le (0x14000000 OR imm26)))"

definition a64_patcher_new :: "bool \<Rightarrow> 64 mem \<Rightarrow> u64 \<Rightarrow> u64 \<Rightarrow> nat \<Rightarrow> u64 patcher res" where
  "a64_patcher_new dbg m target detour prolog_size =
     res_bind (a64_patch_area m target prolog_size) (\<lambda>(patch_address, len).
       res_bind (a64_branch_bytes dbg patch_address detour) (\<lambda>code.
         Ok \<lparr>area_ptr = patch_address, area_len = len,
             original_prolog = read_bytes m patch_address len, detour_prolog = code\<rparr>))"

section \<open>The patcher contract\<close>

lemma a64_patch_area_Ok:
  "a64_patch_area m target n = Ok (ptr, len) \<longleftrightarrow>
     ptr = target \<and> len = 4
     \<and> (4 \<le> n \<or> a64_is_code_padding (read_bytes m (target + of_nat n) (4 - n)))"
  by (auto simp: a64_patch_area_def Let_def)

lemma a64_patcher_new_Ok:
  "a64_patcher_new dbg m target detour n = Ok p \<longleftrightarrow>
     (\<exists>code. a64_patch_area m target n = Ok (area_ptr p, area_len p)
       \<and> a64_branch_bytes dbg (area_ptr p) detour = Ok code
       \<and> detour_prolog p = code
       \<and> original_prolog p = read_bytes m (area_ptr p) (area_len p))"
  by (cases p) (auto simp: a64_patcher_new_def)

lemma length_a64_branch_bytes: "a64_branch_bytes dbg src dst = Ok code \<Longrightarrow> length code = 4"
  by (auto simp: a64_branch_bytes_def Let_def split: if_splits)

lemma a64_step_b:
  assumes "fetch32 (a64_mem s) (a64_pc s) = i" "i AND 0xFC000000 = 0x14000000"
  shows "a64_step s = Some (a64_goto (a64_pc s + a64_imm26 i) s)"
  using assms by (simp add: a64_step_def Let_def)

definition b_word :: "u64 \<Rightarrow> u32" where
  "b_word d = 0x14000000 OR (ucast (signed_drop_bit 2 d) AND 0x03FFFFFF)"

lemma b_word_opcode: "b_word d AND 0xFC000000 = 0x14000000"
  unfolding b_word_def
  by (rule u32_eqI; simp add: upt_rec; elim disjE; simp add: bit_simps; simp add: eval_nat_numeral)

lemma a64_imm26_take:
  assumes "i AND 0x03FFFFFF = j AND 0x03FFFFFF"
  shows "a64_imm26 i = a64_imm26 j"
proof -
  have and_take: "k AND 0x03FFFFFF = take_bit 26 k" for k :: u32
    by (simp add: take_bit_eq_mask mask_eq_exp_minus_1)
  have "bit i n = bit j n" if "n < 26" for n
    using arg_cong [where f = "\<lambda>w. bit w n", OF assms] that by (simp add: and_take bit_take_bit_iff)
  then have "(ucast (push_bit 2 i) :: 28 word) = ucast (push_bit 2 j)"
    by (intro bit_word_eqI) (auto simp: bit_simps)
  then show ?thesis by (simp add: a64_imm26_def)
qed

lemma b_word_imm:
  assumes "take_bit 2 d = 0" "- 0x8000000 \<le> sint d" "sint d < 0x8000000"
  shows "a64_imm26 (b_word d) = d"
proof -
  have low: "\<not> bit d n" if "n < 2" for n
    using that bit_take_bit_iff [of 2 d n] assms(1) by simp
  have "b_word d AND 0x03FFFFFF = ucast (signed_drop_bit 2 d) AND 0x03FFFFFF"
    unfolding b_word_def
    by (rule u32_eqI; simp add: upt_rec; elim disjE; simp add: bit_simps; simp add: eval_nat_numeral)
  then have "a64_imm26 (b_word d) = a64_imm26 (ucast (signed_drop_bit 2 d))"
    by (rule a64_imm26_take)
  also have "(ucast (push_bit 2 (ucast (signed_drop_bit 2 d) :: u32)) :: 28 word) = ucast d"
  proof (rule bit_word_eqI)
    fix n
    assume n: "n < LENGTH(28)"
    show "bit (ucast (push_bit 2 (ucast (signed_drop_bit 2 d) :: u32)) :: 28 word) n = bit (ucast d :: 28 word) n"
    proof (cases "n < 2")
      case True
      then show ?thesis using low by (simp add: bit_simps)
    next
      case False
      then have "Suc (Suc (n - 2)) = n" by simp
      with False n show ?thesis by (simp add: bit_simps)
    qed
  qed
  then have "a64_imm26 (ucast (signed_drop_bit 2 d)) = d"
    unfolding a64_imm26_def using assms(2,3) by (simp add: scast_ucast_narrow)
  finally show ?thesis .
qed

text \<open>A destination is linked when the relay decision asks for no relay.\<close>

definition a64_near :: "u64 \<Rightarrow> u64 \<Rightarrow> bool" where
  "a64_near src dst \<longleftrightarrow> a64_relay_builder src dst = Ok None \<and> take_bit 2 (dst - src) = 0"

lemma a64_branch_lands:
  assumes "a64_near src dst" "a64_branch_bytes dbg src dst = Ok code" "code_at m src code"
  shows "a64_runs_to m src dst"
  unfolding a64_runs_to_def
proof (intro allI impI)
  fix s :: a64_cpu
  assume s: "a64_mem s = m \<and> a64_pc s = src"
  have range_d: "- 0x8000000 \<le> sint (dst - src)" "sint (dst - src) < 0x8000000" and "take_bit 2 (dst - src) = 0"
    using assms(1) by (simp_all add: a64_near_def a64_relay_builder_def Let_def is_within_range_def
        a64_DETOUR_RANGE_def split: if_splits)
  then have imm: "a64_imm26 (b_word (dst - src)) = dst - src" by (intro b_word_imm)
  have "code = u32_le (b_word (dst - src))"
    using assms(2) by (simp add: a64_branch_bytes_def Let_def b_word_def split: if_splits)
  then have "fetch32 (a64_mem s) (a64_pc s) = b_word (dst - src)"
    using assms(3) s by (auto intro: code_at_u32)
  from a64_step_b [OF this b_word_opcode] have "a64_run (Suc 0) s =
      Some (s\<lparr>a64_pc := dst, a64_regs := (a64_regs s)(16 := a64_regs s 16)\<rparr>)"
    using s by (simp add: imm a64_goto_def)
  then show "\<exists>n v. a64_run n s = Some (s\<lparr>a64_pc := dst, a64_regs := (a64_regs s)(16 := v)\<rparr>)" by blast
qed

interpretation a64_patcher: patcher_module "a64_patcher_new dbg" a64_runs_to
    "\<lambda>p target detour. a64_near target detour" for dbg
proof
  fix m target detour n p
  assume new: "a64_patcher_new dbg m target detour n = Ok p"
  then show orig: "original_prolog p = read_bytes m (area_ptr p) (area_len p)"
    by (simp add: a64_patcher_new_Ok)
  then show "patcher_wf p"
    using new by (auto simp: a64_patcher_new_Ok a64_patch_area_Ok patcher_wf_def
        dest: length_a64_branch_bytes)
next
  fix m target detour n p
  assume "a64_patcher_new dbg m target detour n = Ok p" "a64_near target detour"
  then show "area_len p \<le> 2 ^ LENGTH(64)"
    by (simp add: a64_patcher_new_Ok a64_patch_area_Ok)
next
  fix m m' target detour n p
  assume "a64_patcher_new dbg m target detour n = Ok p" "a64_near target detour"
    and "code_at m' (area_ptr p) (detour_prolog p)"
  then show "a64_runs_to m' target detour"
    by (auto simp: a64_patcher_new_Ok a64_patch_area_Ok intro: a64_branch_lands)
qed

section \<open>Properties\<close>

text \<open>
  Whenever the relay decision asks for no relay and the two addresses are aligned alike,
  enabling the patcher makes the target arrive at the detour: the range of the branch and the
  range of the decision agree.
\<close>

theorem a64_hook_reaches_detour:
  assumes "a64_relay_builder target detour = Ok None" "take_bit 2 (detour - target) = 0"
    and "a64_patcher_new dbg m target detour n = Ok p" "patcher_toggle p True m1 = Ok m2"
  shows "a64_runs_to m2 target detour"
  using a64_patcher.toggle_on_reaches [OF assms(3) _ assms(4)] assms(1,2) by (simp add: a64_near_def)

text \<open>The furthest distance backwards.\<close>

theorem a64_hook_reaches_detour_witness:
  "a64_runs_to (write_bytes (\<lambda>_. 0) 0x18000000 (u32_le 0x16000000)) 0x18000000 0x10000000"
proof -
  let ?m = "(\<lambda>_. 0) :: 64 mem" and ?code = "u32_le 0x16000000"
  let ?p = "\<lparr>area_ptr = 0x18000000, area_len = 4, original_prolog = read_bytes ?m 0x18000000 4,
    detour_prolog = ?code\<rparr>"
  have d: "(0x10000000 :: u64) - 0x18000000 = word_of_int (- 0x8000000)" by simp
  have sd: "sint ((0x10000000 :: u64) - 0x18000000) = - 0x8000000"
    unfolding d by (rule sint_word_of_int_u64) simp_all
  have relay: "a64_relay_builder 0x18000000 0x10000000 = Ok None"
    by (simp only: a64_relay_builder_def Let_def is_within_range_def sd a64_DETOUR_RANGE_def) simp
  have "a64_branch_bytes True 0x18000000 0x10000000 = Ok ?code"
    by (simp add: a64_branch_bytes_def Let_def)
  then have new: "a64_patcher_new True ?m 0x18000000 0x10000000 4 = Ok ?p"
    by (simp add: a64_patcher_new_Ok a64_patch_area_Ok)
  have "patcher_toggle ?p True ?m = Ok (write_bytes ?m 0x18000000 ?code)"
    by (simp add: patcher_toggle_def copy_from_slice_def)
  then show ?thesis
    using a64_hook_reaches_detour [OF relay _ new, of ?m] by simp
qed

end
