(* ===== verification/Aarch64_Trampoline.thy ===== *)
theory Aarch64_Trampoline
  imports Aarch64_Patcher
begin

text \<open>
  \<^verbatim>\<open>src/arch/aarch64/trampoline/mod.rs\<close>: classification and relocation of the instructions of
  the prolog. The patch is one instruction long, so the builder stops after the first one.
\<close>

section \<open>Processing one instruction\<close>

definition a64_process ::
  "u64 builder \<Rightarrow> u32 \<Rightarrow> u64 \<Rightarrow> (u64 thunk \<times> nat \<times> u64 builder) res" where
  "a64_process b instr pc =
     (let prolog = prolog_range b; copied = VecThunk (u32_le instr) in
      if instr AND 0xFC000000 = 0x14000000 then
        (let imm26 = sign_extend_bits (ucast (instr AND 0x03FFFFFF)) 26;
             dest = pc + push_bit 2 imm26;
             b = b\<lparr>finished := \<not> is_in_branch b pc\<rparr> in
         if in_range prolog dest then Ok (copied, 4, track_branch dest b)
         else Ok (a64_jmp_abs dest, 16, b))
      else if instr AND 0xFC000000 = 0x94000000 then
        (let imm26 = sign_extend_bits (ucast (instr AND 0x03FFFFFF)) 26;
             dest = pc + push_bit 2 imm26 in
         Ok (a64_call_abs dest, 16, b))
      else if instr AND 0x7E000000 = 0x34000000 then
        (let imm19 = sign_extend_bits (ucast (drop_bit 5 instr AND 0x7FFFF)) 19;
             dest = pc + push_bit 2 imm19;
             sf_64 = (drop_bit 31 instr \<noteq> 0);
             negate = (instr AND 0x01000000 \<noteq> 0) in
         if in_range prolog dest then Ok (copied, 4, track_branch dest b)
         else Ok (cbz_far (ucast instr AND 0x1F) sf_64 negate dest, 20, b))
      else if instr AND 0x7E000000 = 0x36000000 then
        (let imm14 = sign_extend_bits (ucast (drop_bit 5 instr AND 0x3FFF)) 14;
             dest = pc + push_bit 2 imm14;
             bit_no = ucast (push_bit 5 (drop_bit 31 instr AND 1) OR (drop_bit 19 instr AND 0x1F));
             negate = (instr AND 0x01000000 \<noteq> 0) in
         if in_range prolog dest then Ok (copied, 4, track_branch dest b)
         else Ok (tbz_far (ucast instr AND 0x1F) bit_no negate dest, 20, b))
      else if instr AND 0x9F000000 = 0x10000000 then
        (let immlo = drop_bit 29 instr AND 0x3;
             immhi = drop_bit 5 instr AND 0x7FFFF;
             imm21 = sign_extend_bits (ucast (push_bit 2 immhi OR immlo)) 21;
             dest = pc + imm21;
             rd = ucast (instr AND 0x1F) in
         Ok (mov_imm64 rd dest, 16, b))
      else if instr AND 0x9F000000 = 0x90000000 then
        (let immlo = drop_bit 29 instr AND 0x3;
             immhi = drop_bit 5 instr AND 0x7FFFF;
             imm21 = sign_extend_bits (ucast (push_bit 2 immhi OR immlo)) 21;
             dest = (pc AND NOT 0xFFF) + push_bit 12 imm21;
             rd = ucast (instr AND 0x1F) in
         Ok (mov_imm64 rd dest, 16, b))
      else if instr AND 0x3B000000 = 0x18000000 then
        (let is_simd = (instr AND 0x04000000 \<noteq> 0) in
         if is_simd then Err UnsupportedInstruction
         else
           let imm19 = sign_extend_bits (ucast (drop_bit 5 instr AND 0x7FFFF)) 19;
               src_addr = pc + push_bit 2 imm19;
               rt = ucast (instr AND 0x1F);
               opc2 = drop_bit 30 instr AND 0x3;
               t = (if opc2 = 0 then ldr_literal_32 rt src_addr
                    else if opc2 = 1 then ldr_literal_64 rt src_addr
                    else if opc2 = 2 then ldrsw_literal rt src_addr
                    else a64_nop);
               sz = thunk_len t in
           Ok (t, sz, b))
      else if instr AND 0xFFFFFC1F = 0xD65F0000 then
        Ok (copied, 4, b\<lparr>finished := \<not> is_in_branch b pc\<rparr>)
      else Ok (copied, 4, b))"

lemma a64_process_frame:
  "a64_process b instr pc = Ok (t, sz, b') \<Longrightarrow>
     b_target b' = b_target b \<and> margin b' = margin b \<and> total_bytes b' = total_bytes b"
  by (auto simp: a64_process_def Let_def split: if_splits)

section \<open>Building the trampoline\<close>

function a64_build_loop ::
  "64 mem \<Rightarrow> u64 builder \<Rightarrow> u64 code_emitter \<Rightarrow> (u64 builder \<times> u64 code_emitter) res"
where
  "a64_build_loop m b emitter =
     (if finished b then Ok (b, emitter)
      else
        let instr_addr = b_target b + of_nat (total_bytes b);
            raw = fetch32 m instr_addr in
        res_bind (a64_process b raw instr_addr) (\<lambda>(thunk, sz, b).
          if is_in_branch b instr_addr \<and> sz \<noteq> 4 then Err UnsupportedInstruction
          else
            let emitter = add_thunk emitter thunk;
                b = b\<lparr>total_bytes := total_bytes b + 4\<rparr> in
            if total_bytes b \<ge> margin b \<and> \<not> finished b
            then a64_build_loop m (b\<lparr>finished := True\<rparr>)
                   (add_thunk emitter (a64_jmp_abs (b_target b + of_nat (total_bytes b))))
            else a64_build_loop m b emitter))"
  by pat_completeness auto
termination
  by (relation "measure (\<lambda>(m, b, emitter). if finished b then 0 else Suc (margin b - total_bytes b))")
     (auto dest!: a64_process_frame)

declare a64_build_loop.simps [simp del]

definition a64_build :: "64 mem \<Rightarrow> u64 builder \<Rightarrow> u64 trampoline res" where
  "a64_build m b =
     res_bind (a64_build_loop m b emitter_new) (\<lambda>(b, emitter).
       Ok \<lparr>tramp_emitter = emitter, tramp_prolog_size = total_bytes b\<rparr>)"

definition a64_trampoline_new :: "64 mem \<Rightarrow> u64 \<Rightarrow> nat \<Rightarrow> u64 trampoline res" where
  "a64_trampoline_new m target k = a64_build m (builder_new target k)"

section \<open>The immediates follow the architecture manual\<close>

lemma sign_extend_scaled:
  fixes x :: u32
  assumes "k + 2 = LENGTH('w::len)" "0 < k" "k \<le> 30"
  shows "push_bit 2 (sign_extend_bits (ucast (take_bit k x) :: u64) k) = (scast (ucast (push_bit 2 x) :: 'w word) :: u64)"
proof (rule bit_word_eqI)
  fix n
  assume n: "n < LENGTH(64)"
  consider "n < 2" | "2 \<le> n" "n < k + 1" | "n = k + 1" | "k + 2 \<le> n" by linarith
  then show "bit (push_bit 2 (sign_extend_bits (ucast (take_bit k x) :: u64) k)) n
      = bit (scast (ucast (push_bit 2 x) :: 'w word) :: u64) n"
    using assms(1) [symmetric] assms(2,3) n
    by cases (auto simp: sign_extend_bits_def Let_def bit_simps min_def)
qed

lemma and_mask_take:
  "(x :: u32) AND 0x03FFFFFF = take_bit 26 x" "x AND 0x7FFFF = take_bit 19 x" "x AND 0x3FFF = take_bit 14 x"
  by (simp_all add: take_bit_eq_mask mask_eq_exp_minus_1)

lemma a64_imm_code:
  "push_bit 2 (sign_extend_bits (ucast (i AND 0x03FFFFFF)) 26) = a64_imm26 i"
  "push_bit 2 (sign_extend_bits (ucast (drop_bit 5 i AND 0x7FFFF)) 19) = a64_imm19 i"
  "push_bit 2 (sign_extend_bits (ucast (drop_bit 5 i AND 0x3FFF)) 14) = a64_imm14 i"
  unfolding and_mask_take a64_imm26_def a64_imm19_def a64_imm14_def
  by (rule sign_extend_scaled; simp)+

lemma a64_imm21_code:
  "sign_extend_bits (ucast (push_bit 2 (drop_bit 5 i AND 0x7FFFF) OR (drop_bit 29 i AND 0x3))) 21 = a64_imm21 i"
proof -
  let ?y = "push_bit 2 (drop_bit 5 i AND 0x7FFFF) OR (drop_bit 29 i AND 0x3)"
  have "sign_extend_bits (ucast ?y :: u64) 21 = scast (ucast ?y :: 21 word)"
  proof (rule bit_word_eqI)
    fix n
    assume "n < LENGTH(64)"
    then show "bit (sign_extend_bits (ucast ?y :: u64) 21) n = bit (scast (ucast ?y :: 21 word) :: u64) n"
      by (cases "n = 20") (auto simp: sign_extend_bits_eq bit_signed_take_bit_iff bit_word_scast_iff
          bit_unsigned_iff min_def)
  qed
  moreover have "(ucast ?y :: 21 word) = ucast (push_bit 2 (drop_bit 5 i) OR (drop_bit 29 i AND 3))"
    unfolding and_mask_take by (rule bit_word_eqI) (auto simp: bit_simps)
  ultimately show ?thesis by (simp add: a64_imm21_def)
qed

lemma cb_bits:
  "drop_bit 31 (i :: u32) \<noteq> 0 \<longleftrightarrow> bit i 31" "i AND 0x01000000 \<noteq> 0 \<longleftrightarrow> bit i 24"
proof -
  have "drop_bit 31 i = of_bool (bit i 31)"
  proof (rule bit_word_eqI)
    fix n
    show "bit (drop_bit 31 i) n = bit (of_bool (bit i 31) :: u32) n"
      by (cases n) (auto simp: bit_simps dest: bit_imp_le_length)
  qed
  then show "drop_bit 31 i \<noteq> 0 \<longleftrightarrow> bit i 31" by simp
  have "i AND 0x01000000 = (if bit i 24 then 0x01000000 else 0)"
    by (rule u32_eqI) (simp add: upt_rec; elim disjE; simp add: bit_simps; simp add: eval_nat_numeral)
  then show "i AND 0x01000000 \<noteq> 0 \<longleftrightarrow> bit i 24" by simp
qed

section \<open>The trampoline of one instruction\<close>

lemma a64_prolog_branch_size:
  "a64_process (builder_new target k) i target = Ok (t, sz, b') \<Longrightarrow> is_in_branch b' target \<Longrightarrow> sz = 4"
  by (auto simp: a64_process_def Let_def is_in_branch_def split: if_splits)

lemma a64_trampoline_4:
  assumes "a64_process (builder_new target 4) (fetch32 m target) target = Ok (t, sz, b)"
  shows "a64_trampoline_new m target 4 = Ok
    \<lparr>tramp_emitter = \<lparr>thunks = t # (if finished b then [] else [a64_jmp_abs (target + 4)])\<rparr>,
     tramp_prolog_size = 4\<rparr>"
proof -
  have frame: "b_target b = target" "margin b = 4" "total_bytes b = 0"
    using a64_process_frame [OF assms] by simp_all
  have size: "\<not> (is_in_branch b target \<and> sz \<noteq> 4)"
    using a64_prolog_branch_size [OF assms] by blast
  have "a64_build_loop m (builder_new target 4) emitter_new = Ok (b\<lparr>total_bytes := 4, finished := True\<rparr>,
      \<lparr>thunks = t # (if finished b then [] else [a64_jmp_abs (target + 4)])\<rparr>)"
    by (subst a64_build_loop.simps, simp add: assms size frame Let_def add_thunk_def emitter_new_def,
        subst a64_build_loop.simps, simp,
        subst a64_build_loop.simps, simp)
  then show ?thesis by (simp add: a64_trampoline_new_def a64_build_def)
qed

section \<open>One relocated instruction\<close>

lemma a64_step_adr:
  assumes "fetch32 (a64_mem s) (a64_pc s) = i" "i AND 0x9F000000 = 0x10000000"
  shows "a64_step s = Some (a64_goto (a64_pc s + 4) (a64_set (i AND 0x1F) (a64_pc s + a64_imm21 i) s))"
  unfolding a64_step_def Let_def assms(1) using assms(2) by (simp add: mask_differ [OF assms(2)])

lemma a64_step_adrp:
  assumes "fetch32 (a64_mem s) (a64_pc s) = i" "i AND 0x9F000000 = 0x90000000"
  shows "a64_step s = Some (a64_goto (a64_pc s + 4)
    (a64_set (i AND 0x1F) ((a64_pc s AND NOT 0xFFF) + push_bit 12 (a64_imm21 i)) s))"
  unfolding a64_step_def Let_def assms(1) using assms(2) by (simp add: mask_differ [OF assms(2)])

text \<open>The loads of the literal family, by their upper two bits.\<close>

lemma a64_literal_opcode:
  assumes "(i :: u32) AND 0x3B000000 = 0x18000000" "i AND 0x04000000 = 0"
  shows "i AND 0xFF000000 = 0x18000000 OR push_bit 30 (drop_bit 30 i AND 3)"
proof -
  have "i AND 0xFF000000 = (i AND 0x3B000000) OR (i AND 0x04000000) OR push_bit 30 (drop_bit 30 i AND 3)"
    by (rule u32_eqI; simp add: upt_rec; elim disjE; simp add: bit_simps; simp add: eval_nat_numeral)
  then show ?thesis using assms by simp
qed

lemma two_bits_cases: "drop_bit 30 (i :: u32) AND 3 \<in> {0, 1, 2, 3}"
proof -
  have "drop_bit 30 i AND 3 \<le> 3" by (rule word_and_le1)
  then have "drop_bit 30 i AND 3 < of_nat 4" by (simp add: le_less_trans)
  from word_less_of_nat_cases [OF this] show ?thesis by (auto simp: upt_rec)
qed

lemma a64_step_literal:
  assumes "fetch32 (a64_mem s) (a64_pc s) = i" "i AND 0xFF000000 = 0x18000000 OR push_bit 30 c"
  shows "c = 0 \<Longrightarrow> a64_step s = Some (a64_goto (a64_pc s + 4)
      (a64_set (i AND 0x1F) (a64_load LdrW (a64_mem s) (a64_pc s + a64_imm19 i)) s))"
    and "c = 1 \<Longrightarrow> a64_step s = Some (a64_goto (a64_pc s + 4)
      (a64_set (i AND 0x1F) (a64_load LdrX (a64_mem s) (a64_pc s + a64_imm19 i)) s))"
    and "c = 2 \<Longrightarrow> a64_step s = Some (a64_goto (a64_pc s + 4)
      (a64_set (i AND 0x1F) (a64_load LdrSW (a64_mem s) (a64_pc s + a64_imm19 i)) s))"
    and "c = 3 \<Longrightarrow> a64_step s = Some (a64_goto (a64_pc s + 4) s)"
proof -
  note m = assms(2)
  show "a64_step s = Some (a64_goto (a64_pc s + 4)
      (a64_set (i AND 0x1F) (a64_load LdrW (a64_mem s) (a64_pc s + a64_imm19 i)) s))" if c: "c = 0"
    unfolding a64_step_def Let_def assms(1) using m c by (simp add: mask_differ [OF m] a64_load_def)
  show "a64_step s = Some (a64_goto (a64_pc s + 4)
      (a64_set (i AND 0x1F) (a64_load LdrX (a64_mem s) (a64_pc s + a64_imm19 i)) s))" if c: "c = 1"
    unfolding a64_step_def Let_def assms(1) using m c by (simp add: mask_differ [OF m] a64_load_def)
  show "a64_step s = Some (a64_goto (a64_pc s + 4)
      (a64_set (i AND 0x1F) (a64_load LdrSW (a64_mem s) (a64_pc s + a64_imm19 i)) s))" if c: "c = 2"
    unfolding a64_step_def Let_def assms(1) using m c by (simp add: mask_differ [OF m] a64_load_def)
  show "a64_step s = Some (a64_goto (a64_pc s + 4) s)" if c: "c = 3"
    unfolding a64_step_def Let_def assms(1) using m c by (simp add: mask_differ [OF m])
qed

lemma a64_step_nop:
  assumes "fetch32 (a64_mem s) (a64_pc s) = 0xD503201F"
  shows "a64_step s = Some (a64_goto (a64_pc s + 4) s)"
  using assms by (simp add: a64_step_def Let_def)

text \<open>The two memories hold the same data wherever the instruction \<open>i\<close> of state \<open>s\<close> loads.\<close>

definition a64_same_data :: "64 mem \<Rightarrow> a64_cpu \<Rightarrow> u32 \<Rightarrow> bool" where
  "a64_same_data m' s i \<longleftrightarrow>
     (i AND 0x3B000000 = 0x18000000 \<longrightarrow>
        read_bytes m' (a64_pc s + a64_imm19 i) 8 = read_bytes (a64_mem s) (a64_pc s + a64_imm19 i) 8)
   \<and> (i AND 0x3B000000 = 0x39000000 \<longrightarrow> (\<forall>k \<in> {LdrX, LdrW, LdrSW}.
        let a = a64_get s (drop_bit 5 i AND 0x1F) + ldr_scale k * ucast (drop_bit 10 i AND 0xFFF)
        in read_bytes m' a 8 = read_bytes (a64_mem s) a 8))"

lemma read_8_fetch:
  assumes "read_bytes m' a 8 = read_bytes m a 8"
  shows "fetch32 m' a = fetch32 m a" "fetch64 m' a = fetch64 m a"
  using assms by (simp_all add: read_bytes_def upt_rec fetch32_def fetch64_def add.assoc)

lemma a64_load_same: "read_bytes m' a 8 = read_bytes m a 8 \<Longrightarrow> a64_load k m' a = a64_load k m a"
  by (cases k) (simp_all add: a64_load_def read_8_fetch [of m' a m])

text \<open>Instructions that do not depend on their address run the same anywhere.\<close>

definition a64_address_free :: "u32 \<Rightarrow> bool" where
  "a64_address_free i \<longleftrightarrow> i AND 0xFC000000 \<noteq> 0x14000000 \<and> i AND 0xFC000000 \<noteq> 0x94000000
     \<and> i AND 0xFF000010 \<noteq> 0x54000000 \<and> i AND 0x7E000000 \<noteq> 0x34000000 \<and> i AND 0x7E000000 \<noteq> 0x36000000
     \<and> i AND 0x9F000000 \<noteq> 0x10000000 \<and> i AND 0x9F000000 \<noteq> 0x90000000
     \<and> i AND 0x3B000000 \<noteq> 0x18000000 \<and> i AND 0xFFFFFC1F \<noteq> 0xD63F0000"

lemma a64_step_br:
  assumes "fetch32 (a64_mem s) (a64_pc s) = i" "i AND 0xFFFFFC1F = 0xD61F0000 \<or> i AND 0xFFFFFC1F = 0xD65F0000"
  shows "a64_step s = Some (a64_goto (a64_get s (drop_bit 5 i AND 0x1F)) s)"
  using assms(2)
proof
  assume m: "i AND 0xFFFFFC1F = 0xD61F0000"
  show ?thesis unfolding a64_step_def Let_def assms(1) using m by (simp add: mask_differ [OF m])
next
  assume m: "i AND 0xFFFFFC1F = 0xD65F0000"
  show ?thesis unfolding a64_step_def Let_def assms(1) using m by (simp add: mask_differ [OF m])
qed

lemma a64_address_free_cases:
  assumes "a64_address_free i" "fetch32 (a64_mem o1) (a64_pc o1) = i" "a64_step o1 = Some o2"
  obtains "i AND 0xFF800000 = 0xD2800000" | "i AND 0xFFC00000 = 0x52800000" | "i AND 0xFF800000 = 0xF2800000"
    | "i AND 0xFFFFFC1F = 0xD61F0000 \<or> i AND 0xFFFFFC1F = 0xD65F0000"
    | k where "i AND 0xFFC00000 = ldr_base k" "drop_bit 5 i AND 0x1F \<noteq> 31" | "i = 0xD503201F"
proof -
  have lits: "i AND 0xFF000000 \<noteq> 0x18000000" "i AND 0xFF000000 \<noteq> 0x58000000"
    "i AND 0xFF000000 \<noteq> 0x98000000" "i AND 0xFF000000 \<noteq> 0xD8000000"
    using assms(1) mask_agree [of i "0xFF000000" _ "0x3B000000"] by (auto simp: a64_address_free_def)
  have "i AND 0xFF800000 = 0xD2800000 \<or> i AND 0xFFC00000 = 0x52800000 \<or> i AND 0xFF800000 = 0xF2800000
    \<or> (i AND 0xFFFFFC1F = 0xD61F0000 \<or> i AND 0xFFFFFC1F = 0xD65F0000)
    \<or> (\<exists>k. i AND 0xFFC00000 = ldr_base k) \<and> drop_bit 5 i AND 0x1F \<noteq> 31 \<or> i = 0xD503201F"
  proof (rule ccontr)
    assume "\<not> ?thesis"
    moreover from this have "drop_bit 5 i AND 0x1F \<noteq> 31 \<Longrightarrow> i AND 0xFFC00000 \<noteq> ldr_base k" for k by blast
    from this [of LdrX] this [of LdrW] this [of LdrSW]
    have "drop_bit 5 i AND 0x1F \<noteq> 31 \<Longrightarrow> i AND 0xFFC00000 \<noteq> 0xF9400000"
      "drop_bit 5 i AND 0x1F \<noteq> 31 \<Longrightarrow> i AND 0xFFC00000 \<noteq> 0xB9400000"
      "drop_bit 5 i AND 0x1F \<noteq> 31 \<Longrightarrow> i AND 0xFFC00000 \<noteq> 0xB9800000" by (simp_all add: ldr_base_def)
    ultimately have "a64_step o1 = None"
      using assms(1) lits unfolding a64_step_def Let_def assms(2) a64_address_free_def
      by (cases "drop_bit 5 i AND 0x1F = 31") simp_all
    with assms(3) show False by simp
  qed
  then show thesis using that by blast
qed

lemma a64_step_address_free:
  assumes "a64_address_free i" "fetch32 (a64_mem o1) (a64_pc o1) = i" "fetch32 (a64_mem s) (a64_pc s) = i"
    and "a64_regs s = a64_regs o1" "a64_nzcv s = a64_nzcv o1" "a64_same_data (a64_mem s) o1 i"
    and "a64_step o1 = Some o2"
  shows "\<exists>u. a64_step s = Some u \<and> a64_mem u = a64_mem s \<and> a64_nzcv u = a64_nzcv o2 \<and> a64_regs u = a64_regs o2
    \<and> (a64_pc u = a64_pc o2 \<or> i AND 0xFFFFFC1F \<noteq> 0xD65F0000 \<and> a64_pc o2 = a64_pc o1 + 4 \<and> a64_pc u = a64_pc s + 4)"
proof -
  have get: "a64_get s = a64_get o1" using assms(4) by (simp add: a64_get_def fun_eq_iff)
  have set: "a64_regs (a64_set r v s) = a64_regs (a64_set r v o1)" for r v
    using assms(4) by (simp add: a64_set_def)
  show ?thesis
  proof (rule a64_address_free_cases [OF assms(1,2,7)])
    assume m: "i AND 0xFF800000 = 0xD2800000"
    show ?thesis
      using a64_step_movz [OF assms(2) m] a64_step_movz [OF assms(3) m] assms(5,7) set mask_differ [OF m]
      by (auto simp: get)
  next
    assume m: "i AND 0xFFC00000 = 0x52800000"
    show ?thesis
      using a64_step_movz32 [OF assms(2) m] a64_step_movz32 [OF assms(3) m] assms(5,7) set mask_differ [OF m]
      by (auto simp: get)
  next
    assume m: "i AND 0xFF800000 = 0xF2800000"
    show ?thesis
      using a64_step_movk [OF assms(2) m] a64_step_movk [OF assms(3) m] assms(5,7) set mask_differ [OF m]
      by (auto simp: get)
  next
    assume m: "i AND 0xFFFFFC1F = 0xD61F0000 \<or> i AND 0xFFFFFC1F = 0xD65F0000"
    show ?thesis
      using a64_step_br [OF assms(2) m] a64_step_br [OF assms(3) m] assms(4,5,7) by (auto simp: get)
  next
    fix k
    assume m: "i AND 0xFFC00000 = ldr_base k" and rn: "drop_bit 5 i AND 0x1F \<noteq> 31"
    have "i AND 0x3B000000 = ldr_base k AND 0x3B000000" by (rule mask_agree [OF m]) simp
    then have "i AND 0x3B000000 = 0x39000000" by (cases k) (simp_all add: ldr_base_def)
    moreover have "k \<in> {LdrX, LdrW, LdrSW}" by (cases k) simp_all
    ultimately have data: "a64_load k (a64_mem s)
        (a64_get o1 (drop_bit 5 i AND 0x1F) + ldr_scale k * ucast (drop_bit 10 i AND 0xFFF)) =
      a64_load k (a64_mem o1)
        (a64_get o1 (drop_bit 5 i AND 0x1F) + ldr_scale k * ucast (drop_bit 10 i AND 0xFFF))"
      using assms(6) unfolding a64_same_data_def Let_def by (intro a64_load_same) blast
    have "i AND 0xFFFFFC1F \<noteq> 0xD65F0000"
      using mask_agree [of i "0xFFFFFC1F" "0xD65F0000" "0x3B000000"] \<open>i AND 0x3B000000 = 0x39000000\<close> by auto
    then show ?thesis
      using a64_step_ldr_imm [OF assms(2) m rn] a64_step_ldr_imm [OF assms(3) m rn] assms(5,7) set
      by (auto simp: get data)
  next
    assume i: "i = 0xD503201F"
    show ?thesis
      using a64_step_nop [of o1] a64_step_nop [of s] assms i by auto
  qed
qed

text \<open>A branch into the one-instruction prolog is a branch to the target itself.\<close>

lemma prolog_self:
  assumes "take_bit 2 (d :: u64) = 0" "in_range (prolog_range (builder_new target 4)) (target + d)"
  shows "d = 0"
proof -
  have "target \<le> target + d" "target + d < target + 4"
    using assms(2) by (simp_all add: in_range_def prolog_range_def)
  then have "d < 4"
    by unat_arith
  moreover have "uint d mod 4 = 0"
    using assms(1) by (metis take_bit_eq_mod unsigned_take_bit_eq uint_0_eq power2_eq_square mult_2 numeral_Bit0 one_add_one)
  ultimately have "uint d = 0"
    by (simp add: word_less_def)
  then show ?thesis by (simp only: unsigned_eq_0_iff)
qed

lemma a64_imm_aligned: "take_bit 2 (a64_imm26 i) = 0" "take_bit 2 (a64_imm19 i) = 0" "take_bit 2 (a64_imm14 i) = 0"
  by (rule bit_word_eqI; auto simp: a64_imm26_def a64_imm19_def a64_imm14_def bit_simps)+

text \<open>Equal registers, up to the two scratch registers of procedure calls.\<close>

definition a64_same_regs :: "(u32 \<Rightarrow> u64) \<Rightarrow> (u32 \<Rightarrow> u64) \<Rightarrow> bool" where
  "a64_same_regs f g \<longleftrightarrow> (\<forall>r. r \<noteq> 16 \<and> r \<noteq> 17 \<longrightarrow> f r = g r)"

lemma a64_same_regsI [simp]: "a64_same_regs f f" "a64_same_regs (f(16 := v)) f" "a64_same_regs (f(17 := v)) f"
  by (simp_all add: a64_same_regs_def)

text \<open>Where a relocated instruction leaves the processor.\<close>

definition a64_piece_ok :: "u64 \<Rightarrow> a64_cpu \<Rightarrow> u64 \<Rightarrow> bool \<Rightarrow> a64_cpu \<Rightarrow> a64_cpu \<Rightarrow> bool" where
  "a64_piece_ok target o2 next_pc fin s u \<longleftrightarrow>
     a64_mem u = a64_mem s \<and> a64_nzcv u = a64_nzcv o2 \<and> a64_same_regs (a64_regs u) (a64_regs o2)
     \<and> (a64_pc u = a64_pc o2 \<or> \<not> fin \<and> a64_pc o2 = target + 4 \<and> a64_pc u = next_pc)"

lemma a64_piece_verbatim:
  assumes "a64_address_free i" "fetch32 (a64_mem o1) target = i" "a64_pc o1 = target" "a64_step o1 = Some o2"
    and "a64_regs s = a64_regs o1" "a64_nzcv s = a64_nzcv o1" "a64_same_data (a64_mem s) o1 i"
    and "code_at (a64_mem s) (a64_pc s) (u32_le i)" "fin \<Longrightarrow> i AND 0xFFFFFC1F = 0xD65F0000"
  shows "\<exists>n u. a64_run n s = Some u \<and> a64_piece_ok target o2 (a64_pc s + 4) fin s u"
proof -
  obtain u where u: "a64_step s = Some u" "a64_mem u = a64_mem s" "a64_nzcv u = a64_nzcv o2"
    "a64_regs u = a64_regs o2"
    "a64_pc u = a64_pc o2 \<or> i AND 0xFFFFFC1F \<noteq> 0xD65F0000 \<and> a64_pc o2 = a64_pc o1 + 4 \<and> a64_pc u = a64_pc s + 4"
    using a64_step_address_free [OF assms(1) _ code_at_u32 [OF assms(8)] assms(5,6,7,4)] assms(2,3) by auto
  then have "a64_piece_ok target o2 (a64_pc s + 4) fin s u"
    using assms(3,9) by (auto simp: a64_piece_ok_def)
  moreover have "a64_run (Suc 0) s = Some u" using u(1) by simp
  ultimately show ?thesis by blast
qed

text \<open>The cases of \<^verbatim>\<open>process\<close> with the immediates of the manual.\<close>

lemma a64_process_cases:
  assumes "a64_process (builder_new target 4) i target = Ok (t, sz, b)"
    and "i AND 0xFC000000 \<noteq> 0x94000000" "i AND 0xFF000010 \<noteq> 0x54000000" "i AND 0xFFFFFC1F \<noteq> 0xD63F0000"
  obtains "i AND 0xFC000000 = 0x14000000" "t = a64_jmp_abs (target + a64_imm26 i)" "finished b"
    | "i AND 0xFC000000 = 0x14000000" "a64_imm26 i = 0" "t = VecThunk (u32_le i)"
    | "i AND 0x7E000000 = 0x34000000" "t = cbz_far (ucast i AND 0x1F) (bit i 31) (bit i 24) (target + a64_imm19 i)"
      "\<not> finished b"
    | "i AND 0x7E000000 = 0x34000000" "a64_imm19 i = 0" "t = VecThunk (u32_le i)" "\<not> finished b"
    | "i AND 0x7E000000 = 0x36000000" "t = tbz_far (ucast i AND 0x1F) (tb_bit i) (bit i 24) (target + a64_imm14 i)"
      "\<not> finished b"
    | "i AND 0x7E000000 = 0x36000000" "a64_imm14 i = 0" "t = VecThunk (u32_le i)" "\<not> finished b"
    | "i AND 0x9F000000 = 0x10000000" "t = mov_imm64 (ucast (i AND 0x1F)) (target + a64_imm21 i)" "\<not> finished b"
    | "i AND 0x9F000000 = 0x90000000"
      "t = mov_imm64 (ucast (i AND 0x1F)) ((target AND NOT 0xFFF) + push_bit 12 (a64_imm21 i))" "\<not> finished b"
    | k where "i AND 0x3B000000 = 0x18000000" "t = ldr_thunk k (ucast (i AND 0x1F)) (target + a64_imm19 i)"
      "i AND 0xFF000000 = 0x18000000 OR push_bit 30 (case k of LdrW \<Rightarrow> 0 | LdrX \<Rightarrow> 1 | LdrSW \<Rightarrow> 2)"
      "\<not> finished b"
    | "i AND 0xFF000000 = 0x18000000 OR push_bit 30 3" "t = a64_nop" "\<not> finished b"
    | "a64_address_free i" "t = VecThunk (u32_le i)" "finished b \<Longrightarrow> i AND 0xFFFFFC1F = 0xD65F0000"
proof -
  note rules = that
  note process = assms(1) [unfolded a64_process_def Let_def a64_imm_code a64_imm21_code cb_bits]
  let ?in = "\<lambda>d. in_range (prolog_range (builder_new target 4)) (target + d)"
  have self: "?in (a64_imm26 i) \<Longrightarrow> a64_imm26 i = 0" "?in (a64_imm19 i) \<Longrightarrow> a64_imm19 i = 0"
    "?in (a64_imm14 i) \<Longrightarrow> a64_imm14 i = 0"
    by (rule prolog_self; simp add: a64_imm_aligned)+
  consider (b) "i AND 0xFC000000 = 0x14000000"
    | (cb) "i AND 0xFC000000 \<noteq> 0x14000000" "i AND 0x7E000000 = 0x34000000"
    | (tb) "i AND 0xFC000000 \<noteq> 0x14000000" "i AND 0x7E000000 = 0x36000000"
    | (adr) "i AND 0x9F000000 = 0x10000000"
    | (adrp) "i AND 0x9F000000 = 0x90000000"
    | (ldr) "i AND 0x3B000000 = 0x18000000"
    | (free) "a64_address_free i"
    using assms(2-4) unfolding a64_address_free_def by blast
  then show thesis
  proof cases
    case b
    then show ?thesis using process self(1) that(1,2) by (auto split: if_splits)
  next
    case cb
    then show ?thesis using process assms(2) self(2) that(3,4) by (auto split: if_splits)
  next
    case tb
    then show ?thesis
      using process assms(2) self(3) that(5,6) mask_differ [OF tb(2)]
      by (auto simp: tb_bit_def split: if_splits)
  next
    case adr
    then show ?thesis using process that(7) mask_differ [OF adr] by auto
  next
    case adrp
    then show ?thesis using process that(8) mask_differ [OF adrp] by auto
  next
    case ldr
    have simd: "i AND 0x04000000 = 0"
      using process ldr mask_differ [OF ldr] by (auto split: if_splits)
    have op: "i AND 0xFF000000 = 0x18000000 OR push_bit 30 (drop_bit 30 i AND 3)"
      using ldr simd by (rule a64_literal_opcode)
    have t: "t = (if drop_bit 30 i AND 3 = 0 then ldr_literal_32 (ucast (i AND 0x1F)) (target + a64_imm19 i)
        else if drop_bit 30 i AND 3 = 1 then ldr_literal_64 (ucast (i AND 0x1F)) (target + a64_imm19 i)
        else if drop_bit 30 i AND 3 = 2 then ldrsw_literal (ucast (i AND 0x1F)) (target + a64_imm19 i)
        else a64_nop)" and "\<not> finished b"
      using process ldr simd mask_differ [OF ldr] by auto
    note t = this(1) and fin = this(2)
    have k: "thesis" if "drop_bit 30 i AND 3 = (case k of LdrW \<Rightarrow> 0 | LdrX \<Rightarrow> 1 | LdrSW \<Rightarrow> 2)" for k
    proof (rule rules(9) [OF ldr _ _ fin])
      show "t = ldr_thunk k (ucast (i AND 0x1F)) (target + a64_imm19 i)"
        using t \<open>drop_bit 30 i AND 3 = _\<close> by (cases k) (simp_all add: ldr_thunk_def)
      show "i AND 0xFF000000 = 0x18000000 OR push_bit 30 (case k of LdrW \<Rightarrow> 0 | LdrX \<Rightarrow> 1 | LdrSW \<Rightarrow> 2)"
        by (rule op [unfolded \<open>drop_bit 30 i AND 3 = _\<close>])
    qed
    from two_bits_cases [of i] consider "drop_bit 30 i AND 3 = 0" | "drop_bit 30 i AND 3 = 1"
      | "drop_bit 30 i AND 3 = 2" | "drop_bit 30 i AND 3 = 3" by blast
    then show ?thesis
    proof cases
      case 1
      then show ?thesis using k [of LdrW] by simp
    next
      case 2
      then show ?thesis using k [of LdrX] by simp
    next
      case 3
      then show ?thesis using k [of LdrSW] by simp
    next
      case 4
      show ?thesis using t 4 by (intro that(10) [OF op [unfolded 4] _ fin]) simp
    qed
  next
    case free
    then show ?thesis
      using process that(11) unfolding a64_address_free_def by (auto split: if_splits)
  qed
qed

lemma a64_mov_len: "length (encode_mov_imm64 r v) = 16"
  by (simp add: encode_mov_imm64_def Let_def)

lemma a64_set_same_regs:
  "a64_regs s = a64_regs o1 \<Longrightarrow> a64_regs (a64_set r v s) = a64_regs (a64_set r v o1)"
  by (simp add: a64_set_def)

lemma a64_scratch_same_regs:
  "a64_regs s = a64_regs o1 \<Longrightarrow>
     a64_same_regs (a64_regs (a64_set r v (a64_set (ldr_scratch x) w s))) (a64_regs (a64_set r v o1))"
  by (auto simp: a64_same_regs_def a64_set_def ldr_scratch_def)

lemma a64_piece_branch:
  assumes "a64_run n s = Some (s\<lparr>a64_pc := p, a64_regs := (a64_regs s)(16 := v)\<rparr>)"
    and "o2 = a64_goto q o1" "a64_regs s = a64_regs o1" "a64_nzcv s = a64_nzcv o1"
    and "p = q \<or> \<not> fin \<and> q = target + 4 \<and> p = next_pc"
  shows "\<exists>n u. a64_run n s = Some u \<and> a64_piece_ok target o2 next_pc fin s u"
proof -
  have "a64_piece_ok target o2 next_pc fin s (s\<lparr>a64_pc := p, a64_regs := (a64_regs s)(16 := v)\<rparr>)"
    using assms(2-5) by (auto simp: a64_piece_ok_def)
  with assms(1) show ?thesis by blast
qed

lemma a64_piece:
  assumes process: "a64_process (builder_new target 4) i target = Ok (t, sz, b)"
    and kind: "i AND 0xFC000000 \<noteq> 0x94000000" "i AND 0xFF000010 \<noteq> 0x54000000" "i AND 0xFFFFFC1F \<noteq> 0xD63F0000"
    and orig: "a64_pc o1 = target" "fetch32 (a64_mem o1) target = i" "a64_step o1 = Some o2" "a64_pc o2 \<noteq> target"
    and same: "a64_regs s = a64_regs o1" "a64_nzcv s = a64_nzcv o1" "a64_same_data (a64_mem s) o1 i"
    and placed: "thunk_generate t (a64_pc s) = Ok code" "code_at (a64_mem s) (a64_pc s) code"
  shows "\<exists>n u. a64_run n s = Some u \<and> a64_piece_ok target o2 (a64_pc s + of_nat (length code)) (finished b) s u"
proof -
  have get: "a64_get s = a64_get o1" using same(1) by (simp add: a64_get_def fun_eq_iff)
  have taken: "a64_cb_taken o1 i = a64_cb_taken s i" "a64_tb_taken o1 i = a64_tb_taken s i"
    by (simp_all add: a64_cb_taken_def a64_tb_taken_def get)
  have fetch: "fetch32 (a64_mem o1) (a64_pc o1) = i" using orig by simp
  from process kind show ?thesis
  proof (cases rule: a64_process_cases)
    case 1
    have o2: "o2 = a64_goto (target + a64_imm26 i) o1" using orig a64_step_b [OF fetch 1(1)] by simp
    have "a64_runs_to (a64_mem s) (a64_pc s) (target + a64_imm26 i)"
      using placed 1(2) by (intro a64_jmp.jmp_lands) simp_all
    then obtain n v where "a64_run n s = Some (s\<lparr>a64_pc := target + a64_imm26 i, a64_regs := (a64_regs s)(16 := v)\<rparr>)"
      unfolding a64_runs_to_def by blast
    then show ?thesis using o2 same(1,2) by (rule a64_piece_branch) simp
  next
    case 2
    then show ?thesis using orig a64_step_b [OF fetch] by auto
  next
    case 3
    have o2: "o2 = a64_goto (if a64_cb_taken s i then target + a64_imm19 i else target + 4) o1"
      using orig a64_step_cb [OF fetch 3(1)] by (auto simp: taken)
    obtain n v where len: "length code = 20" and run: "a64_run n s = Some (s\<lparr>a64_pc :=
        (if a64_cb_taken s i then target + a64_imm19 i else a64_pc s + 20), a64_regs := (a64_regs s)(16 := v)\<rparr>)"
      using cbz_far_run [OF _ placed(2)] placed(1) 3(2) by blast
    show ?thesis by (rule a64_piece_branch [OF run o2 same(1,2)]) (use 3(3) len in simp)
  next
    case 4
    have "\<not> a64_cb_taken s i" "o2 = a64_goto (target + 4) o1"
      using orig a64_step_cb [OF fetch 4(1)] 4(2) by (auto simp: taken split: if_splits)
    moreover have "fetch32 (a64_mem s) (a64_pc s) = i" using placed 4(3) by (auto intro: code_at_u32)
    ultimately have "a64_run (Suc 0) s = Some (a64_goto (a64_pc s + 4) s)"
      using a64_step_cb [OF _ 4(1), of s] by simp
    moreover have "a64_piece_ok target o2 (a64_pc s + of_nat (length code)) (finished b) s (a64_goto (a64_pc s + 4) s)"
      using \<open>o2 = a64_goto (target + 4) o1\<close> same placed(1) 4(3,4) by (auto simp: a64_piece_ok_def)
    ultimately show ?thesis by blast
  next
    case 5
    have o2: "o2 = a64_goto (if a64_tb_taken s i then target + a64_imm14 i else target + 4) o1"
      using orig a64_step_tb [OF fetch 5(1)] by (auto simp: taken)
    obtain n v where len: "length code = 20" and run: "a64_run n s = Some (s\<lparr>a64_pc :=
        (if a64_tb_taken s i then target + a64_imm14 i else a64_pc s + 20), a64_regs := (a64_regs s)(16 := v)\<rparr>)"
      using tbz_far_run [OF _ placed(2)] placed(1) 5(2) by blast
    show ?thesis by (rule a64_piece_branch [OF run o2 same(1,2)]) (use 5(3) len in simp)
  next
    case 6
    have "\<not> a64_tb_taken s i" "o2 = a64_goto (target + 4) o1"
      using orig a64_step_tb [OF fetch 6(1)] 6(2) by (auto simp: taken split: if_splits)
    moreover have "fetch32 (a64_mem s) (a64_pc s) = i" using placed 6(3) by (auto intro: code_at_u32)
    ultimately have "a64_run (Suc 0) s = Some (a64_goto (a64_pc s + 4) s)"
      using a64_step_tb [OF _ 6(1), of s] by simp
    moreover have "a64_piece_ok target o2 (a64_pc s + of_nat (length code)) (finished b) s (a64_goto (a64_pc s + 4) s)"
      using \<open>o2 = a64_goto (target + 4) o1\<close> same placed(1) 6(3,4) by (auto simp: a64_piece_ok_def)
    ultimately show ?thesis by blast
  next
    case 7
    have o2: "o2 = a64_goto (target + 4) (a64_set (i AND 0x1F) (target + a64_imm21 i) o1)"
      using orig a64_step_adr [OF fetch 7(1)] by simp
    have code: "code = encode_mov_imm64 (ucast (i AND 0x1F)) (target + a64_imm21 i)"
      using placed(1) 7(2) by (simp add: mov_imm64_def)
    have "a64_piece_ok target o2 (a64_pc s + of_nat (length code)) (finished b) s
        (a64_goto (a64_pc s + 16) (a64_set (i AND 0x1F) (target + a64_imm21 i) s))"
      using same 7(3) by (simp add: a64_piece_ok_def o2 code a64_mov_len a64_set_same_regs [OF same(1)])
    then show ?thesis using a64_mov_run [of s i] placed(2) code by blast
  next
    case 8
    let ?v = "(target AND NOT 0xFFF) + push_bit 12 (a64_imm21 i)"
    have o2: "o2 = a64_goto (target + 4) (a64_set (i AND 0x1F) ?v o1)"
      using orig a64_step_adrp [OF fetch 8(1)] by simp
    have code: "code = encode_mov_imm64 (ucast (i AND 0x1F)) ?v"
      using placed(1) 8(2) by (simp add: mov_imm64_def)
    have "a64_piece_ok target o2 (a64_pc s + of_nat (length code)) (finished b) s
        (a64_goto (a64_pc s + 16) (a64_set (i AND 0x1F) ?v s))"
      using same 8(3) by (simp add: a64_piece_ok_def o2 code a64_mov_len a64_set_same_regs [OF same(1)])
    then show ?thesis using a64_mov_run [of s i] placed(2) code by blast
  next
    case (9 k)
    let ?a = "target + a64_imm19 i"
    have o2: "o2 = a64_goto (target + 4) (a64_set (i AND 0x1F) (a64_load k (a64_mem o1) ?a) o1)"
      using orig a64_step_literal [OF fetch 9(3)] by (cases k) auto
    have data: "a64_load k (a64_mem s) ?a = a64_load k (a64_mem o1) ?a"
      using same(3) 9(1) orig(1) by (intro a64_load_same) (simp add: a64_same_data_def)
    obtain n where run: "a64_run n s = Some (a64_goto (a64_pc s + 20)
        (a64_set (i AND 0x1F) (a64_load k (a64_mem o1) ?a) (a64_set (ldr_scratch i) ?a s)))" "length code = 20"
      using ldr_run [OF placed(1) [unfolded 9(2)] placed(2)] unfolding data by blast
    have "a64_piece_ok target o2 (a64_pc s + of_nat (length code)) (finished b) s
        (a64_goto (a64_pc s + 20) (a64_set (i AND 0x1F) (a64_load k (a64_mem o1) ?a) (a64_set (ldr_scratch i) ?a s)))"
      using same 9(4) by (simp add: a64_piece_ok_def o2 run(2) a64_scratch_same_regs [OF same(1)])
    with run(1) show ?thesis by blast
  next
    case 10
    have "o2 = a64_goto (target + 4) o1"
      using orig a64_step_literal(4) [OF fetch 10(1)] by simp
    moreover have "a64_run (Suc 0) s = Some (a64_goto (a64_pc s + 4) s)"
      using placed 10(2) a64_step_nop [of s] by (simp add: a64_nop_def code_at_u32)
    moreover have "length code = 4" using placed(1) 10(2) by (auto simp: a64_nop_def)
    ultimately have "a64_piece_ok target o2 (a64_pc s + of_nat (length code)) (finished b) s (a64_goto (a64_pc s + 4) s)"
      using same 10(3) by (simp add: a64_piece_ok_def)
    with \<open>a64_run (Suc 0) s = _\<close> show ?thesis by blast
  next
    case 11
    have "code = u32_le i" using placed(1) 11(2) by simp
    then show ?thesis
      using a64_piece_verbatim [OF 11(1) orig(2,1,3) same, of "finished b"] placed(2) 11(3) by simp
  qed
qed

section \<open>Properties\<close>

lemma a64_trampoline_new_process:
  assumes "a64_trampoline_new m target 4 = Ok tr"
  obtains t sz b where "a64_process (builder_new target 4) (fetch32 m target) target = Ok (t, sz, b)"
proof (cases "a64_process (builder_new target 4) (fetch32 m target) target")
  case (Ok r)
  then show ?thesis using that by (cases r) blast
next
  case (Err e)
  then have "a64_build_loop m (builder_new target 4) emitter_new = Err e"
    by (subst a64_build_loop.simps) (simp add: Let_def)
  then show ?thesis using assms by (simp add: a64_trampoline_new_def a64_build_def)
next
  case Panic
  then have "a64_build_loop m (builder_new target 4) emitter_new = Panic"
    by (subst a64_build_loop.simps) (simp add: Let_def)
  then show ?thesis using assms by (simp add: a64_trampoline_new_def a64_build_def)
qed

lemma a64_trampoline_runs:
  assumes "a64_pc o1 = target" "fetch32 (a64_mem o1) target = i" "a64_step o1 = Some o2" "a64_pc o2 \<noteq> target"
    and "i AND 0xFC000000 \<noteq> 0x94000000" "i AND 0xFFFFFC1F \<noteq> 0xD63F0000" "i AND 0xFF000010 \<noteq> 0x54000000"
    and "a64_trampoline_new (a64_mem o1) target 4 = Ok tr"
    and "emit (tramp_emitter tr) base = Ok code" "code_at m' base code" "a64_same_data m' o1 i"
  shows "\<exists>n u. a64_run n (o1\<lparr>a64_pc := base, a64_mem := m'\<rparr>) = Some u \<and> a64_pc u = a64_pc o2
    \<and> a64_nzcv u = a64_nzcv o2 \<and> a64_same_regs (a64_regs u) (a64_regs o2) \<and> a64_mem u = m'"
proof -
  let ?s = "o1\<lparr>a64_pc := base, a64_mem := m'\<rparr>"
  obtain t sz b where process: "a64_process (builder_new target 4) i target = Ok (t, sz, b)"
    using a64_trampoline_new_process [OF assms(8)] assms(2) by blast
  then have tr: "thunks (tramp_emitter tr) = t # (if finished b then [] else [a64_jmp_abs (target + 4)])"
    using a64_trampoline_4 [of target "a64_mem o1"] assms(2,8) by auto
  obtain c1 where c1: "thunk_generate t base = Ok c1" "length c1 = thunk_len t" "code_at m' base c1"
    using emit_placement [of "tramp_emitter tr" "[]" t _ base code m'] tr assms(9,10) by auto
  obtain n u where run: "a64_run n ?s = Some u"
    and ok: "a64_piece_ok target o2 (base + of_nat (length c1)) (finished b) ?s u"
    using a64_piece [OF process assms(5,7,6) assms(1-4), of ?s c1] assms(11) c1 by auto
  show ?thesis
  proof (cases "a64_pc u = a64_pc o2")
    case True
    with run ok show ?thesis by (auto simp: a64_piece_ok_def)
  next
    case False
    with ok have fin: "\<not> finished b" and pc: "a64_pc o2 = target + 4" "a64_pc u = base + of_nat (length c1)"
      and mem: "a64_mem u = m'" by (auto simp: a64_piece_ok_def)
    have "a64_runs_to m' (base + of_nat (length c1)) (target + 4)"
      using a64_jmp.closing_jump_lands [of "tramp_emitter tr" "[t]" "target + 4" base code m'] tr fin
        assms(9,10) c1(2) by simp
    then obtain k v where jump: "a64_run k u = Some (u\<lparr>a64_pc := target + 4, a64_regs := (a64_regs u)(16 := v)\<rparr>)"
      using mem pc(2) unfolding a64_runs_to_def by blast
    have "a64_run (n + k) ?s = Some (u\<lparr>a64_pc := target + 4, a64_regs := (a64_regs u)(16 := v)\<rparr>)"
      using run jump by (simp add: a64_run_add)
    moreover let ?w = "u\<lparr>a64_pc := target + 4, a64_regs := (a64_regs u)(16 := v)\<rparr>"
    have "a64_pc ?w = a64_pc o2 \<and> a64_nzcv ?w = a64_nzcv o2 \<and> a64_same_regs (a64_regs ?w) (a64_regs o2)
        \<and> a64_mem ?w = m'"
      using ok pc mem by (auto simp: a64_piece_ok_def a64_same_regs_def)
    ultimately show ?thesis by blast
  qed
qed

text \<open>
  C9: calling the trampoline is calling the target before it was patched. Whatever the first
  instruction of the target is, calls and \<^verbatim>\<open>B.cond\<close> apart, and wherever the trampoline lies, a
  run from its first byte arrives where the instruction would have continued, with the same
  flags and the same registers, up to x16 and x17.
\<close>

theorem a64_trampoline_simulates:
  assumes "a64_pc o1 = target" "fetch32 (a64_mem o1) target = i" "a64_step o1 = Some o2" "a64_pc o2 \<noteq> target"
    and "i AND 0xFC000000 \<noteq> 0x94000000" "i AND 0xFFFFFC1F \<noteq> 0xD63F0000" "i AND 0xFF000010 \<noteq> 0x54000000"
    and "a64_trampoline_new (a64_mem o1) target 4 = Ok tr"
    and "emit (tramp_emitter tr) base = Ok code" "code_at m' base code" "a64_same_data m' o1 i"
  shows "\<exists>n u. a64_run n (o1\<lparr>a64_pc := base, a64_mem := m'\<rparr>) = Some u \<and> a64_pc u = a64_pc o2
    \<and> a64_nzcv u = a64_nzcv o2 \<and> a64_same_regs (a64_regs u) (a64_regs o2) \<and> a64_mem u = m'"
  using assms by (rule a64_trampoline_runs)

text \<open>\<^verbatim>\<open>cbz x0, .+0x100\<close> with a zero register.\<close>

theorem a64_trampoline_simulates_witness:
  "let flags = \<lparr>NF = False, ZF = False, CF = False, VF = False\<rparr>;
       m' = write_bytes (\<lambda>_. 0) 0x7000 (u32_le 0xB50000A0 @ u32_le 0x58000050 @ u32_le 0xD61F0200
              @ u64_le 0x1100 @ u32_le 0x58000050 @ u32_le 0xD61F0200 @ u64_le 0x1004)
   in \<exists>n u. a64_run n \<lparr>a64_pc = 0x7000, a64_regs = (\<lambda>_. 0), a64_nzcv = flags, a64_mem = m'\<rparr> = Some u
      \<and> a64_pc u = 0x1100 \<and> a64_nzcv u = flags \<and> a64_same_regs (a64_regs u) (\<lambda>_. 0) \<and> a64_mem u = m'"
proof -
  let ?f = "\<lparr>NF = False, ZF = False, CF = False, VF = False\<rparr>"
  let ?code = "u32_le 0xB50000A0 @ u32_le 0x58000050 @ u32_le 0xD61F0200
              @ u64_le 0x1100 @ u32_le 0x58000050 @ u32_le 0xD61F0200 @ u64_le 0x1004"
  let ?m = "write_bytes (\<lambda>_. 0) 0x1000 (u32_le 0xB4000800)" and ?m' = "write_bytes (\<lambda>_. 0) (0x7000 :: u64) ?code"
  let ?o = "\<lparr>a64_pc = 0x1000, a64_regs = (\<lambda>_. 0), a64_nzcv = ?f, a64_mem = ?m\<rparr>"
  let ?t = "cbz_far 0 True False 0x1100" and ?b = "builder_new (0x1000 :: u64) 4"
  have fetch: "fetch32 (a64_mem ?o) 0x1000 = 0xB4000800"
    unfolding a64_cpu.simps by (rule code_at_u32, rule code_at_write_bytes) simp
  have imm: "a64_imm19 0xB4000800 = 0x100" by (simp add: a64_imm19_def)
  have taken: "a64_cb_taken ?o 0xB4000800"
    by (simp add: a64_cb_taken_def a64_get_def)
  have step: "a64_step ?o = Some (?o\<lparr>a64_pc := 0x1100\<rparr>)"
    using a64_step_cb [of ?o "0xB4000800"] fetch taken by (simp add: imm a64_goto_def)
  have "a64_process ?b 0xB4000800 0x1000 = Ok (?t, 20, ?b)"
    by (simp add: a64_process_def Let_def a64_imm_code [unfolded and_mask_take] imm in_range_def prolog_range_def
        sign_extend_bits_eq)
  then have tr: "a64_trampoline_new (a64_mem ?o) 0x1000 4 = Ok
      \<lparr>tramp_emitter = \<lparr>thunks = [?t, a64_jmp_abs 0x1004]\<rparr>, tramp_prolog_size = 4\<rparr>"
    using a64_trampoline_4 [of "0x1000" "a64_mem ?o" ?t 20 ?b] fetch by simp
  have emit: "emit \<lparr>thunks = [?t, a64_jmp_abs 0x1004]\<rparr> 0x7000 = Ok ?code"
    by (simp add: emit_def cbz_far_def Let_def a64_jmp_abs_def)
  have placed: "code_at ?m' 0x7000 ?code" by (rule code_at_write_bytes) simp
  have data: "a64_same_data ?m' ?o 0xB4000800" by (simp add: a64_same_data_def)
  show ?thesis
    using a64_trampoline_simulates [OF _ fetch step _ _ _ _ tr _ placed data] emit by simp
qed

text \<open>
  A conditional branch \<^verbatim>\<open>B.cond\<close> is copied although it is relative: taken in the
  trampoline, it arrives at the same distance from the trampoline.
\<close>

theorem a64_bcond_not_relocated:
  assumes "fetch32 m target = i" "i AND 0xFF000010 = 0x54000000"
  shows "\<exists>tr. a64_trampoline_new m target 4 = Ok tr
    \<and> (\<forall>s base code. emit (tramp_emitter tr) base = Ok code \<and> code_at (a64_mem s) base code \<and> a64_pc s = base
          \<and> a64_cond (a64_nzcv s) (i AND 0xF) \<longrightarrow> a64_step s = Some (a64_goto (base + a64_imm19 i) s))"
proof -
  let ?b = "builder_new target 4"
  let ?tr = "\<lparr>tramp_emitter = \<lparr>thunks = [VecThunk (u32_le i), a64_jmp_abs (target + 4)]\<rparr>, tramp_prolog_size = 4\<rparr>"
  have "a64_process ?b i target = Ok (VecThunk (u32_le i), 4, ?b)"
    by (simp add: a64_process_def Let_def mask_differ [OF assms(2)])
  then have tr: "a64_trampoline_new m target 4 = Ok ?tr"
    using a64_trampoline_4 [of target m] assms(1) by simp
  have "a64_step s = Some (a64_goto (base + a64_imm19 i) s)"
    if emit: "emit (tramp_emitter ?tr) base = Ok code" and s: "code_at (a64_mem s) base code" "a64_pc s = base"
      "a64_cond (a64_nzcv s) (i AND 0xF)" for s base code
  proof -
    have "code_at (a64_mem s) base (u32_le i)"
      using emit_placement [of "tramp_emitter ?tr" "[]" "VecThunk (u32_le i)" _ base code] emit s(1) by auto
    then have "fetch32 (a64_mem s) (a64_pc s) = i" using s(2) by (auto intro: code_at_u32)
    then show ?thesis using assms(2) s(2,3) by (simp add: a64_step_def Let_def mask_differ [OF assms(2)])
  qed
  with tr show ?thesis by blast
qed

text \<open>\<^verbatim>\<open>b.eq .+8\<close>\<close>

theorem a64_bcond_not_relocated_witness:
  "\<exists>tr. a64_trampoline_new (write_bytes (\<lambda>_. 0) 0x1000 (u32_le 0x54000040)) 0x1000 4 = Ok tr
    \<and> (\<forall>s base code. emit (tramp_emitter tr) base = Ok code \<and> code_at (a64_mem s) base code \<and> a64_pc s = base
          \<and> a64_cond (a64_nzcv s) 0 \<longrightarrow> a64_step s = Some (a64_goto (base + 8) s))"
proof -
  have fetch: "fetch32 (write_bytes (\<lambda>_. 0) (0x1000 :: u64) (u32_le 0x54000040)) 0x1000 = 0x54000040"
    by (rule code_at_u32, rule code_at_write_bytes) simp
  have "a64_imm19 0x54000040 = 8" by (simp add: a64_imm19_def)
  then show ?thesis using a64_bcond_not_relocated [OF fetch] by simp
qed

text \<open>
  A prolog that starts by loading x16, as a linkage stub does, loses the value: the jump
  that closes the trampoline overwrites it.
\<close>

theorem a64_x16_prolog_lost:
  assumes "a64_pc o1 = target" "fetch32 (a64_mem o1) target = i" "i AND 0x9F00001F = 0x90000010"
    and "a64_trampoline_new (a64_mem o1) target 4 = Ok tr"
    and "emit (tramp_emitter tr) base = Ok code" "code_at m' base code"
  shows "\<exists>n u. a64_run n (o1\<lparr>a64_pc := base, a64_mem := m'\<rparr>) = Some u \<and> a64_pc u = target + 4
    \<and> a64_regs u 16 = target + 4
    \<and> a64_step o1 = Some (o1\<lparr>a64_pc := target + 4,
        a64_regs := (a64_regs o1)(16 := (target AND NOT 0xFFF) + push_bit 12 (a64_imm21 i))\<rparr>)"
proof -
  let ?v = "(target AND NOT 0xFFF) + push_bit 12 (a64_imm21 i)" and ?b = "builder_new target 4"
  let ?s = "o1\<lparr>a64_pc := base, a64_mem := m'\<rparr>"
  have adrp: "i AND 0x9F000000 = 0x90000000" and rd: "i AND 0x1F = 16"
    using mask_agree [OF assms(3)] by simp_all
  have "a64_process ?b i target = Ok (mov_imm64 16 ?v, 16, ?b)"
    unfolding a64_process_def Let_def a64_imm21_code using adrp rd by (simp add: mask_differ [OF adrp])
  then have tr: "thunks (tramp_emitter tr) = [mov_imm64 16 ?v, a64_jmp_abs (target + 4)]"
    using a64_trampoline_4 [of target "a64_mem o1"] assms(2,4) by auto
  have mov: "code_at m' base (encode_mov_imm64 16 ?v)"
    using emit_placement [of "tramp_emitter tr" "[]" "mov_imm64 16 ?v" _ base code m'] tr assms(5,6)
    by (auto simp: mov_imm64_def)
  have jmp: "code_at m' (base + 16) (u32_le 0x58000050 @ u32_le 0xD61F0200 @ u64_le (target + 4))"
    using emit_placement [of "tramp_emitter tr" "[mov_imm64 16 ?v]" "a64_jmp_abs (target + 4)" "[]" base code m']
      tr assms(5,6) by (auto simp: mov_imm64_def a64_jmp_abs_def a64_mov_len)
  have "a64_run (Suc (Suc (Suc (Suc 0)))) ?s = Some (a64_goto (base + 16) (a64_set 16 ?v ?s))"
    using a64_mov_run [of ?s 16 ?v] mov by simp
  moreover let ?t = "a64_goto (base + 16) (a64_set 16 ?v ?s)"
  have "a64_run (Suc (Suc 0)) ?t = Some (?t\<lparr>a64_pc := target + 4, a64_regs := (a64_regs ?t)(16 := target + 4)\<rparr>)"
    using jmp by (intro a64_jmp_abs_run) simp
  ultimately have "a64_run (Suc (Suc (Suc (Suc 0))) + Suc (Suc 0)) ?s =
      Some (?t\<lparr>a64_pc := target + 4, a64_regs := (a64_regs ?t)(16 := target + 4)\<rparr>)"
    unfolding a64_run_add by simp
  moreover have "a64_step o1 = Some (o1\<lparr>a64_pc := target + 4, a64_regs := (a64_regs o1)(16 := ?v)\<rparr>)"
    using a64_step_adrp [of o1 i] assms(1,2) adrp rd by (simp add: a64_set_def a64_goto_def)
  moreover have "a64_pc (?t\<lparr>a64_pc := target + 4, a64_regs := (a64_regs ?t)(16 := target + 4)\<rparr>) = target + 4
    \<and> a64_regs (?t\<lparr>a64_pc := target + 4, a64_regs := (a64_regs ?t)(16 := target + 4)\<rparr>) 16 = target + 4"
    by simp
  ultimately show ?thesis by blast
qed

text \<open>\<^verbatim>\<open>adrp x16, 1\<close>\<close>

theorem a64_x16_prolog_lost_witness:
  "let flags = \<lparr>NF = False, ZF = False, CF = False, VF = False\<rparr>;
       m = write_bytes (\<lambda>_. 0) 0x1000 (u32_le 0xB0000010);
       m' = write_bytes (\<lambda>_. 0) 0x7000 (encode_mov_imm64 16 0x2000 @ u32_le 0x58000050 @ u32_le 0xD61F0200
              @ u64_le 0x1004)
   in \<exists>n u. a64_run n \<lparr>a64_pc = 0x7000, a64_regs = (\<lambda>_. 0), a64_nzcv = flags, a64_mem = m'\<rparr> = Some u
      \<and> a64_pc u = 0x1004 \<and> a64_regs u 16 = 0x1004
      \<and> a64_step \<lparr>a64_pc = 0x1000, a64_regs = (\<lambda>_. 0), a64_nzcv = flags, a64_mem = m\<rparr>
        = Some \<lparr>a64_pc = 0x1004, a64_regs = (\<lambda>_. 0)(16 := 0x2000), a64_nzcv = flags, a64_mem = m\<rparr>"
proof -
  let ?f = "\<lparr>NF = False, ZF = False, CF = False, VF = False\<rparr>"
  let ?code = "encode_mov_imm64 16 0x2000 @ u32_le 0x58000050 @ u32_le 0xD61F0200 @ u64_le 0x1004"
  let ?m = "write_bytes (\<lambda>_. 0) 0x1000 (u32_le 0xB0000010)" and ?m' = "write_bytes (\<lambda>_. 0) (0x7000 :: u64) ?code"
  let ?o = "\<lparr>a64_pc = 0x1000, a64_regs = (\<lambda>_. 0), a64_nzcv = ?f, a64_mem = ?m\<rparr>"
  let ?b = "builder_new (0x1000 :: u64) 4"
  have fetch: "fetch32 (a64_mem ?o) 0x1000 = 0xB0000010"
    unfolding a64_cpu.simps by (rule code_at_u32, rule code_at_write_bytes) simp
  have imm: "a64_imm21 0xB0000010 = 1" by (simp add: a64_imm21_def)
  have "a64_process ?b 0xB0000010 0x1000 = Ok (mov_imm64 16 0x2000, 16, ?b)"
    by (simp add: a64_process_def Let_def sign_extend_bits_eq)
  then have tr: "a64_trampoline_new (a64_mem ?o) 0x1000 4 = Ok
      \<lparr>tramp_emitter = \<lparr>thunks = [mov_imm64 16 0x2000, a64_jmp_abs 0x1004]\<rparr>, tramp_prolog_size = 4\<rparr>"
    using a64_trampoline_4 [of "0x1000" "a64_mem ?o" "mov_imm64 16 0x2000" 16 ?b] fetch by simp
  have emit: "emit \<lparr>thunks = [mov_imm64 16 0x2000, a64_jmp_abs 0x1004]\<rparr> 0x7000 = Ok ?code"
    by (simp add: emit_def mov_imm64_def a64_jmp_abs_def a64_mov_len)
  have placed: "code_at ?m' 0x7000 ?code" by (rule code_at_write_bytes) (simp add: a64_mov_len)
  show ?thesis
    using a64_x16_prolog_lost [OF _ fetch _ tr _ placed] emit by (simp add: imm)
qed

end
