(* ===== verification/Riscv_Thunk.thy ===== *)
theory Riscv_Thunk
  imports Arch_Common
begin

text \<open>
  \<^verbatim>\<open>src/arch/riscv/thunk\<close> and \<^verbatim>\<open>src/arch/riscv/meta.rs\<close>: instruction encodings, absolute
  jumps and the expansions of position-dependent instructions. The width of an address tells
  \<^verbatim>\<open>riscv64\<close> from \<^verbatim>\<open>riscv32\<close>. A reference processor gives the encodings their meaning.
\<close>

section \<open>Encoders\<close>

definition target_riscv64 :: "'u::len itself \<Rightarrow> bool" where
  "target_riscv64 _ \<longleftrightarrow> LENGTH('u) = 64"

text \<open>\<^verbatim>\<open>(dest as u64).to_le_bytes()\<close> or \<^verbatim>\<open>(dest as u32).to_le_bytes()\<close>\<close>

definition riscv_literal :: "'u::len word \<Rightarrow> u8 list" where
  "riscv_literal v = (if target_riscv64 TYPE('u) then u64_le (ucast v) else u32_le (ucast v))"

definition encode_j_type :: "u32 \<Rightarrow> u32 \<Rightarrow> u32" where
  "encode_j_type rd imm =
     push_bit 31 (drop_bit 20 imm AND 1)
     OR push_bit 21 (drop_bit 1 imm AND 0x3FF)
     OR push_bit 20 (drop_bit 11 imm AND 1)
     OR push_bit 12 (drop_bit 12 imm AND 0xFF)
     OR push_bit 7 rd
     OR 0x6F"

definition encode_b_type :: "u32 \<Rightarrow> u32 \<Rightarrow> u32 \<Rightarrow> u32 \<Rightarrow> u32" where
  "encode_b_type funct3 rs1 rs2 imm =
     push_bit 31 (drop_bit 12 imm AND 1)
     OR push_bit 25 (drop_bit 5 imm AND 0x3F)
     OR push_bit 20 rs2
     OR push_bit 15 rs1
     OR push_bit 12 funct3
     OR push_bit 8 (drop_bit 1 imm AND 0xF)
     OR push_bit 7 (drop_bit 11 imm AND 1)
     OR 0x63"

definition T1 :: u32 where "T1 = 6"

definition jmp_abs_bytes :: "u32 \<Rightarrow> 'u::len word \<Rightarrow> u8 list" where
  "jmp_abs_bytes rd dest =
     (let auipc = push_bit 7 T1 OR 0x17;
          load = (if target_riscv64 TYPE('u)
            then push_bit 20 12 OR push_bit 15 T1 OR push_bit 12 3 OR push_bit 7 T1 OR 0x03
            else push_bit 20 12 OR push_bit 15 T1 OR push_bit 12 2 OR push_bit 7 T1 OR 0x03);
          jalr = push_bit 15 T1 OR push_bit 7 rd OR 0x67
      in u32_le auipc @ u32_le load @ u32_le jalr @ riscv_literal dest)"

definition jmp_abs_rd :: "u32 \<Rightarrow> 'u::len word \<Rightarrow> 'u word thunk" where
  "jmp_abs_rd rd dest = VecThunk (jmp_abs_bytes rd dest)"

definition riscv_nop :: "'u::len word thunk" where
  "riscv_nop = VecThunk (u32_le 0x00000013)"

definition riscv_jmp_abs :: "'u::len word \<Rightarrow> 'u word thunk" where
  "riscv_jmp_abs dest = jmp_abs_rd 0 dest"

definition riscv_call_abs :: "'u::len word \<Rightarrow> 'u word thunk" where
  "riscv_call_abs dest = jmp_abs_rd 1 dest"

definition call_abs_rd :: "u8 \<Rightarrow> 'u::len word \<Rightarrow> 'u word thunk" where
  "call_abs_rd rd dest = jmp_abs_rd (ucast rd) dest"

definition li_abs :: "u8 \<Rightarrow> 'u::len word \<Rightarrow> 'u word thunk" where
  "li_abs rd value =
     (let rd = ucast rd :: u32;
          (skip, load_funct3) = (if target_riscv64 TYPE('u) then (12, 3) else (8, 2 :: u32));
          jal = encode_j_type rd skip;
          load = push_bit 15 rd OR push_bit 12 load_funct3 OR push_bit 7 rd OR 0x03
      in VecThunk (u32_le jal @ riscv_literal value @ u32_le load))"

definition branch_far :: "u32 \<Rightarrow> 'u::len word \<Rightarrow> 'u word thunk" where
  "branch_far instr dest =
     (let rs1 = drop_bit 15 instr AND 0x1F;
          rs2 = drop_bit 20 instr AND 0x1F;
          funct3 = (drop_bit 12 instr AND 0x7) XOR 1;
          jmp_size = (if target_riscv64 TYPE('u) then 20 else 16);
          skip = 4 + jmp_size;
          branch_skip = encode_b_type funct3 rs1 rs2 skip
      in VecThunk (u32_le branch_skip @ jmp_abs_bytes 0 dest))"

section \<open>Prolog margin and relay\<close>

definition riscv_DETOUR_RANGE :: int where
  "riscv_DETOUR_RANGE = 0x7FFFFFFF"

definition riscv_prolog_margin :: "'u::len word \<Rightarrow> nat" where
  "riscv_prolog_margin target = 8"

definition riscv_relay_builder ::
  "'u::len word \<Rightarrow> 'u word \<Rightarrow> 'u word code_emitter option res" where
  "riscv_relay_builder target detour =
     (let displacement = detour - target in
      if \<not> is_within_range riscv_DETOUR_RANGE displacement
      then Ok (Some (add_thunk emitter_new (riscv_jmp_abs detour)))
      else Ok None)"

section \<open>A reference processor\<close>

text \<open>The immediates of the instruction set manual, bit by bit.\<close>

definition word_of_bits :: "(nat \<Rightarrow> bool) \<Rightarrow> u32" where
  "word_of_bits f = horner_sum of_bool 2 (map f [0..<32])"

definition isa_imm_j :: "u32 \<Rightarrow> u32" where
  "isa_imm_j i = word_of_bits (\<lambda>k. if k = 0 then False else if k \<le> 10 then bit i (k + 20)
     else if k = 11 then bit i 20 else if k \<le> 19 then bit i k else bit i 31)"

definition isa_imm_b :: "u32 \<Rightarrow> u32" where
  "isa_imm_b i = word_of_bits (\<lambda>k. if k = 0 then False else if k \<le> 4 then bit i (k + 7)
     else if k \<le> 10 then bit i (k + 20) else if k = 11 then bit i 7 else bit i 31)"

definition rv_rd :: "u32 \<Rightarrow> u32" where "rv_rd i = drop_bit 7 i AND 0x1F"
definition rv_funct3 :: "u32 \<Rightarrow> u32" where "rv_funct3 i = drop_bit 12 i AND 0x7"
definition rv_rs1 :: "u32 \<Rightarrow> u32" where "rv_rs1 i = drop_bit 15 i AND 0x1F"
definition rv_rs2 :: "u32 \<Rightarrow> u32" where "rv_rs2 i = drop_bit 20 i AND 0x1F"
definition rv_imm_i :: "u32 \<Rightarrow> u32" where "rv_imm_i i = signed_drop_bit 20 i"
definition rv_imm_u :: "u32 \<Rightarrow> u32" where "rv_imm_u i = i AND 0xFFFFF000"

record 'a rv_cpu =
  rv_pc :: 'a
  rv_regs :: "u32 \<Rightarrow> 'a"
  rv_mem :: "'a \<Rightarrow> u8"

definition rv_get :: "'u::len word rv_cpu \<Rightarrow> u32 \<Rightarrow> 'u word" where
  "rv_get s r = (if r = 0 then 0 else rv_regs s r)"

definition rv_set :: "u32 \<Rightarrow> 'u::len word \<Rightarrow> 'u word rv_cpu \<Rightarrow> 'u word rv_cpu" where
  "rv_set r v s = (if r = 0 then s else s\<lparr>rv_regs := (rv_regs s)(r := v)\<rparr>)"

text \<open>\<open>funct3\<close> 0, 4 and 6 compare for equality, signed and unsigned order; odd values negate.\<close>

definition rv_cond :: "u32 \<Rightarrow> 'u::len word \<Rightarrow> 'u word \<Rightarrow> bool" where
  "rv_cond f3 a b = ((if f3 AND 6 = 0 then a = b else if f3 AND 6 = 4 then sint a < sint b
     else a < b) \<noteq> bit f3 0)"

definition rv_step :: "'u::len word rv_cpu \<Rightarrow> 'u word rv_cpu option" where
  "rv_step s =
     (let pc = rv_pc s; i = fetch32 (rv_mem s) pc; opcode = i AND 0x7F in
      if opcode = 0x17 then Some ((rv_set (rv_rd i) (pc + scast (rv_imm_u i)) s)\<lparr>rv_pc := pc + 4\<rparr>)
      else if opcode = 0x6F then
        Some ((rv_set (rv_rd i) (pc + 4) s)\<lparr>rv_pc := pc + scast (isa_imm_j i)\<rparr>)
      else if opcode = 0x67 \<and> rv_funct3 i = 0 then
        Some ((rv_set (rv_rd i) (pc + 4) s)
          \<lparr>rv_pc := (rv_get s (rv_rs1 i) + scast (rv_imm_i i)) AND NOT 1\<rparr>)
      else if opcode = 0x63 \<and> rv_funct3 i AND 6 \<noteq> 2 then
        Some (s\<lparr>rv_pc := pc + (if rv_cond (rv_funct3 i) (rv_get s (rv_rs1 i)) (rv_get s (rv_rs2 i))
                               then scast (isa_imm_b i) else 4)\<rparr>)
      else if opcode = 0x03 \<and> rv_funct3 i = 2 then
        Some ((rv_set (rv_rd i) (scast (fetch32 (rv_mem s) (rv_get s (rv_rs1 i) + scast (rv_imm_i i)))) s)
          \<lparr>rv_pc := pc + 4\<rparr>)
      else if opcode = 0x03 \<and> rv_funct3 i = 3 \<and> LENGTH('u) = 64 then
        Some ((rv_set (rv_rd i) (ucast (fetch64 (rv_mem s) (rv_get s (rv_rs1 i) + scast (rv_imm_i i)))) s)
          \<lparr>rv_pc := pc + 4\<rparr>)
      else if opcode = 0x13 \<and> rv_funct3 i = 0 then
        Some ((rv_set (rv_rd i) (rv_get s (rv_rs1 i) + scast (rv_imm_i i)) s)\<lparr>rv_pc := pc + 4\<rparr>)
      else None)"

primrec rv_run :: "nat \<Rightarrow> 'u::len word rv_cpu \<Rightarrow> 'u word rv_cpu option" where
  "rv_run 0 s = Some s"
| "rv_run (Suc n) s = (case rv_step s of None \<Rightarrow> None | Some t \<Rightarrow> rv_run n t)"

text \<open>Control arrives at \<open>dest\<close>; besides the program counter at most \<^verbatim>\<open>t1\<close> (x6) changes.\<close>

definition rv_runs_to :: "'u::len mem \<Rightarrow> 'u word \<Rightarrow> 'u word \<Rightarrow> bool" where
  "rv_runs_to m pc dest \<longleftrightarrow> (\<forall>s. rv_mem s = m \<and> rv_pc s = pc \<longrightarrow>
     (\<exists>n v. rv_run n s = Some (s\<lparr>rv_pc := dest, rv_regs := (rv_regs s)(6 := v)\<rparr>)))"

definition rv_xlen :: "'u::len itself \<Rightarrow> bool" where
  "rv_xlen _ \<longleftrightarrow> LENGTH('u) = 32 \<or> LENGTH('u) = 64"

section \<open>Fields of the encodings\<close>

lemma bit_word_of_bits [simp]: "bit (word_of_bits f) n \<longleftrightarrow> n < 32 \<and> f n"
  by (auto simp: word_of_bits_def bit_horner_sum_bit_word_iff)

lemma b_type_fields_24:
  fixes i :: u32
  defines "e \<equiv> encode_b_type ((drop_bit 12 i AND 7) XOR 1) (drop_bit 15 i AND 0x1F)
    (drop_bit 20 i AND 0x1F) 24"
  shows "e AND 0x7F = 0x63" "rv_funct3 e = rv_funct3 i XOR 1"
    "rv_rs1 e = rv_rs1 i" "rv_rs2 e = rv_rs2 i" "isa_imm_b e = 24"
  unfolding e_def encode_b_type_def rv_funct3_def rv_rs1_def rv_rs2_def isa_imm_b_def
  by (rule u32_eqI, simp add: upt_rec, elim disjE; simp add: bit_simps)+

lemma b_type_fields_20:
  fixes i :: u32
  defines "e \<equiv> encode_b_type ((drop_bit 12 i AND 7) XOR 1) (drop_bit 15 i AND 0x1F)
    (drop_bit 20 i AND 0x1F) 20"
  shows "e AND 0x7F = 0x63" "rv_funct3 e = rv_funct3 i XOR 1"
    "rv_rs1 e = rv_rs1 i" "rv_rs2 e = rv_rs2 i" "isa_imm_b e = 20"
  unfolding e_def encode_b_type_def rv_funct3_def rv_rs1_def rv_rs2_def isa_imm_b_def
  by (rule u32_eqI, simp add: upt_rec, elim disjE; simp add: bit_simps)+

section \<open>Absolute jumps\<close>

text \<open>The three instructions of \<^verbatim>\<open>jmp_abs_bytes\<close>, decoded.\<close>

lemma jmp_abs_bytes_eq:
  "jmp_abs_bytes rd (dest :: 'u::len word) =
     u32_le 0x317 @ u32_le (if LENGTH('u) = 64 then 0xC33303 else 0xC32303)
     @ u32_le (0x30067 OR push_bit 7 rd) @ riscv_literal dest"
proof -
  have "push_bit 15 6 OR push_bit 7 rd OR 0x67 = (0x30000 OR 0x67) OR push_bit 7 rd"
    by (simp add: ac_simps)
  then show ?thesis
    by (simp add: jmp_abs_bytes_def Let_def T1_def target_riscv64_def)
qed

lemma length_jmp_abs_bytes [simp]:
  "length (jmp_abs_bytes rd (dest :: 'u::len word)) = (if LENGTH('u) = 64 then 20 else 16)"
  by (simp add: jmp_abs_bytes_eq riscv_literal_def target_riscv64_def)

definition riscv_literal_at :: "'u::len mem \<Rightarrow> 'u word \<Rightarrow> 'u word" where
  "riscv_literal_at m a = (if LENGTH('u) = 64 then ucast (fetch64 m a) else scast (fetch32 m a))"

lemma riscv_literal_at_code:
  fixes v :: "'u::len word"
  assumes "rv_xlen TYPE('u)" "code_at m a (riscv_literal v)"
  shows "riscv_literal_at m a = v"
proof (cases "LENGTH('u) = 64")
  case True
  with assms(2) have "fetch64 m a = ucast v"
    by (intro code_at_u64) (simp add: riscv_literal_def target_riscv64_def)
  with True show ?thesis by (simp add: riscv_literal_at_def)
next
  case False
  then have "fetch32 m a = ucast v"
    using assms(2) by (intro code_at_u32) (simp add: riscv_literal_def target_riscv64_def)
  moreover have "scast (ucast v :: u32) = v"
    using assms(1) False sint_ge [of v] sint_lt [of v]
    by (intro scast_ucast_narrow) (auto simp: rv_xlen_def)
  ultimately show ?thesis using False by (simp add: riscv_literal_at_def)
qed

lemma rv_step_auipc_t1:
  assumes "fetch32 (rv_mem s) (rv_pc s) = 0x317"
  shows "rv_step s = Some (s\<lparr>rv_pc := rv_pc s + 4, rv_regs := (rv_regs s)(6 := rv_pc s)\<rparr>)"
  using assms by (simp add: rv_step_def Let_def rv_rd_def rv_imm_u_def rv_set_def)

lemma rv_step_load_t1:
  fixes s :: "'u::len word rv_cpu"
  assumes "fetch32 (rv_mem s) (rv_pc s) = (if LENGTH('u) = 64 then 0xC33303 else 0xC32303)"
  shows "rv_step s = Some (s\<lparr>rv_pc := rv_pc s + 4,
    rv_regs := (rv_regs s)(6 := riscv_literal_at (rv_mem s) (rv_regs s 6 + 12))\<rparr>)"
  using assms
  by (simp add: rv_step_def Let_def rv_rd_def rv_funct3_def rv_rs1_def rv_imm_i_def rv_set_def
      rv_get_def riscv_literal_at_def split: if_splits)

lemma jalr_t1_fields:
  assumes "rd = 0 \<or> rd = 1"
  shows "(0x30067 OR push_bit 7 rd) AND 0x7F = (0x67 :: u32)" "rv_funct3 (0x30067 OR push_bit 7 rd) = 0"
    "rv_rs1 (0x30067 OR push_bit 7 rd) = 6" "rv_imm_i (0x30067 OR push_bit 7 rd) = 0"
    "rv_rd (0x30067 OR push_bit 7 rd) = rd"
  using assms by (auto simp: rv_funct3_def rv_rs1_def rv_imm_i_def rv_rd_def)

lemma rv_step_jalr_t1:
  assumes "rd = 0 \<or> rd = 1" "fetch32 (rv_mem s) (rv_pc s) = 0x30067 OR push_bit 7 rd"
  shows "rv_step s = Some ((rv_set rd (rv_pc s + 4) s)\<lparr>rv_pc := rv_regs s 6 AND NOT 1\<rparr>)"
  by (simp add: rv_step_def Let_def assms(2) jalr_t1_fields [OF assms(1)] rv_get_def)

lemma rv_run_3:
  "rv_step s = Some t \<Longrightarrow> rv_step t = Some u \<Longrightarrow> rv_step u = Some v \<Longrightarrow>
     rv_run (Suc (Suc (Suc 0))) s = Some v"
  by simp

text \<open>
  The sequence with link register \<open>rd\<close>: control is at \<open>dest\<close>, and the link, if any, is the
  address behind the third instruction, which is where the literal lies.
\<close>

lemma jmp_abs_bytes_runs:
  fixes s :: "'u::len word rv_cpu"
  assumes "rv_xlen TYPE('u)" "rd = 0 \<or> rd = 1" "\<not> bit dest 0"
    and "code_at (rv_mem s) (rv_pc s) (jmp_abs_bytes rd dest)"
  shows "rv_run (Suc (Suc (Suc 0))) s = Some ((rv_set rd (rv_pc s + 12)
    (s\<lparr>rv_regs := (rv_regs s)(6 := dest)\<rparr>))\<lparr>rv_pc := dest\<rparr>)"
proof -
  let ?pc = "rv_pc s" and ?m = "rv_mem s"
  have code: "fetch32 ?m ?pc = 0x317"
    "fetch32 ?m (?pc + 4) = (if LENGTH('u) = 64 then 0xC33303 else 0xC32303)"
    "fetch32 ?m (?pc + 8) = 0x30067 OR push_bit 7 rd"
    and "code_at ?m (?pc + 12) (riscv_literal dest)"
    using assms(4) by (auto simp: jmp_abs_bytes_eq add.assoc intro!: code_at_u32)
  then have lit: "riscv_literal_at ?m (?pc + 12) = dest"
    using riscv_literal_at_code assms(1) by blast
  have "dest AND NOT 1 = dest"
    using assms(3) by (rule and_not_1_even)
  let ?s1 = "s\<lparr>rv_pc := ?pc + 4, rv_regs := (rv_regs s)(6 := ?pc)\<rparr>"
  let ?s2 = "s\<lparr>rv_pc := ?pc + 8, rv_regs := (rv_regs s)(6 := dest)\<rparr>"
  have "rv_step s = Some ?s1"
    using code(1) by (rule rv_step_auipc_t1)
  moreover have "rv_step ?s1 = Some ?s2"
    using rv_step_load_t1 [of ?s1] code(2) lit by (simp add: add.assoc)
  moreover have "rv_step ?s2 = Some ((rv_set rd (?pc + 12) ?s2)\<lparr>rv_pc := dest\<rparr>)"
    using rv_step_jalr_t1 [OF assms(2), of ?s2] code(3) \<open>dest AND NOT 1 = dest\<close>
    by (simp add: add.assoc)
  ultimately have "rv_run (Suc (Suc (Suc 0))) s = Some ((rv_set rd (?pc + 12) ?s2)\<lparr>rv_pc := dest\<rparr>)"
    by (rule rv_run_3)
  then show ?thesis by (simp add: rv_set_def)
qed

lemma jmp_abs_runs_to:
  fixes dest :: "'u::len word"
  assumes "rv_xlen TYPE('u)" "\<not> bit dest 0" "code_at m src (jmp_abs_bytes 0 dest)"
  shows "rv_runs_to m src dest"
  unfolding rv_runs_to_def
proof (intro allI impI)
  fix s :: "'u word rv_cpu"
  assume "rv_mem s = m \<and> rv_pc s = src"
  then have "rv_run (Suc (Suc (Suc 0))) s = Some (s\<lparr>rv_pc := dest, rv_regs := (rv_regs s)(6 := dest)\<rparr>)"
    using jmp_abs_bytes_runs [of 0 dest s] assms by (simp add: rv_set_def)
  then show "\<exists>n v. rv_run n s = Some (s\<lparr>rv_pc := dest, rv_regs := (rv_regs s)(6 := v)\<rparr>)"
    by blast
qed

interpretation riscv_jmp: jump_thunk riscv_jmp_abs "if LENGTH('u::len) = 64 then 20 else 16"
    "\<lambda>src (dest :: 'u word). rv_xlen TYPE('u) \<and> \<not> bit dest 0" rv_runs_to
proof
  fix dest src :: "'u word" and code m
  show "thunk_len (riscv_jmp_abs dest) = (if LENGTH('u) = 64 then 20 else 16)"
    by (simp add: riscv_jmp_abs_def jmp_abs_rd_def)
  show "honest (riscv_jmp_abs dest)"
    by (simp add: riscv_jmp_abs_def jmp_abs_rd_def)
  assume "rv_xlen TYPE('u) \<and> \<not> bit dest 0"
  then show "\<exists>code. thunk_generate (riscv_jmp_abs dest) src = Ok code"
    by (simp add: riscv_jmp_abs_def jmp_abs_rd_def)
next
  fix dest src :: "'u word" and code m
  assume "rv_xlen TYPE('u) \<and> \<not> bit dest 0" "thunk_generate (riscv_jmp_abs dest) src = Ok code"
    "code_at m src code"
  then show "rv_runs_to m src dest"
    by (intro jmp_abs_runs_to) (simp_all add: riscv_jmp_abs_def jmp_abs_rd_def)
qed

section \<open>Far branches\<close>

lemma xor_1_and_6: "((f :: u32) XOR 1) AND 6 = f AND 6"
  by (rule bit_word_eqI) (auto simp: bit_simps intro!: gr0I)

lemma rv_cond_invert: "rv_cond (f XOR 1) a b \<longleftrightarrow> \<not> rv_cond f a b"
  by (auto simp: rv_cond_def xor_1_and_6 bit_simps)

lemma rv_step_branch:
  fixes s :: "'u::len word rv_cpu"
  assumes "fetch32 (rv_mem s) (rv_pc s) = i" "i AND 0x7F = 0x63" "rv_funct3 i AND 6 \<noteq> 2"
  shows "rv_step s = Some (s\<lparr>rv_pc := rv_pc s +
    (if rv_cond (rv_funct3 i) (rv_get s (rv_rs1 i)) (rv_get s (rv_rs2 i))
     then scast (isa_imm_b i) else 4)\<rparr>)"
  using assms by (simp add: rv_step_def Let_def)

lemma scast_24_20: "scast (24 :: u32) = (24 :: 'u::len word) \<and> scast (20 :: u32) = (20 :: 'u word)"
  by (simp only: scast_eq) simp

lemma branch_far_code:
  "thunk_generate (branch_far i (dest :: 'u::len word)) src = Ok
     (u32_le (encode_b_type ((drop_bit 12 i AND 7) XOR 1) (drop_bit 15 i AND 0x1F)
        (drop_bit 20 i AND 0x1F) (if LENGTH('u) = 64 then 24 else 20)) @ jmp_abs_bytes 0 dest)"
  by (simp add: branch_far_def Let_def target_riscv64_def)

lemma branch_far_fields:
  fixes i :: u32 and u :: "'u::len itself"
  defines "e \<equiv> encode_b_type ((drop_bit 12 i AND 7) XOR 1) (drop_bit 15 i AND 0x1F)
    (drop_bit 20 i AND 0x1F) (if LENGTH('u) = 64 then 24 else 20)"
  shows "e AND 0x7F = 0x63 \<and> rv_funct3 e = rv_funct3 i XOR 1 \<and> rv_rs1 e = rv_rs1 i
    \<and> rv_rs2 e = rv_rs2 i \<and> isa_imm_b e = (if LENGTH('u) = 64 then 24 else 20)"
  unfolding e_def using b_type_fields_24 [of i] b_type_fields_20 [of i] by simp

lemma branch_far_branches:
  fixes s :: "'u::len word rv_cpu"
  assumes "rv_xlen TYPE('u)" "rv_funct3 i AND 6 \<noteq> 2" "\<not> bit dest 0" "rv_pc s = src"
    and "thunk_generate (branch_far i dest) src = Ok code" "code_at (rv_mem s) src code"
  shows "\<exists>n v. rv_run n s = Some (s\<lparr>
    rv_pc := (if rv_cond (rv_funct3 i) (rv_get s (rv_rs1 i)) (rv_get s (rv_rs2 i)) then dest
              else src + of_nat (length code)),
    rv_regs := (rv_regs s)(6 := v)\<rparr>)"
proof -
  define e where "e = encode_b_type ((drop_bit 12 i AND 7) XOR 1) (drop_bit 15 i AND 0x1F)
    (drop_bit 20 i AND 0x1F) (if LENGTH('u) = 64 then 24 else 20)"
  have code: "code = u32_le e @ jmp_abs_bytes 0 dest"
    using assms(5) by (simp add: branch_far_code e_def)
  then have e: "fetch32 (rv_mem s) (rv_pc s) = e" and jmp: "code_at (rv_mem s) (src + 4) (jmp_abs_bytes 0 dest)"
    using assms(4,6) by (auto intro: code_at_u32)
  note fields = branch_far_fields [where 'u = 'u, of i, folded e_def]
  have "rv_step s = Some (s\<lparr>rv_pc := rv_pc s +
      (if rv_cond (rv_funct3 e) (rv_get s (rv_rs1 e)) (rv_get s (rv_rs2 e)) then scast (isa_imm_b e)
       else 4)\<rparr>)"
    by (rule rv_step_branch [OF e]) (use fields assms(2) in \<open>simp_all only: xor_1_and_6 simp_thms\<close>)
  moreover have "scast (isa_imm_b e) = (of_nat (length code) :: 'u word)"
    using fields scast_24_20 [where 'u = 'u] by (simp add: code)
  ultimately have step: "rv_step s = Some (s\<lparr>rv_pc := src +
      (if rv_cond (rv_funct3 i) (rv_get s (rv_rs1 i)) (rv_get s (rv_rs2 i)) then 4
       else of_nat (length code))\<rparr>)"
    using fields assms(4) by (simp add: rv_cond_invert)
  show ?thesis
  proof (cases "rv_cond (rv_funct3 i) (rv_get s (rv_rs1 i)) (rv_get s (rv_rs2 i))")
    case True
    have "rv_runs_to (rv_mem s) (src + 4) dest"
      using assms(1,3) jmp by (rule jmp_abs_runs_to)
    then obtain n v where "rv_run n (s\<lparr>rv_pc := src + 4\<rparr>)
        = Some (s\<lparr>rv_pc := src + 4\<rparr>\<lparr>rv_pc := dest, rv_regs := (rv_regs s)(6 := v)\<rparr>)"
      unfolding rv_runs_to_def by (auto dest: spec [of _ "s\<lparr>rv_pc := src + 4\<rparr>"])
    then have "rv_run (Suc n) s = Some (s\<lparr>rv_pc := dest, rv_regs := (rv_regs s)(6 := v)\<rparr>)"
      using step True by simp
    then show ?thesis unfolding if_P [OF True] by (intro exI)
  next
    case False
    then have "rv_run (Suc 0) s = Some (s\<lparr>rv_pc := src + of_nat (length code),
        rv_regs := (rv_regs s)(6 := rv_regs s 6)\<rparr>)"
      using step by simp
    then show ?thesis unfolding if_not_P [OF False] by (intro exI)
  qed
qed

text \<open>
  The expansion of a conditional branch behaves as the branch: the destination is reached
  exactly when the original condition holds, and otherwise control falls through to the code
  behind the expansion, with nothing but \<^verbatim>\<open>t1\<close> changed.
\<close>

theorem riscv_branch_far_correct:
  fixes s :: "'u::len word rv_cpu"
  assumes "rv_xlen TYPE('u)" "rv_funct3 i AND 6 \<noteq> 2" "\<not> bit dest 0" "rv_pc s = src"
    and "thunk_generate (branch_far i dest) src = Ok code" "code_at (rv_mem s) src code"
  shows "\<exists>n v. rv_run n s = Some (s\<lparr>
    rv_pc := (if rv_cond (rv_funct3 i) (rv_get s (rv_rs1 i)) (rv_get s (rv_rs2 i)) then dest
              else src + of_nat (length code)),
    rv_regs := (rv_regs s)(6 := v)\<rparr>)"
  using assms by (rule branch_far_branches)

text \<open>\<^verbatim>\<open>beq a0, a1\<close> to a far destination, with equal operands.\<close>

theorem riscv_branch_far_correct_witness:
  "\<exists>n v. rv_run n \<lparr>rv_pc = 0x1000, rv_regs = (\<lambda>_. 7), rv_mem = write_bytes (\<lambda>_. 0) (0x1000 :: u64)
       (u32_le 0x00B51C63 @ jmp_abs_bytes 0 (0x7F00001000 :: u64))\<rparr>
     = Some \<lparr>rv_pc = 0x7F00001000, rv_regs = (\<lambda>_. 7)(6 := v), rv_mem = write_bytes (\<lambda>_. 0) (0x1000 :: u64)
       (u32_le 0x00B51C63 @ jmp_abs_bytes 0 (0x7F00001000 :: u64))\<rparr>"
proof -
  let ?code = "u32_le 0x00B51C63 @ jmp_abs_bytes 0 (0x7F00001000 :: u64)"
  let ?s = "\<lparr>rv_pc = 0x1000, rv_regs = (\<lambda>_. 7), rv_mem = write_bytes (\<lambda>_. 0) (0x1000 :: u64) ?code\<rparr>"
  have gen: "thunk_generate (branch_far 0x00B50463 (0x7F00001000 :: u64)) 0x1000 = Ok ?code"
    by (simp add: branch_far_code encode_b_type_def)
  have placed: "code_at (rv_mem ?s) 0x1000 ?code"
    unfolding rv_cpu.simps by (rule code_at_write_bytes) simp
  have fields: "rv_funct3 0x00B50463 = 0" "rv_rs1 0x00B50463 = 10" "rv_rs2 0x00B50463 = 11"
    by (simp_all add: rv_funct3_def rv_rs1_def rv_rs2_def)
  show ?thesis
    using riscv_branch_far_correct [OF _ _ _ _ gen placed]
    by (simp add: fields rv_xlen_def rv_cond_def rv_get_def)
qed

section \<open>Calls and address loads\<close>

text \<open>The fields of the two instructions of \<^verbatim>\<open>li_abs\<close>.\<close>

lemma li_abs_jal_fields:
  fixes x :: u32
  assumes "skip = 12 \<or> skip = 8"
  shows "encode_j_type (x AND 0x1F) skip AND 0x7F = 0x6F"
    and "rv_rd (encode_j_type (x AND 0x1F) skip) = x AND 0x1F"
    and "isa_imm_j (encode_j_type (x AND 0x1F) skip) = skip"
proof -
  have "encode_j_type (x AND 0x1F) 12 AND 0x7F = 0x6F" "encode_j_type (x AND 0x1F) 8 AND 0x7F = 0x6F"
    "rv_rd (encode_j_type (x AND 0x1F) 12) = x AND 0x1F" "rv_rd (encode_j_type (x AND 0x1F) 8) = x AND 0x1F"
    "isa_imm_j (encode_j_type (x AND 0x1F) 12) = 12" "isa_imm_j (encode_j_type (x AND 0x1F) 8) = 8"
    unfolding encode_j_type_def rv_rd_def isa_imm_j_def
    by (rule u32_eqI, (simp add: upt_rec; elim disjE; simp add: bit_simps; simp add: eval_nat_numeral))+
  with assms show "encode_j_type (x AND 0x1F) skip AND 0x7F = 0x6F"
    "rv_rd (encode_j_type (x AND 0x1F) skip) = x AND 0x1F"
    "isa_imm_j (encode_j_type (x AND 0x1F) skip) = skip"
    by auto
qed

definition li_abs_load :: "u32 \<Rightarrow> u32 \<Rightarrow> u32" where
  "li_abs_load f3 rd = push_bit 15 rd OR push_bit 12 f3 OR push_bit 7 rd OR 0x03"

lemma li_abs_load_fields_3:
  fixes x :: u32
  defines "i \<equiv> li_abs_load 3 (x AND 0x1F)"
  shows "i AND 0x7F = 0x03" "rv_rd i = x AND 0x1F" "rv_rs1 i = x AND 0x1F" "rv_funct3 i = 3"
    "rv_imm_i i = 0"
  unfolding i_def li_abs_load_def rv_rd_def rv_rs1_def rv_funct3_def rv_imm_i_def
  by (rule u32_eqI, (simp add: upt_rec; elim disjE; simp add: bit_simps; simp add: eval_nat_numeral))+

lemma li_abs_load_fields_2:
  fixes x :: u32
  defines "i \<equiv> li_abs_load 2 (x AND 0x1F)"
  shows "i AND 0x7F = 0x03" "rv_rd i = x AND 0x1F" "rv_rs1 i = x AND 0x1F" "rv_funct3 i = 2"
    "rv_imm_i i = 0"
  unfolding i_def li_abs_load_def rv_rd_def rv_rs1_def rv_funct3_def rv_imm_i_def
  by (rule u32_eqI, (simp add: upt_rec; elim disjE; simp add: bit_simps; simp add: eval_nat_numeral))+

text \<open>
  \<^verbatim>\<open>li_abs\<close> loads the value and changes no other register. The register must not be \<^verbatim>\<open>x0\<close>,
  through which the second instruction would load from address 0.
\<close>

lemma li_abs_code:
  "thunk_generate (li_abs rd (v :: 'u::len word)) src = Ok
     (u32_le (encode_j_type (ucast rd) (if LENGTH('u) = 64 then 12 else 8)) @ riscv_literal v
      @ u32_le (li_abs_load (if LENGTH('u) = 64 then 3 else 2) (ucast rd)))"
  by (simp add: li_abs_def Let_def target_riscv64_def li_abs_load_def)

lemma rv_step_jal:
  fixes s :: "'u::len word rv_cpu"
  assumes "fetch32 (rv_mem s) (rv_pc s) = i" "i AND 0x7F = 0x6F"
  shows "rv_step s = Some ((rv_set (rv_rd i) (rv_pc s + 4) s)\<lparr>rv_pc := rv_pc s + scast (isa_imm_j i)\<rparr>)"
  using assms by (simp add: rv_step_def Let_def)

lemma rv_step_load_self:
  fixes s :: "'u::len word rv_cpu"
  assumes "fetch32 (rv_mem s) (rv_pc s) = li_abs_load (if LENGTH('u) = 64 then 3 else 2) (x AND 0x1F)"
    and "x AND 0x1F \<noteq> 0"
  shows "rv_step s = Some (s\<lparr>rv_pc := rv_pc s + 4, rv_regs := (rv_regs s)
    (x AND 0x1F := riscv_literal_at (rv_mem s) (rv_regs s (x AND 0x1F)))\<rparr>)"
  using assms
  by (cases "LENGTH('u) = 64") (simp_all add: rv_step_def Let_def li_abs_load_fields_3
      li_abs_load_fields_2 rv_set_def rv_get_def riscv_literal_at_def)

lemma scast_12_8: "scast (12 :: u32) = (12 :: 'u::len word) \<and> scast (8 :: u32) = (8 :: 'u word)"
  by (simp only: scast_eq) simp

lemma li_abs_runs:
  fixes s :: "'u::len word rv_cpu"
  assumes "rv_xlen TYPE('u)" "rd = x AND 0x1F" "rd \<noteq> 0" "rv_pc s = src"
    and "thunk_generate (li_abs (ucast rd) v) src = Ok code" "code_at (rv_mem s) src code"
  shows "rv_run (Suc (Suc 0)) s =
    Some (s\<lparr>rv_pc := src + of_nat (length code), rv_regs := (rv_regs s)(rd := v)\<rparr>)"
proof -
  let ?skip = "if LENGTH('u) = 64 then 12 else 8 :: u32" and ?m = "rv_mem s"
  have "ucast (ucast rd :: u8) = rd"
    unfolding assms(2) by (rule u32_eqI) (simp add: upt_rec; elim disjE; simp add: bit_simps)
  then have code: "code = u32_le (encode_j_type rd ?skip) @ riscv_literal v
      @ u32_le (li_abs_load (if LENGTH('u) = 64 then 3 else 2) rd)"
    using assms(5) by (simp add: li_abs_code)
  have lit: "length (riscv_literal v) = (if LENGTH('u) = 64 then 8 else 4)"
    by (simp add: riscv_literal_def target_riscv64_def)
  have jal: "fetch32 ?m (rv_pc s) = encode_j_type rd ?skip"
    and load: "fetch32 ?m (src + scast ?skip) = li_abs_load (if LENGTH('u) = 64 then 3 else 2) rd"
    and "code_at ?m (src + 4) (riscv_literal v)"
    using assms(4,6) by (auto simp: code lit add.assoc scast_12_8 intro!: code_at_u32)
  then have val: "riscv_literal_at ?m (src + 4) = v"
    using riscv_literal_at_code assms(1) by blast
  let ?t = "s\<lparr>rv_pc := src + scast ?skip, rv_regs := (rv_regs s)(rd := src + 4)\<rparr>"
  have "?skip = 12 \<or> ?skip = 8" by simp
  note fields = li_abs_jal_fields [OF this, of x, folded assms(2)]
  have "rv_step s = Some ?t"
    using rv_step_jal [OF jal fields(1)] assms(3,4) fields(2,3) by (simp add: rv_set_def)
  moreover have "rv_step ?t = Some (?t\<lparr>rv_pc := rv_pc ?t + 4,
      rv_regs := (rv_regs ?t)(rd := riscv_literal_at (rv_mem ?t) (rv_regs ?t rd))\<rparr>)"
    using rv_step_load_self [of ?t x] load assms(2,3) by simp
  ultimately show ?thesis
    using val by (simp add: code lit scast_12_8 add.assoc)
qed

text \<open>
  A call thunk reaches its destination, but the return address it leaves is the address of
  the literal inside the thunk, not that of the code behind it.
\<close>

theorem riscv_call_links_literal:
  fixes s :: "'u::len word rv_cpu"
  assumes "rv_xlen TYPE('u)" "\<not> bit dest 0" "rv_pc s = src"
    and "thunk_generate (call_abs_rd 1 dest) src = Ok code" "code_at (rv_mem s) src code"
  shows "\<exists>n t. rv_run n s = Some t \<and> rv_pc t = dest \<and> rv_get t 1 \<noteq> src + of_nat (length code)
    \<and> code_at (rv_mem s) (rv_get t 1) (riscv_literal dest)"
proof -
  have code: "code = jmp_abs_bytes 1 dest"
    using assms(4) by (simp add: call_abs_rd_def jmp_abs_rd_def)
  let ?t = "s\<lparr>rv_pc := dest, rv_regs := (rv_regs s)(6 := dest, 1 := src + 12)\<rparr>"
  have run: "rv_run (Suc (Suc (Suc 0))) s = Some ?t"
    using jmp_abs_bytes_runs [of 1 dest s] assms code by (simp add: rv_set_def)
  have "code_at (rv_mem s) (src + 12) (riscv_literal dest)"
    using assms(5) by (simp add: code jmp_abs_bytes_eq add.assoc)
  moreover have "src + 12 \<noteq> src + of_nat (length code)"
  proof -
    have "(12 :: 'u word) \<noteq> 20 \<and> (12 :: 'u word) \<noteq> 16"
      using assms(1) by (auto simp: rv_xlen_def)
    then show ?thesis by (simp add: code)
  qed
  ultimately have "rv_run (Suc (Suc (Suc 0))) s = Some ?t \<and> rv_pc ?t = dest
      \<and> rv_get ?t 1 \<noteq> src + of_nat (length code) \<and> code_at (rv_mem s) (rv_get ?t 1) (riscv_literal dest)"
    using run by (simp add: rv_get_def)
  then show ?thesis by (intro exI)
qed

theorem riscv_call_links_literal_witness:
  "\<exists>n t. rv_run n \<lparr>rv_pc = 0x1000, rv_regs = (\<lambda>_. 7), rv_mem = write_bytes (\<lambda>_. 0) (0x1000 :: u32)
       (jmp_abs_bytes 1 (0x2000 :: u32))\<rparr> = Some t \<and> rv_pc t = 0x2000 \<and> rv_get t 1 \<noteq> 0x1010
     \<and> code_at (write_bytes (\<lambda>_. 0) (0x1000 :: u32) (jmp_abs_bytes 1 (0x2000 :: u32))) (rv_get t 1)
         (riscv_literal (0x2000 :: u32))"
proof -
  let ?code = "jmp_abs_bytes 1 (0x2000 :: u32)"
  let ?s = "\<lparr>rv_pc = 0x1000, rv_regs = (\<lambda>_. 7), rv_mem = write_bytes (\<lambda>_. 0) (0x1000 :: u32) ?code\<rparr>"
  have gen: "thunk_generate (call_abs_rd 1 (0x2000 :: u32)) 0x1000 = Ok ?code"
    by (simp add: call_abs_rd_def jmp_abs_rd_def)
  have placed: "code_at (rv_mem ?s) 0x1000 ?code"
    unfolding rv_cpu.simps by (rule code_at_write_bytes) simp
  show ?thesis
    using riscv_call_links_literal [OF _ _ _ gen placed] by (simp add: rv_xlen_def)
qed

end
