(* ===== verification/Riscv_Patcher.thy ===== *)
theory Riscv_Patcher
  imports Riscv_Thunk
begin

text \<open>
  \<^verbatim>\<open>src/arch/riscv/patcher.rs\<close>: the eight-byte patch \<^verbatim>\<open>AUIPC t1; JALR x0, t1\<close>. The flag
  \<open>dbg\<close> says whether the crate is built with debug assertions and overflow checks, in which
  case a failed check panics; otherwise the arithmetic wraps.
\<close>

section \<open>The patch area\<close>

definition riscv_is_code_padding :: "u8 list \<Rightarrow> bool" where
  "riscv_is_code_padding buf = list_all (\<lambda>chunk.
     case chunk of
       [b0, b1, b2, b3] \<Rightarrow> (let w = u32_of_le b0 b1 b2 b3 in w = 0x00000013 \<or> w = 0)
     | _ \<Rightarrow> list_all (\<lambda>b. b = 0x00) chunk) (chunks4 buf)"

definition riscv_patch_area :: "'u::len mem \<Rightarrow> 'u word \<Rightarrow> nat \<Rightarrow> ('u word \<times> nat) res" where
  "riscv_patch_area m target prolog_size =
     (let JUMP_SIZE = 8 in
      if prolog_size \<ge> JUMP_SIZE then Ok (target, JUMP_SIZE)
      else
        let extra = read_bytes m (target + of_nat prolog_size) (JUMP_SIZE - prolog_size) in
        if riscv_is_code_padding extra then Ok (target, JUMP_SIZE) else Err NoPatchArea)"

section \<open>The branch\<close>

definition i32_fits :: "int \<Rightarrow> bool" where
  "i32_fits k \<longleftrightarrow> - (2 ^ 31) \<le> k \<and> k < 2 ^ 31"

definition riscv_branch_bytes :: "bool \<Rightarrow> 'u::len word \<Rightarrow> 'u word \<Rightarrow> u8 list res" where
  "riscv_branch_bytes dbg src dst =
     (let offset = dst - src;
          offset32 = ucast offset :: u32 in
      if dbg \<and> \<not> i32_fits (sint offset32 + 0x800) then Panic
      else
        let hi20 = signed_drop_bit 12 (offset32 + 0x800) in
        if dbg \<and> \<not> i32_fits (sint offset32 - sint (push_bit 12 hi20)) then Panic
        else
          let lo12 = offset32 - push_bit 12 hi20 in
          if dbg \<and> \<not> (- 2048 \<le> sint lo12 \<and> sint lo12 < 2048) then Panic
          else
            let auipc = push_bit 12 (hi20 AND 0x000FFFFF) OR push_bit 7 6 OR 0x17;
                jalr = push_bit 20 (lo12 AND 0x00000FFF) OR push_bit 15 6 OR 0x67
            in Ok (u32_le auipc @ u32_le jalr))"

definition riscv_patcher_new ::
  "bool \<Rightarrow> 'u::len mem \<Rightarrow> 'u word \<Rightarrow> 'u word \<Rightarrow> nat \<Rightarrow> 'u word patcher res" where
  "riscv_patcher_new dbg m target detour prolog_size =
     res_bind (riscv_patch_area m target prolog_size) (\<lambda>(patch_address, len).
       res_bind (riscv_branch_bytes dbg patch_address detour) (\<lambda>code.
         Ok \<lparr>area_ptr = patch_address, area_len = len,
             original_prolog = read_bytes m patch_address len, detour_prolog = code\<rparr>))"

section \<open>The split of an offset\<close>

text \<open>
  \<open>x\<close> is the rounded offset \<^verbatim>\<open>offset32 + 0x800\<close>: its upper part is what \<^verbatim>\<open>AUIPC\<close> adds, and the
  lower part, less the rounding, is the immediate of \<^verbatim>\<open>JALR\<close>.
\<close>

definition hi_part :: "'u::len word \<Rightarrow> 'u word" where "hi_part x = push_bit 12 (drop_bit 12 x)"
definition lo_part :: "'u::len word \<Rightarrow> 'u word" where "lo_part x = take_bit 12 x - 0x800"

lemma push_signed_drop_12: "push_bit 12 (signed_drop_bit 12 x) = hi_part (x :: u32)"
  unfolding hi_part_def by (rule bit_word_eqI) (auto simp: bit_simps min_def)

lemma hi_part_plus: "hi_part x + take_bit 12 x = x"
proof -
  have "hi_part x AND take_bit 12 x = 0"
    by (rule bit_word_eqI) (auto simp: hi_part_def bit_simps)
  then have "hi_part x + take_bit 12 x = hi_part x OR take_bit 12 x"
    by (simp add: disjunctive_add_eq_or)
  also have "\<dots> = x"
    unfolding hi_part_def by (rule bit_word_eqI) (auto simp: bit_simps)
  finally show ?thesis .
qed

lemma lo_part_eq: "offset - hi_part (offset + 0x800) = lo_part (offset + 0x800)"
  using hi_part_plus [of "offset + 0x800"] by (simp add: lo_part_def algebra_simps)

lemma lo_part_int:
  fixes x :: u32
  obtains t where "take_bit 12 x = word_of_int t" "0 \<le> t" "t < 4096" "sint (lo_part x) = t - 0x800"
proof -
  define t where "t = uint (take_bit 12 x)"
  have t: "0 \<le> t" "t < 4096"
    by (simp_all add: t_def unsigned_take_bit_eq take_bit_int_less_exp [of 12, simplified])
  have tb: "take_bit 12 x = word_of_int t"
    unfolding t_def by simp
  then have "sint (lo_part x) = sint (word_of_int (t - 0x800) :: u32)"
    by (simp add: lo_part_def)
  also have "\<dots> = t - 0x800"
    using t by (intro sint_word_of_int_u32) simp_all
  finally show thesis using that [OF tb t] by simp
qed

lemma sint_lo_part: "- 2048 \<le> sint (lo_part (x :: u32)) \<and> sint (lo_part x) < 2048"
  by (rule lo_part_int [of x]) auto

text \<open>The two parts survive the sign extension to the width of an address.\<close>

lemma scast_parts:
  fixes x :: u32
  assumes "32 \<le> LENGTH('u::len)"
  shows "scast (hi_part x) + scast (lo_part x) + 0x800 = (scast x :: 'u word)"
proof -
  have hi: "scast (hi_part x) = (hi_part (scast x) :: 'u word)"
    using assms unfolding hi_part_def by (intro bit_word_eqI) (auto simp: bit_simps min_def)
  have "take_bit 12 (scast x) = (ucast (take_bit 12 x) :: 'u word)"
    using assms by (intro bit_word_eqI) (auto simp: bit_simps min_def)
  moreover obtain t where t: "take_bit 12 x = word_of_int t" "0 \<le> t" "t < 4096"
    and lo: "sint (lo_part x) = t - 0x800"
    by (rule lo_part_int)
  have "uint (take_bit 12 x) = t"
    using t by (simp add: unsigned_of_int take_bit_int_eq_self)
  then have "(ucast (take_bit 12 x) :: 'u word) = word_of_int t"
    by (simp only: ucast_eq)
  moreover have "(scast (lo_part x) :: 'u word) = word_of_int t - 0x800"
    by (simp only: scast_eq lo) simp
  ultimately show ?thesis
    using hi_part_plus [of "scast x :: 'u word"] by (simp add: hi)
qed

section \<open>Running the branch\<close>

definition auipc_t1 :: "u32 \<Rightarrow> u32" where
  "auipc_t1 x = push_bit 12 (signed_drop_bit 12 x AND 0x000FFFFF) OR push_bit 7 6 OR 0x17"

definition jalr_t1 :: "u32 \<Rightarrow> u32" where
  "jalr_t1 lo12 = push_bit 20 (lo12 AND 0x00000FFF) OR push_bit 15 6 OR 0x67"

lemma auipc_t1_fields:
  "auipc_t1 x AND 0x7F = 0x17" "rv_rd (auipc_t1 x) = 6" "rv_imm_u (auipc_t1 x) = hi_part x"
  unfolding auipc_t1_def rv_rd_def rv_imm_u_def hi_part_def
  by (rule u32_eqI, (simp add: upt_rec; elim disjE; simp add: bit_simps; simp add: eval_nat_numeral))+

lemma jalr_t1_imm: "rv_imm_i (jalr_t1 lo) = signed_take_bit 11 lo"
  unfolding jalr_t1_def rv_imm_i_def
  by (rule u32_eqI, (simp add: upt_rec; elim disjE; simp add: bit_simps min_def; simp add: eval_nat_numeral))

lemma jalr_imm_fields:
  "jalr_t1 lo AND 0x7F = 0x67" "rv_rd (jalr_t1 lo) = 0" "rv_rs1 (jalr_t1 lo) = 6"
  "rv_funct3 (jalr_t1 lo) = 0"
  unfolding jalr_t1_def rv_rd_def rv_rs1_def rv_funct3_def
  by (rule u32_eqI, (simp add: upt_rec; elim disjE; simp add: bit_simps; simp add: eval_nat_numeral))+

lemma signed_take_bit_lo_part: "signed_take_bit 11 (lo_part x) = lo_part (x :: u32)"
proof -
  obtain k where k: "sint (lo_part x) = k" "- 2048 \<le> k" "k < 2048"
    using sint_lo_part [of x] by blast
  then have "lo_part x = word_of_int k" by (metis of_int_sint scast_id)
  moreover have "signed_take_bit 11 (word_of_int k :: u32) = word_of_int (signed_take_bit 11 k)"
    by (rule bit_word_eqI) (auto simp: bit_simps min_def)
  moreover have "signed_take_bit 11 k = k"
    using k by (intro signed_take_bit_int_eq_self) simp_all
  ultimately show ?thesis by simp
qed

text \<open>The generated code, in terms of the rounded offset.\<close>

lemma riscv_branch_bytes_Ok:
  assumes "riscv_branch_bytes dbg src dst = Ok code"
  shows "code = u32_le (auipc_t1 (ucast (dst - src) + 0x800))
    @ u32_le (jalr_t1 (lo_part (ucast (dst - src) + 0x800)))"
  using assms
  by (simp add: riscv_branch_bytes_def Let_def auipc_t1_def jalr_t1_def push_signed_drop_12 lo_part_eq
      split: if_splits)

lemma rv_step_auipc_any:
  assumes "fetch32 (rv_mem s) (rv_pc s) = auipc_t1 x"
  shows "rv_step s = Some (s\<lparr>rv_pc := rv_pc s + 4,
    rv_regs := (rv_regs s)(6 := rv_pc s + scast (hi_part x))\<rparr>)"
  using assms by (simp add: rv_step_def Let_def auipc_t1_fields rv_set_def)

lemma rv_step_jalr_any:
  assumes "fetch32 (rv_mem s) (rv_pc s) = jalr_t1 (lo_part x)"
  shows "rv_step s = Some (s\<lparr>rv_pc := (rv_regs s 6 + scast (lo_part x)) AND NOT 1\<rparr>)"
  using assms
  by (simp add: rv_step_def Let_def jalr_imm_fields jalr_t1_imm signed_take_bit_lo_part rv_set_def rv_get_def)

lemma riscv_branch_runs:
  fixes src dst :: "'u::len word"
  assumes "rv_xlen TYPE('u)" "riscv_branch_bytes dbg src dst = Ok code" "code_at m src code"
  shows "rv_runs_to m src ((src + scast (ucast (dst - src) + 0x800 :: u32) - 0x800) AND NOT 1)"
  unfolding rv_runs_to_def
proof (intro allI impI)
  fix s :: "'u word rv_cpu"
  assume s: "rv_mem s = m \<and> rv_pc s = src"
  define x where "x = (ucast (dst - src) + 0x800 :: u32)"
  have code: "code = u32_le (auipc_t1 x) @ u32_le (jalr_t1 (lo_part x))"
    using riscv_branch_bytes_Ok [OF assms(2)] by (simp add: x_def)
  have auipc: "fetch32 m src = auipc_t1 x" and jalr: "fetch32 m (src + 4) = jalr_t1 (lo_part x)"
    using assms(3) by (auto simp: code intro!: code_at_u32)
  let ?t = "s\<lparr>rv_pc := src + 4, rv_regs := (rv_regs s)(6 := src + scast (hi_part x))\<rparr>"
  have 1: "rv_step s = Some ?t"
    using rv_step_auipc_any [of s x] auipc s by simp
  have "scast (hi_part x) + scast (lo_part x) + 0x800 = (scast x :: 'u word)"
    using assms(1) by (intro scast_parts) (auto simp: rv_xlen_def)
  then have sum: "src + scast (hi_part x) + scast (lo_part x) = src + scast x - 0x800"
    by (simp add: algebra_simps)
  have "rv_step ?t = Some (?t\<lparr>rv_pc := (src + scast (hi_part x) + scast (lo_part x)) AND NOT 1\<rparr>)"
    using rv_step_jalr_any [of ?t x] jalr s by simp
  then have 2: "rv_step ?t = Some (?t\<lparr>rv_pc := (src + scast x - 0x800) AND NOT 1\<rparr>)"
    unfolding sum .
  have "rv_run (Suc (Suc 0)) s = Some (s\<lparr>rv_pc := (src + scast x - 0x800) AND NOT 1,
      rv_regs := (rv_regs s)(6 := src + scast (hi_part x))\<rparr>)"
    using 1 2 by simp
  then show "\<exists>n v. rv_run n s = Some (s\<lparr>rv_pc := (src + scast (ucast (dst - src) + 0x800 :: u32) - 0x800) AND NOT 1,
      rv_regs := (rv_regs s)(6 := v)\<rparr>)"
    unfolding x_def by (intro exI)
qed

text \<open>Where the branch arrives: at its destination, if that is near enough.\<close>

definition riscv_near :: "'u::len word \<Rightarrow> 'u word \<Rightarrow> bool" where
  "riscv_near src dst \<longleftrightarrow> (LENGTH('u) = 32 \<or> LENGTH('u) = 64
     \<and> - (2 ^ 31) \<le> sint (dst - src) \<and> sint (dst - src) < 2 ^ 31 - 0x800) \<and> \<not> bit dst 0"

lemma riscv_branch_dest:
  fixes src dst :: "'u::len word"
  assumes near: "riscv_near src dst"
  shows "(src + scast (ucast (dst - src) + 0x800 :: u32) - 0x800) AND NOT 1 = dst"
proof -
  have "src + scast (ucast (dst - src) + 0x800 :: u32) - 0x800 = dst"
  proof (cases "LENGTH('u) = 32")
    case True
    have "(scast y :: 'u word) = ucast y" for y :: u32
    proof (rule bit_word_eqI)
      fix n
      assume "n < LENGTH('u)"
      then show "bit (scast y :: 'u word) n = bit (ucast y :: 'u word) n"
        using True by (cases "n = 31") (auto simp: bit_simps min_def)
    qed
    moreover have "(ucast (ucast (dst - src) + of_nat 0x800 :: u32) :: 'u word) = dst - src + of_nat 0x800"
      using True by (intro ucast_add_trunc) simp
    ultimately show ?thesis by simp
  next
    case False
    with near have u: "LENGTH('u) = 64" and r: "- (2 ^ 31) \<le> sint (dst - src)" "sint (dst - src) < 2 ^ 31 - 0x800"
      by (auto simp: riscv_near_def)
    have "sint (ucast (dst - src) :: u32) = sint (dst - src)"
      using u r by (simp add: sint_ucast_narrow signed_take_bit_int_eq_self)
    then have "(ucast (dst - src) :: u32) = word_of_int (sint (dst - src))"
      by (metis of_int_sint scast_id)
    then have "(ucast (dst - src) + 0x800 :: u32) = word_of_int (sint (dst - src) + 0x800)"
      by simp
    moreover have "sint (word_of_int (sint (dst - src) + 0x800) :: u32) = sint (dst - src) + 0x800"
      using r by (intro sint_word_of_int_u32) simp_all
    ultimately have "(scast (ucast (dst - src) + 0x800 :: u32) :: 'u word)
        = word_of_int (sint (dst - src) + 0x800)"
      by (simp only: scast_eq)
    then show ?thesis by simp
  qed
  moreover have "dst AND NOT 1 = dst"
    using near by (intro and_not_1_even) (simp add: riscv_near_def)
  ultimately show ?thesis by simp
qed

lemma riscv_branch_lands:
  fixes src dst :: "'u::len word"
  assumes near: "riscv_near src dst" and code: "riscv_branch_bytes dbg src dst = Ok code" "code_at m src code"
  shows "rv_runs_to m src dst"
proof -
  have "rv_xlen TYPE('u)"
    using near by (auto simp: riscv_near_def rv_xlen_def)
  then show ?thesis
    using riscv_branch_runs [OF _ code] riscv_branch_dest [OF near] by simp
qed

section \<open>The patcher contract\<close>

lemma riscv_patch_area_Ok:
  "riscv_patch_area m target n = Ok (ptr, len) \<longleftrightarrow>
     ptr = target \<and> len = 8
     \<and> (8 \<le> n \<or> riscv_is_code_padding (read_bytes m (target + of_nat n) (8 - n)))"
  by (auto simp: riscv_patch_area_def Let_def)

lemma riscv_patcher_new_Ok:
  "riscv_patcher_new dbg m target detour n = Ok p \<longleftrightarrow>
     (\<exists>code. riscv_patch_area m target n = Ok (area_ptr p, area_len p)
       \<and> riscv_branch_bytes dbg (area_ptr p) detour = Ok code
       \<and> detour_prolog p = code
       \<and> original_prolog p = read_bytes m (area_ptr p) (area_len p))"
  by (cases p) (auto simp: riscv_patcher_new_def)

lemma length_riscv_branch_bytes: "riscv_branch_bytes dbg src dst = Ok code \<Longrightarrow> length code = 8"
  by (drule riscv_branch_bytes_Ok) simp

interpretation riscv_patcher: patcher_module "riscv_patcher_new dbg" rv_runs_to
    "\<lambda>p target detour. riscv_near target detour" for dbg
proof
  fix m :: "'a mem" and target detour n p
  assume new: "riscv_patcher_new dbg m target detour n = Ok p"
  then show orig: "original_prolog p = read_bytes m (area_ptr p) (area_len p)"
    by (simp add: riscv_patcher_new_Ok)
  then show "patcher_wf p"
    using new by (auto simp: riscv_patcher_new_Ok riscv_patch_area_Ok patcher_wf_def
        dest: length_riscv_branch_bytes)
next
  fix m :: "'a mem" and target detour :: "'a word" and n p
  assume new: "riscv_patcher_new dbg m target detour n = Ok p" and near: "riscv_near target detour"
  have "(8::nat) \<le> 2 ^ LENGTH('a)" using near by (auto simp: riscv_near_def)
  then show "area_len p \<le> 2 ^ LENGTH('a)"
    using new by (simp add: riscv_patcher_new_Ok riscv_patch_area_Ok)
next
  fix m m' :: "'a mem" and target detour n p
  assume "riscv_patcher_new dbg m target detour n = Ok p" "riscv_near target detour"
    and "code_at m' (area_ptr p) (detour_prolog p)"
  then show "rv_runs_to m' target detour"
    by (auto simp: riscv_patcher_new_Ok riscv_patch_area_Ok intro: riscv_branch_lands)
qed

section \<open>Properties\<close>

text \<open>
  With the hook enabled, calling the target arrives at a detour (or relay) that is near
  enough, in debug and in release builds, on both widths.
\<close>

theorem riscv_hook_reaches_detour:
  assumes "riscv_patcher_new dbg m target detour n = Ok p" "riscv_near target detour"
    and "patcher_toggle p True m1 = Ok m2"
  shows "rv_runs_to m2 target detour"
  by (rule riscv_patcher.toggle_on_reaches [OF assms])

theorem riscv_hook_reaches_detour_witness:
  "rv_runs_to (write_bytes (\<lambda>_. 0) (0x1000 :: u64) (u32_le 0x1317 @ u32_le 0x80030067)) 0x1000 0x1800"
proof -
  let ?m = "(\<lambda>_. 0) :: 64 mem" and ?code = "u32_le 0x1317 @ u32_le 0x80030067"
  let ?p = "\<lparr>area_ptr = 0x1000, area_len = 8, original_prolog = read_bytes ?m 0x1000 8,
    detour_prolog = ?code\<rparr>"
  have "riscv_branch_bytes True (0x1000 :: u64) 0x1800 = Ok ?code"
    by (simp add: riscv_branch_bytes_def Let_def i32_fits_def)
  then have new: "riscv_patcher_new True ?m 0x1000 0x1800 8 = Ok ?p"
    by (simp add: riscv_patcher_new_Ok riscv_patch_area_Ok)
  have "patcher_toggle ?p True ?m = Ok (write_bytes ?m 0x1000 ?code)"
    by (simp add: patcher_toggle_def copy_from_slice_def)
  then show ?thesis
    using riscv_hook_reaches_detour [OF new, of ?m] by (simp add: riscv_near_def)
qed

text \<open>
  The last 0x800 distances of the range. No relay is built, although the rounding of the
  upper part overflows: a debug build panics, a release build sends the target four gigabytes
  below the detour.
\<close>

theorem riscv_relay_gap:
  fixes target detour :: u64
  assumes "8 \<le> n" "0x7FFFF800 \<le> sint (detour - target)" "sint (detour - target) < 0x7FFFFFFF"
    and "\<not> bit detour 0" "riscv_patcher_new False m target detour n = Ok p"
    and "patcher_toggle p True m1 = Ok m2"
  shows "riscv_relay_builder target detour = Ok None
    \<and> riscv_patcher_new True m target detour n = Panic
    \<and> rv_runs_to m2 target (detour - 0x100000000)"
proof -
  define d where "d = sint (detour - target)"
  have d: "0x7FFFF800 \<le> d" "d < 0x7FFFFFFF" using assms(2,3) by (simp_all add: d_def)
  have none: "riscv_relay_builder target detour = Ok None"
    using d by (simp add: riscv_relay_builder_def Let_def is_within_range_def riscv_DETOUR_RANGE_def
        d_def [symmetric])
  have off: "sint (ucast (detour - target) :: u32) = d"
    using d by (simp add: sint_ucast_narrow signed_take_bit_int_eq_self d_def [symmetric])
  have panic: "riscv_patcher_new True m target detour n = Panic"
    using assms(1) d
    by (simp add: riscv_patcher_new_def riscv_patch_area_def Let_def riscv_branch_bytes_def off i32_fits_def)
  have "(ucast (detour - target) :: u32) = word_of_int d"
    using off by (metis of_int_sint scast_id)
  then have "(ucast (detour - target) + 0x800 :: u32) = word_of_int (d + 0x800 - 0x100000000)"
    by simp
  moreover have "sint (word_of_int (d + 0x800 - 0x100000000) :: u32) = d + 0x800 - 0x100000000"
    using d by (intro sint_word_of_int_u32) simp_all
  ultimately have "scast (ucast (detour - target) + 0x800 :: u32) = (word_of_int (d + 0x800 - 0x100000000) :: u64)"
    by (simp only: scast_eq)
  moreover have "(word_of_int d :: u64) = detour - target" by (simp add: d_def)
  ultimately have land: "target + scast (ucast (detour - target) + 0x800 :: u32) - 0x800 = detour - 0x100000000"
    by simp
  have even: "(detour - 0x100000000) AND NOT 1 = detour - 0x100000000"
    using assms(4) by (intro and_not_1_even) (simp add: bit_0)
  have new: "riscv_branch_bytes False target detour = Ok (detour_prolog p)" "area_ptr p = target" "area_len p = 8"
    using assms(5) by (auto simp: riscv_patcher_new_Ok riscv_patch_area_Ok)
  have "length (detour_prolog p) = 8" by (rule length_riscv_branch_bytes [OF new(1)])
  moreover from this have m2: "m2 = write_bytes m1 target (detour_prolog p)"
    using assms(6) new by (simp add: patcher_toggle_def copy_from_slice_def)
  ultimately have "code_at m2 target (detour_prolog p)"
    unfolding m2 by (intro code_at_write_bytes) simp
  then have "rv_runs_to m2 target (detour - 0x100000000)"
    using riscv_branch_runs [OF _ new(1), of m2] land even by (simp add: rv_xlen_def)
  then show ?thesis using none panic by blast
qed

theorem riscv_relay_gap_witness:
  "riscv_relay_builder (0x1000 :: u64) 0x80000800 = Ok None
    \<and> riscv_patcher_new True (\<lambda>_. 0) (0x1000 :: u64) 0x80000800 8 = Panic
    \<and> rv_runs_to (write_bytes (\<lambda>_. 0) (0x1000 :: u64) (u32_le 0x80000317 @ u32_le 0x80030067)) 0x1000
        (0x80000800 - 0x100000000)"
proof -
  let ?m = "(\<lambda>_. 0) :: 64 mem" and ?code = "u32_le 0x80000317 @ u32_le 0x80030067"
  let ?p = "\<lparr>area_ptr = 0x1000, area_len = 8, original_prolog = read_bytes ?m 0x1000 8,
    detour_prolog = ?code\<rparr>"
  have "riscv_branch_bytes False (0x1000 :: u64) 0x80000800 = Ok ?code"
    by (simp add: riscv_branch_bytes_def Let_def)
  then have new: "riscv_patcher_new False ?m 0x1000 0x80000800 8 = Ok ?p"
    by (simp add: riscv_patcher_new_Ok riscv_patch_area_Ok)
  have "patcher_toggle ?p True ?m = Ok (write_bytes ?m 0x1000 ?code)"
    by (simp add: patcher_toggle_def copy_from_slice_def)
  then show ?thesis
    using riscv_relay_gap [OF _ _ _ _ new, of ?m] by simp
qed

end
