(* ===== verification/Riscv_Trampoline.thy ===== *)
theory Riscv_Trampoline
  imports Riscv_Patcher
begin

text \<open>
  \<^verbatim>\<open>src/arch/riscv/trampoline/mod.rs\<close>: decoding of the prolog, one four-byte instruction at a
  time, and its relocation. Compressed instructions are refused.
\<close>

section \<open>Decoders\<close>

definition decode_j_type :: "u32 \<Rightarrow> u32" where
  "decode_j_type instr =
     (let imm20 = drop_bit 31 instr AND 1;
          imm10_1 = drop_bit 21 instr AND 0x3FF;
          imm11 = drop_bit 20 instr AND 1;
          imm19_12 = drop_bit 12 instr AND 0xFF;
          raw = push_bit 20 imm20 OR push_bit 12 imm19_12 OR push_bit 11 imm11 OR push_bit 1 imm10_1
      in signed_drop_bit 11 (push_bit 11 raw))"

definition decode_b_type :: "u32 \<Rightarrow> u32" where
  "decode_b_type instr =
     (let imm12 = drop_bit 31 instr AND 1;
          imm10_5 = drop_bit 25 instr AND 0x3F;
          imm4_1 = drop_bit 8 instr AND 0xF;
          imm11 = drop_bit 7 instr AND 1;
          raw = push_bit 12 imm12 OR push_bit 11 imm11 OR push_bit 5 imm10_5 OR push_bit 1 imm4_1
      in signed_drop_bit 19 (push_bit 19 raw))"

section \<open>Processing one instruction\<close>

definition riscv_process ::
  "'u::len word builder \<Rightarrow> u32 \<Rightarrow> 'u word \<Rightarrow> ('u word thunk \<times> nat \<times> 'u word builder) res" where
  "riscv_process b instr pc =
     (let prolog = prolog_range b;
          copied = VecThunk (u32_le instr) in
      if instr AND 0x3 \<noteq> 0x3 then Err UnsupportedInstruction
      else
        let opcode = instr AND 0x7F in
        if opcode = 0x6F then
          (let imm = decode_j_type instr; dest = pc + scast imm; rd = drop_bit 7 instr AND 0x1F in
           if rd = 0 then
             (let b = b\<lparr>finished := \<not> is_in_branch b pc\<rparr> in
              if in_range prolog dest then Ok (copied, 4, track_branch dest b)
              else let t = riscv_jmp_abs dest; sz = thunk_len t in Ok (t, sz, b))
           else if in_range prolog dest then Ok (copied, 4, track_branch dest b)
           else let t = call_abs_rd (ucast rd) dest; sz = thunk_len t in Ok (t, sz, b))
        else if opcode = 0x67 then
          (let rd = drop_bit 7 instr AND 0x1F in
           Ok (copied, 4, if rd = 0 then b\<lparr>finished := \<not> is_in_branch b pc\<rparr> else b))
        else if opcode = 0x17 then
          (let page_disp = scast (instr AND 0xFFFFF000); actual_addr = pc + page_disp;
               rd = drop_bit 7 instr AND 0x1F;
               t = li_abs (ucast rd) actual_addr; sz = thunk_len t in
           Ok (t, sz, b))
        else if opcode = 0x63 then
          (let imm = decode_b_type instr; dest = pc + scast imm in
           if in_range prolog dest then Ok (copied, 4, track_branch dest b)
           else let t = branch_far instr dest; sz = thunk_len t in Ok (t, sz, b))
        else Ok (copied, 4, b))"

lemma riscv_process_frame:
  "riscv_process b instr pc = Ok (t, sz, b') \<Longrightarrow>
     b_target b' = b_target b \<and> margin b' = margin b \<and> total_bytes b' = total_bytes b"
  by (auto simp: riscv_process_def Let_def split: if_splits)

section \<open>Building the trampoline\<close>

function riscv_build_loop ::
  "'u::len mem \<Rightarrow> 'u word builder \<Rightarrow> 'u word code_emitter \<Rightarrow> ('u word builder \<times> 'u word code_emitter) res"
where
  "riscv_build_loop m b emitter =
     (if finished b then Ok (b, emitter)
      else
        let instr_addr = b_target b + of_nat (total_bytes b);
            raw = fetch32 m instr_addr in
        res_bind (riscv_process b raw instr_addr) (\<lambda>(thunk, expanded, b).
          if is_in_branch b instr_addr \<and> expanded \<noteq> 4 then Err UnsupportedInstruction
          else
            let emitter = add_thunk emitter thunk;
                b = b\<lparr>total_bytes := total_bytes b + 4\<rparr> in
            if total_bytes b \<ge> margin b \<and> \<not> finished b
            then riscv_build_loop m (b\<lparr>finished := True\<rparr>)
                   (add_thunk emitter (riscv_jmp_abs (b_target b + of_nat (total_bytes b))))
            else riscv_build_loop m b emitter))"
  by pat_completeness auto
termination
  by (relation "measure (\<lambda>(m, b, emitter). if finished b then 0 else Suc (margin b - total_bytes b))")
     (auto dest!: riscv_process_frame)

declare riscv_build_loop.simps [simp del]

definition riscv_build :: "'u::len mem \<Rightarrow> 'u word builder \<Rightarrow> 'u word trampoline res" where
  "riscv_build m b =
     res_bind (riscv_build_loop m b emitter_new) (\<lambda>(b, emitter).
       Ok \<lparr>tramp_emitter = emitter, tramp_prolog_size = total_bytes b\<rparr>)"

definition riscv_trampoline_new :: "'u::len mem \<Rightarrow> 'u word \<Rightarrow> nat \<Rightarrow> 'u word trampoline res" where
  "riscv_trampoline_new m target k = riscv_build m (builder_new target k)"

section \<open>The decoders follow the instruction set manual\<close>

lemma decode_j_type_isa: "decode_j_type i = isa_imm_j i"
  unfolding decode_j_type_def isa_imm_j_def Let_def
  by (rule u32_eqI, (simp add: upt_rec del: push_bit_Suc; elim disjE; simp add: bit_simps min_def del: push_bit_Suc; simp add: eval_nat_numeral))

lemma decode_b_type_isa: "decode_b_type i = isa_imm_b i"
  unfolding decode_b_type_def isa_imm_b_def Let_def
  by (rule u32_eqI, (simp add: upt_rec del: push_bit_Suc; elim disjE; simp add: bit_simps min_def del: push_bit_Suc; simp add: eval_nat_numeral))

lemma decode_b_encode: "decode_b_type (encode_b_type (z AND 7) (x AND 0x1F) (y AND 0x1F) imm) = signed_take_bit 12 imm AND NOT 1"
  unfolding decode_b_type_def encode_b_type_def Let_def
  by (rule u32_eqI, (simp add: upt_rec del: push_bit_Suc; elim disjE; simp add: bit_simps min_def del: push_bit_Suc; simp add: eval_nat_numeral))

lemma decode_j_encode: "decode_j_type (encode_j_type (x AND 0x1F) imm) = signed_take_bit 20 imm AND NOT 1"
  unfolding decode_j_type_def encode_j_type_def Let_def
  by (rule u32_eqI, (simp add: upt_rec del: push_bit_Suc; elim disjE; simp add: bit_simps min_def del: push_bit_Suc; simp add: eval_nat_numeral))

lemma signed_take_bit_u32_eq_self:
  assumes "- (2 ^ n) \<le> sint imm" "sint imm < 2 ^ n" "n < 32"
  shows "signed_take_bit n (imm :: u32) = imm"
proof -
  have "signed_take_bit n (word_of_int k :: u32) = word_of_int (signed_take_bit n k)" for k
    using assms(3) by (intro bit_word_eqI) (auto simp: bit_simps min_def)
  from this [of "sint imm"] show ?thesis
    using assms(1,2) by (simp add: signed_take_bit_int_eq_self)
qed

text \<open>What the encoders write, the decoders read back, for every immediate in range.\<close>

theorem riscv_immediates_roundtrip:
  fixes imm rd rs1 rs2 f3 :: u32
  assumes "rd < 32" "rs1 < 32" "rs2 < 32" "f3 < 8" "\<not> bit imm 0"
  shows "(- 0x1000 \<le> sint imm \<and> sint imm < 0x1000 \<longrightarrow> decode_b_type (encode_b_type f3 rs1 rs2 imm) = imm)
    \<and> (- 0x100000 \<le> sint imm \<and> sint imm < 0x100000 \<longrightarrow> decode_j_type (encode_j_type rd imm) = imm)"
proof -
  have "f3 AND 7 = f3"
  proof -
    have "take_bit 3 f3 = f3" using assms(4) by (simp add: take_bit_eq_mod mod_word_less)
    then show ?thesis by (simp add: take_bit_eq_mask mask_eq_exp_minus_1)
  qed
  moreover have "imm AND NOT 1 = imm" using assms(5) by (rule and_not_1_even)
  ultimately show ?thesis
    using decode_b_encode [of f3 rs1 rs2 imm] decode_j_encode [of rd imm]
      signed_take_bit_u32_eq_self [of 12 imm] signed_take_bit_u32_eq_self [of 20 imm] assms(1-3)
    by (simp add: and_1F_eq)
qed

theorem riscv_immediates_roundtrip_witness:
  "decode_b_type (encode_b_type 1 10 0 (- 4)) = - 4 \<and> decode_j_type (encode_j_type 1 (- 4)) = - 4"
  using riscv_immediates_roundtrip [of 1 10 0 1 "- 4"] by simp

section \<open>Relocated instructions behave like the originals\<close>

lemma isa_imm_j_even: "\<not> bit (isa_imm_j i) 0"
  by (simp add: isa_imm_j_def)

lemma isa_imm_b_even: "\<not> bit (isa_imm_b i) 0"
  by (simp add: isa_imm_b_def)

lemma even_plus_scast:
  assumes "\<not> bit (pc :: 'u::len word) 0" "\<not> bit (imm :: u32) 0"
  shows "\<not> bit (pc + scast imm) 0"
proof -
  have "\<not> bit (scast imm :: 'u word) 0"
    using assms(2) by (simp add: bit_simps)
  with assms(1) show ?thesis by (simp add: bit_0)
qed

lemma rv_step_auipc:
  assumes "fetch32 (rv_mem s) (rv_pc s) = i" "i AND 0x7F = 0x17"
  shows "rv_step s = Some ((rv_set (rv_rd i) (rv_pc s + scast (rv_imm_u i)) s)\<lparr>rv_pc := rv_pc s + 4\<rparr>)"
  using assms by (simp add: rv_step_def Let_def)

text \<open>What \<^verbatim>\<open>process\<close> puts in place of an instruction it does not copy.\<close>

lemma riscv_process_cases:
  assumes "riscv_process b i pc = Ok (t, sz, b')" "t \<noteq> VecThunk (u32_le i)"
  obtains "i AND 0x7F = 0x6F" "rv_rd i = 0" "t = riscv_jmp_abs (pc + scast (isa_imm_j i))"
    | "i AND 0x7F = 0x6F" "rv_rd i \<noteq> 0" "t = call_abs_rd (ucast (rv_rd i)) (pc + scast (isa_imm_j i))"
    | "i AND 0x7F = 0x17" "t = li_abs (ucast (rv_rd i)) (pc + scast (rv_imm_u i))"
    | "i AND 0x7F = 0x63" "t = branch_far i (pc + scast (isa_imm_b i))"
  using assms
  by (auto simp: riscv_process_def Let_def rv_rd_def rv_imm_u_def decode_j_type_isa decode_b_type_isa
      split: if_splits)

text \<open>
  C13: relocation preserves meaning. An instruction that depends on its address (\<^verbatim>\<open>JAL x0\<close>,
  \<^verbatim>\<open>AUIPC\<close>, a conditional branch) is replaced by code that, wherever it is placed, leaves the
  registers as the original instruction does, \<^verbatim>\<open>t1\<close> apart, and continues at the same address,
  or behind the code when the original falls through.
\<close>

theorem riscv_relocation_correct:
  fixes s o1 o2 :: "'u::len word rv_cpu"
  assumes "rv_xlen TYPE('u)" "\<not> bit pc 0"
    and process: "riscv_process b i pc = Ok (t, sz, b')" "t \<noteq> VecThunk (u32_le i)"
    and "i AND 0x7F = 0x6F \<longrightarrow> rv_rd i = 0" "i AND 0x7F = 0x17 \<longrightarrow> rv_rd i \<noteq> 0"
    and orig: "rv_pc o1 = pc" "fetch32 (rv_mem o1) pc = i" "rv_step o1 = Some o2"
    and reloc: "rv_pc s = src" "rv_regs s = rv_regs o1" "thunk_generate t src = Ok code"
      "code_at (rv_mem s) src code"
  shows "\<exists>n v dst. rv_run n s = Some (s\<lparr>rv_pc := dst, rv_regs := (rv_regs o2)(6 := v)\<rparr>)
    \<and> (dst = rv_pc o2 \<or> rv_pc o2 = pc + 4 \<and> dst = src + of_nat (length code))"
  using process
proof (cases rule: riscv_process_cases)
  case 1
  have o2: "rv_regs o2 = rv_regs o1" "rv_pc o2 = pc + scast (isa_imm_j i)"
    using orig rv_step_jal [of o1 i] 1(1,2) by (auto simp: rv_set_def)
  have "\<not> bit (pc + scast (isa_imm_j i)) 0"
    using assms(2) isa_imm_j_even by (rule even_plus_scast)
  then have "rv_runs_to (rv_mem s) src (pc + scast (isa_imm_j i))"
    using assms(1) reloc 1(3) by (intro riscv_jmp.jmp_lands) simp_all
  then obtain n v where "rv_run n s = Some (s\<lparr>rv_pc := rv_pc o2, rv_regs := (rv_regs o2)(6 := v)\<rparr>)"
    using reloc o2 unfolding rv_runs_to_def by auto
  then show ?thesis by blast
next
  case 2
  then show ?thesis using assms(5) by simp
next
  case 3
  have o2: "rv_regs o2 = (rv_regs o1)(rv_rd i := pc + scast (rv_imm_u i))" "rv_pc o2 = pc + 4"
    using orig rv_step_auipc [of o1 i] 3(1) assms(6) by (auto simp: rv_set_def)
  have "rv_run (Suc (Suc 0)) s = Some (s\<lparr>rv_pc := src + of_nat (length code),
      rv_regs := (rv_regs s)(rv_rd i := pc + scast (rv_imm_u i))\<rparr>)"
    using assms(1,6) 3 reloc by (intro li_abs_runs [of _ "drop_bit 7 i"]) (simp_all add: rv_rd_def)
  then have "rv_run (Suc (Suc 0)) s = Some (s\<lparr>rv_pc := src + of_nat (length code),
      rv_regs := (rv_regs o2)(6 := rv_regs o2 6)\<rparr>)"
    unfolding fun_upd_triv o2(1) reloc(2) .
  with o2(2) show ?thesis by blast
next
  case 4
  have f3: "rv_funct3 i AND 6 \<noteq> 2"
    using orig 4(1) by (auto simp: rv_step_def Let_def)
  let ?taken = "rv_cond (rv_funct3 i) (rv_get s (rv_rs1 i)) (rv_get s (rv_rs2 i))"
  have "rv_get s = rv_get o1"
    using reloc(2) by (simp add: rv_get_def fun_eq_iff)
  then have o2: "rv_regs o2 = rv_regs o1" "rv_pc o2 = pc + (if ?taken then scast (isa_imm_b i) else 4)"
    using orig rv_step_branch [of o1 i] 4(1) f3 by auto
  have "\<not> bit (pc + scast (isa_imm_b i)) 0"
    using assms(2) isa_imm_b_even by (rule even_plus_scast)
  then obtain n v where "rv_run n s = Some (s\<lparr>rv_pc :=
      (if ?taken then pc + scast (isa_imm_b i) else src + of_nat (length code)),
      rv_regs := (rv_regs s)(6 := v)\<rparr>)"
    using branch_far_branches [OF assms(1) f3 _ reloc(1) _ reloc(4)] reloc(3) 4(2) by blast
  then show ?thesis
    using o2 reloc(2) by (intro exI conjI) auto
qed

lemma scast_1000: "scast (0x1000 :: u32) = (0x1000 :: u64)"
  by (simp only: scast_eq) simp

text \<open>\<^verbatim>\<open>auipc a0, 1\<close> at 0x1000, moved to 0x7000.\<close>

theorem riscv_relocation_correct_witness:
  "let m = write_bytes (\<lambda>_. 0) (0x7000 :: u64)
         (u32_le 0x00C0056F @ riscv_literal (0x2000 :: u64) @ u32_le 0x00053503)
   in \<exists>n v dst. rv_run n \<lparr>rv_pc = 0x7000, rv_regs = (\<lambda>_. 5), rv_mem = m\<rparr>
       = Some \<lparr>rv_pc = dst, rv_regs = (\<lambda>_. 5)(10 := 0x2000, 6 := v), rv_mem = m\<rparr>
     \<and> (dst = 0x1004 \<or> dst = 0x7010)"
proof -
  let ?i = "0x00001517 :: u32" and ?b = "builder_new (0x1000 :: u64) 8"
  let ?code = "u32_le 0x00C0056F @ riscv_literal (0x2000 :: u64) @ u32_le 0x00053503"
  let ?m = "write_bytes (\<lambda>_. 0) (0x7000 :: u64) ?code"
  let ?o = "\<lparr>rv_pc = 0x1000, rv_regs = (\<lambda>_. 5), rv_mem = write_bytes (\<lambda>_. 0) (0x1000 :: u64) (u32_le ?i)\<rparr>"
  let ?s = "\<lparr>rv_pc = 0x7000, rv_regs = (\<lambda>_. 5), rv_mem = ?m\<rparr> :: u64 rv_cpu"
  let ?t = "li_abs 10 (0x2000 :: u64)"
  have orig: "fetch32 (rv_mem ?o) 0x1000 = ?i"
    unfolding rv_cpu.simps by (rule code_at_u32, rule code_at_write_bytes) simp
  have fields: "rv_rd ?i = 10" "rv_imm_u ?i = 0x1000"
    by (simp_all add: rv_rd_def rv_imm_u_def)
  have step: "rv_step ?o = Some (?o\<lparr>rv_pc := 0x1004, rv_regs := (rv_regs ?o)(10 := 0x2000)\<rparr>)"
    using rv_step_auipc [of ?o ?i] orig by (simp add: fields rv_set_def scast_1000)
  have process: "riscv_process ?b ?i 0x1000 = Ok (?t, 16, ?b)"
    by (simp add: riscv_process_def Let_def scast_1000 li_abs_def target_riscv64_def riscv_literal_def)
  have gen: "thunk_generate ?t 0x7000 = Ok ?code"
    by (simp add: li_abs_code li_abs_load_def encode_j_type_def)
  have neq: "?t \<noteq> VecThunk (u32_le ?i)"
    by (simp add: li_abs_def Let_def u32_le_def)
  have placed: "code_at (rv_mem ?s) 0x7000 ?code"
    unfolding rv_cpu.simps by (rule code_at_write_bytes) (simp add: riscv_literal_def target_riscv64_def)
  have "\<exists>n v dst. rv_run n ?s = Some (?s\<lparr>rv_pc := dst,
      rv_regs := (rv_regs (?o\<lparr>rv_pc := 0x1004, rv_regs := (rv_regs ?o)(10 := 0x2000)\<rparr>))(6 := v)\<rparr>)
    \<and> (dst = rv_pc (?o\<lparr>rv_pc := 0x1004, rv_regs := (rv_regs ?o)(10 := 0x2000)\<rparr>)
       \<or> rv_pc (?o\<lparr>rv_pc := 0x1004, rv_regs := (rv_regs ?o)(10 := 0x2000)\<rparr>) = 0x1000 + 4
         \<and> dst = 0x7000 + of_nat (length ?code))"
    by (rule riscv_relocation_correct [OF _ _ process neq _ _ _ orig step _ _ gen placed])
       (simp_all add: rv_xlen_def fields bit_0)
  then show ?thesis
    by (simp add: riscv_literal_def target_riscv64_def)
qed

section \<open>The trampoline runs the prolog\<close>

text \<open>
  Straight-line instructions: immediate addition, \<^verbatim>\<open>AUIPC\<close>, and loads, which must read the same
  data in the memory at hand (\<open>rv_loads_agree\<close>) as in the one the original sees; \<open>rv_straight\<close>
  demands that of loads by equality of the two memories.
\<close>

definition rv_plain :: "u32 \<Rightarrow> bool" where
  "rv_plain i \<longleftrightarrow> i AND 0x7F = 0x13 \<or> i AND 0x7F = 0x17 \<and> rv_rd i \<noteq> 0 \<or> i AND 0x7F = 0x03"

definition rv_loads_agree :: "'u::len mem \<Rightarrow> 'u word rv_cpu \<Rightarrow> bool" where
  "rv_loads_agree m' s \<longleftrightarrow>
     (let i = fetch32 (rv_mem s) (rv_pc s); a = rv_get s (rv_rs1 i) + scast (rv_imm_i i) in
      i AND 0x7F = 0x03 \<longrightarrow> fetch32 m' a = fetch32 (rv_mem s) a \<and> fetch64 m' a = fetch64 (rv_mem s) a)"

definition rv_straight :: "'u::len mem \<Rightarrow> 'u mem \<Rightarrow> u32 \<Rightarrow> bool" where
  "rv_straight m m' i \<longleftrightarrow> i AND 0x7F = 0x13 \<or> i AND 0x7F = 0x17 \<and> rv_rd i \<noteq> 0
     \<or> i AND 0x7F = 0x03 \<and> m' = m"

lemma rv_straight_plain: "rv_straight m m' i \<Longrightarrow> rv_plain i"
  by (auto simp: rv_straight_def rv_plain_def)

lemma rv_straight_loads: "rv_straight (rv_mem s) m' (fetch32 (rv_mem s) (rv_pc s)) \<Longrightarrow> rv_loads_agree m' s"
  by (auto simp: rv_straight_def rv_loads_agree_def)

lemma and_3_of_and_7F:
  assumes "(i :: u32) AND 0x7F = k"
  shows "i AND 3 = k AND 3"
proof -
  have "i AND 3 = (i AND 0x7F) AND 3" by (simp add: and.assoc)
  with assms show ?thesis by simp
qed

lemma riscv_process_straight:
  fixes i :: u32
  assumes "rv_plain i"
  shows "riscv_process b i pc = Ok
    (if i AND 0x7F = 0x17 then (li_abs (ucast (rv_rd i)) (pc + scast (rv_imm_u i)),
       thunk_len (li_abs (ucast (rv_rd i)) (pc + scast (rv_imm_u i))), b)
     else (VecThunk (u32_le i), 4, b))"
  using assms and_3_of_and_7F [of i]
  by (auto simp: rv_plain_def riscv_process_def Let_def rv_rd_def rv_imm_u_def)

text \<open>One relocated straight-line instruction.\<close>

lemma riscv_straight_step:
  fixes s o1 o2 :: "'u::len word rv_cpu"
  assumes "rv_xlen TYPE('u)" "rv_plain i" "rv_loads_agree (rv_mem s) o1"
    and "riscv_process b i (rv_pc o1) = Ok (t, sz, b')"
    and "fetch32 (rv_mem o1) (rv_pc o1) = i" "rv_step o1 = Some o2"
    and "rv_regs s = rv_regs o1" "thunk_generate t (rv_pc s) = Ok code" "code_at (rv_mem s) (rv_pc s) code"
  shows "\<exists>n. rv_run n s = Some (s\<lparr>rv_pc := rv_pc s + of_nat (length code), rv_regs := rv_regs o2\<rparr>)
    \<and> rv_pc o2 = rv_pc o1 + 4 \<and> rv_mem o2 = rv_mem o1"
proof (cases "i AND 0x7F = 0x17")
  case True
  with assms(2) have rd: "rv_rd i \<noteq> 0" by (auto simp: rv_plain_def)
  have t: "t = li_abs (ucast (rv_rd i)) (rv_pc o1 + scast (rv_imm_u i))"
    using assms(4) True riscv_process_straight [OF assms(2), of b "rv_pc o1"] by simp
  have "rv_step o1 = Some (o1\<lparr>rv_pc := rv_pc o1 + 4,
      rv_regs := (rv_regs o1)(rv_rd i := rv_pc o1 + scast (rv_imm_u i))\<rparr>)"
    using assms(5) rv_step_auipc [of o1 i] True rd by (simp add: rv_set_def)
  then have o2: "o2 = o1\<lparr>rv_pc := rv_pc o1 + 4,
      rv_regs := (rv_regs o1)(rv_rd i := rv_pc o1 + scast (rv_imm_u i))\<rparr>"
    unfolding assms(6) option.inject .
  have "rv_run (Suc (Suc 0)) s = Some (s\<lparr>rv_pc := rv_pc s + of_nat (length code),
      rv_regs := (rv_regs s)(rv_rd i := rv_pc o1 + scast (rv_imm_u i))\<rparr>)"
    using assms(1,8,9) rd t by (intro li_abs_runs [of _ "drop_bit 7 i"]) (simp_all add: rv_rd_def)
  then have "rv_run (Suc (Suc 0)) s = Some (s\<lparr>rv_pc := rv_pc s + of_nat (length code), rv_regs := rv_regs o2\<rparr>)"
    by (simp add: o2 assms(7) del: rv_run.simps)
  moreover have "rv_pc o2 = rv_pc o1 + 4 \<and> rv_mem o2 = rv_mem o1" using o2 by simp
  ultimately show ?thesis by blast
next
  case False
  then have t: "code = u32_le i"
    using assms(4,8) riscv_process_straight [OF assms(2), of b "rv_pc o1"] by auto
  have fetch: "fetch32 (rv_mem s) (rv_pc s) = i"
    using assms(9) t by (intro code_at_u32) simp
  have get: "rv_get s = rv_get o1"
    using assms(7) by (simp add: rv_get_def fun_eq_iff)
  have "rv_step s = Some (s\<lparr>rv_pc := rv_pc s + 4, rv_regs := rv_regs o2\<rparr>)
    \<and> rv_pc o2 = rv_pc o1 + 4 \<and> rv_mem o2 = rv_mem o1"
    using False assms(2,3,5,6,7) fetch get
    by (auto simp: rv_plain_def rv_loads_agree_def rv_step_def Let_def rv_set_def split: if_splits)
  then have "rv_run (Suc 0) s = Some (s\<lparr>rv_pc := rv_pc s + of_nat (length code), rv_regs := rv_regs o2\<rparr>)
    \<and> rv_pc o2 = rv_pc o1 + 4 \<and> rv_mem o2 = rv_mem o1"
    using t by simp
  then show ?thesis by (intro exI)
qed

lemma rv_plain_step:
  assumes "rv_plain (fetch32 (rv_mem s) (rv_pc s))" "rv_step s = Some t"
  shows "rv_mem t = rv_mem s" "rv_pc t = rv_pc s + 4"
  using assms by (auto simp: rv_plain_def rv_step_def Let_def rv_set_def split: if_splits)

definition straight_thunk :: "'u::len word \<Rightarrow> u32 \<Rightarrow> 'u word thunk" where
  "straight_thunk pc i =
     (if i AND 0x7F = 0x17 then li_abs (ucast (rv_rd i)) (pc + scast (rv_imm_u i))
      else VecThunk (u32_le i))"

lemma riscv_process_straight_thunk:
  assumes "rv_plain i"
  shows "\<exists>sz. riscv_process b i pc = Ok (straight_thunk pc i, sz, b)"
  using riscv_process_straight [OF assms, of b pc] by (auto simp: straight_thunk_def)

lemma riscv_trampoline_straight:
  assumes "rv_plain (fetch32 m target)" "rv_plain (fetch32 m (target + 4))"
  shows "riscv_trampoline_new m target 8 = Ok
    \<lparr>tramp_emitter = \<lparr>thunks = [straight_thunk target (fetch32 m target),
        straight_thunk (target + 4) (fetch32 m (target + 4)), riscv_jmp_abs (target + 8)]\<rparr>,
     tramp_prolog_size = 8\<rparr>"
proof -
  let ?b = "builder_new target 8"
  obtain k where 1: "riscv_process ?b (fetch32 m target) target =
      Ok (straight_thunk target (fetch32 m target), k, ?b)"
    using riscv_process_straight_thunk [OF assms(1)] by blast
  have b4: "\<not> is_in_branch (?b\<lparr>total_bytes := n\<rparr>) a" for n a
    by (simp add: is_in_branch_def)
  obtain l where 2: "riscv_process (?b\<lparr>total_bytes := 4\<rparr>) (fetch32 m (target + 4)) (target + 4) =
      Ok (straight_thunk (target + 4) (fetch32 m (target + 4)), l, ?b\<lparr>total_bytes := 4\<rparr>)"
    using riscv_process_straight_thunk [OF assms(2)] by blast
  have "riscv_build_loop m ?b emitter_new = Ok (?b\<lparr>total_bytes := 8, finished := True\<rparr>,
      \<lparr>thunks = [straight_thunk target (fetch32 m target),
        straight_thunk (target + 4) (fetch32 m (target + 4)), riscv_jmp_abs (target + 8)]\<rparr>)"
    by (subst riscv_build_loop.simps, simp add: 1 Let_def,
        subst riscv_build_loop.simps, simp add: 2 b4 Let_def,
        subst riscv_build_loop.simps, simp add: add_thunk_def emitter_new_def)
  then show ?thesis
    by (simp add: riscv_trampoline_new_def riscv_build_def)
qed

lemma rv_run_add:
  "rv_run (j + k) s = (case rv_run j s of None \<Rightarrow> None | Some t \<Rightarrow> rv_run k t)"
  by (induction j arbitrary: s) (auto split: option.splits)

lemma emit_three:
  assumes "emit \<lparr>thunks = [t1, t2, t3]\<rparr> base = Ok code"
  obtains c1 c2 c3 where "code = c1 @ c2 @ c3" "thunk_generate t1 base = Ok c1"
    and "thunk_generate t2 (base + of_nat (length c1)) = Ok c2"
    and "thunk_generate t3 (base + of_nat (length c1) + of_nat (length c2)) = Ok c3"
  using assms by (auto simp: emit_def split: if_splits)

lemma riscv_trampoline_runs:
  fixes o1 o3 :: "'u::len word rv_cpu"
  assumes "rv_xlen TYPE('u)" "\<not> bit target 0"
    and "rv_plain (fetch32 m target)" "rv_plain (fetch32 m (target + 4))"
    and "riscv_trampoline_new m target 8 = Ok tr"
    and "emit (tramp_emitter tr) base = Ok code" "code_at m' base code"
    and "rv_mem o1 = m" "rv_pc o1 = target" "rv_run 2 o1 = Some o3"
    and loads: "rv_loads_agree m' o1" "\<And>o2. rv_step o1 = Some o2 \<Longrightarrow> rv_loads_agree m' o2"
  shows "rv_pc o3 = target + of_nat (tramp_prolog_size tr)
    \<and> (\<exists>n v. rv_run n \<lparr>rv_pc = base, rv_regs = rv_regs o1, rv_mem = m'\<rparr>
          = Some \<lparr>rv_pc = rv_pc o3, rv_regs = (rv_regs o3)(6 := v), rv_mem = m'\<rparr>)"
proof -
  let ?i1 = "fetch32 m target" and ?i2 = "fetch32 m (target + 4)"
  let ?t1 = "straight_thunk target ?i1" and ?t2 = "straight_thunk (target + 4) ?i2"
  have tr: "tr = \<lparr>tramp_emitter = \<lparr>thunks = [?t1, ?t2, riscv_jmp_abs (target + 8)]\<rparr>, tramp_prolog_size = 8\<rparr>"
    using assms(5) riscv_trampoline_straight [OF assms(3,4)] by simp
  then obtain c1 c2 c3 where code: "code = c1 @ c2 @ c3" and c1: "thunk_generate ?t1 base = Ok c1"
    and c2: "thunk_generate ?t2 (base + of_nat (length c1)) = Ok c2"
    and c3: "thunk_generate (riscv_jmp_abs (target + 8)) (base + of_nat (length c1) + of_nat (length c2)) = Ok c3"
    using emit_three assms(6) by (metis trampoline.select_convs(1))
  have at: "code_at m' base c1" "code_at m' (base + of_nat (length c1)) c2"
    "code_at m' (base + of_nat (length c1) + of_nat (length c2)) c3"
    using assms(7) code by (simp_all add: add.assoc)
  have "rv_run (Suc (Suc 0)) o1 = Some o3" using assms(10) by (simp add: numeral_2_eq_2)
  then obtain o2 where step1: "rv_step o1 = Some o2" and step2: "rv_step o2 = Some o3"
    by (auto split: option.splits)
  let ?s = "\<lparr>rv_pc = base, rv_regs = rv_regs o1, rv_mem = m'\<rparr>"
  obtain k1 where "riscv_process (builder_new target 8) ?i1 (rv_pc o1) = Ok (?t1, k1, builder_new target 8)"
    using riscv_process_straight_thunk [OF assms(3)] assms(9) by blast
  from riscv_straight_step [OF assms(1,3) _ this, of ?s o2 c1] obtain n1 where
    run1: "rv_run n1 ?s = Some (?s\<lparr>rv_pc := base + of_nat (length c1), rv_regs := rv_regs o2\<rparr>)"
    and o2: "rv_pc o2 = target + 4" "rv_mem o2 = m"
    using assms(8,9) loads(1) step1 c1 at(1) by auto
  let ?u = "\<lparr>rv_pc = base + of_nat (length c1), rv_regs = rv_regs o2, rv_mem = m'\<rparr>"
  obtain k2 where "riscv_process (builder_new target 8) ?i2 (rv_pc o2) = Ok (?t2, k2, builder_new target 8)"
    using riscv_process_straight_thunk [OF assms(4)] o2 by metis
  from riscv_straight_step [OF assms(1,4) _ this, of ?u o3 c2] obtain n2 where
    run2: "rv_run n2 ?u = Some (?u\<lparr>rv_pc := rv_pc ?u + of_nat (length c2), rv_regs := rv_regs o3\<rparr>)"
    and o3: "rv_pc o3 = target + 8"
    using o2 loads(2) [OF step1] step2 c2 at(2) by (auto simp: add.assoc)
  let ?w = "\<lparr>rv_pc = base + of_nat (length c1) + of_nat (length c2), rv_regs = rv_regs o3, rv_mem = m'\<rparr>"
  have "\<not> bit (target + 8) 0" using assms(2) by (simp add: bit_0)
  then have "rv_runs_to m' (rv_pc ?w) (target + 8)"
    using assms(1) c3 at(3) by (intro riscv_jmp.jmp_lands) simp_all
  then obtain n3 v where run3: "rv_run n3 ?w = Some (?w\<lparr>rv_pc := target + 8, rv_regs := (rv_regs ?w)(6 := v)\<rparr>)"
    unfolding rv_runs_to_def by (auto dest: spec [of _ ?w])
  have "rv_run (n1 + (n2 + n3)) ?s = Some \<lparr>rv_pc = rv_pc o3, rv_regs = (rv_regs o3)(6 := v), rv_mem = m'\<rparr>"
    using run1 run2 run3 o3 by (simp add: rv_run_add)
  with o3 tr show ?thesis by auto
qed

text \<open>
  C10: calling the trampoline is calling the target before it was patched. If the first two
  instructions are straight-line code, a run of the trampoline from its first byte ends at the
  third instruction of the target with the registers the original prolog computes, \<^verbatim>\<open>t1\<close>
  apart.
\<close>

theorem riscv_trampoline_simulates:
  fixes o1 o3 :: "'u::len word rv_cpu"
  assumes "rv_xlen TYPE('u)" "\<not> bit target 0"
    and "rv_straight m m' (fetch32 m target)" "rv_straight m m' (fetch32 m (target + 4))"
    and "riscv_trampoline_new m target 8 = Ok tr"
    and "emit (tramp_emitter tr) base = Ok code" "code_at m' base code"
    and "rv_mem o1 = m" "rv_pc o1 = target" "rv_run 2 o1 = Some o3"
  shows "rv_pc o3 = target + of_nat (tramp_prolog_size tr)
    \<and> (\<exists>n v. rv_run n \<lparr>rv_pc = base, rv_regs = rv_regs o1, rv_mem = m'\<rparr>
          = Some \<lparr>rv_pc = rv_pc o3, rv_regs = (rv_regs o3)(6 := v), rv_mem = m'\<rparr>)"
proof (rule riscv_trampoline_runs [OF assms(1,2) _ _ assms(5-10)])
  show plain: "rv_plain (fetch32 m target)" "rv_plain (fetch32 m (target + 4))"
    using assms(3,4) rv_straight_plain by blast+
  show "rv_loads_agree m' o1" using assms(3,8,9) by (intro rv_straight_loads) simp
  fix o2 assume step: "rv_step o1 = Some o2"
  have "rv_mem o2 = m \<and> rv_pc o2 = target + 4"
    using rv_plain_step [OF _ step] plain(1) assms(8,9) by simp
  then show "rv_loads_agree m' o2" using assms(4) by (intro rv_straight_loads) simp
qed

text \<open>\<^verbatim>\<open>addi a0, x0, 1; addi a0, a0, 2\<close> at 0x1000, with its trampoline at 0x7000.\<close>

theorem riscv_trampoline_simulates_witness:
  "let m = write_bytes (\<lambda>_. 0) (0x1000 :: u64) (u32_le 0x00100513 @ u32_le 0x00250513);
       m' = write_bytes m 0x7000 (u32_le 0x00100513 @ u32_le 0x00250513 @ jmp_abs_bytes 0 (0x1008 :: u64))
   in \<exists>n v. rv_run n \<lparr>rv_pc = 0x7000, rv_regs = (\<lambda>_. 0), rv_mem = m'\<rparr>
        = Some \<lparr>rv_pc = 0x1008, rv_regs = (\<lambda>_. 0)(10 := 3, 6 := v), rv_mem = m'\<rparr>"
proof -
  let ?prolog = "u32_le 0x00100513 @ u32_le 0x00250513"
  let ?m = "write_bytes (\<lambda>_. 0) (0x1000 :: u64) ?prolog"
  let ?code = "u32_le 0x00100513 @ u32_le 0x00250513 @ jmp_abs_bytes 0 (0x1008 :: u64)"
  let ?m' = "write_bytes ?m 0x7000 ?code"
  let ?tr = "\<lparr>tramp_emitter = \<lparr>thunks = [VecThunk (u32_le 0x00100513), VecThunk (u32_le 0x00250513),
    riscv_jmp_abs (0x1008 :: u64)]\<rparr>, tramp_prolog_size = 8\<rparr>"
  let ?o1 = "\<lparr>rv_pc = 0x1000, rv_regs = (\<lambda>_. 0), rv_mem = ?m\<rparr> :: u64 rv_cpu"
  let ?o2 = "\<lparr>rv_pc = 0x1004, rv_regs = (\<lambda>_. 0)(10 := 1), rv_mem = ?m\<rparr> :: u64 rv_cpu"
  let ?o3 = "\<lparr>rv_pc = 0x1008, rv_regs = (\<lambda>_. 0)(10 := 3), rv_mem = ?m\<rparr> :: u64 rv_cpu"
  have "code_at ?m 0x1000 ?prolog" by (rule code_at_write_bytes) simp
  then have i: "fetch32 ?m 0x1000 = 0x00100513" "fetch32 ?m (0x1000 + 4) = 0x00250513"
    by (auto intro!: code_at_u32)
  have straight: "rv_straight ?m ?m' (fetch32 ?m 0x1000)" "rv_straight ?m ?m' (fetch32 ?m (0x1000 + 4))"
    unfolding i by (simp_all add: rv_straight_def)
  have tr: "riscv_trampoline_new ?m 0x1000 8 = Ok ?tr"
    using riscv_trampoline_straight [OF straight [THEN rv_straight_plain]] unfolding i by (simp add: straight_thunk_def)
  have emit: "emit (tramp_emitter ?tr) 0x7000 = Ok ?code"
    by (simp add: emit_def riscv_jmp_abs_def jmp_abs_rd_def)
  have placed: "code_at ?m' 0x7000 ?code" by (rule code_at_write_bytes) simp
  have "rv_step ?o1 = Some ?o2" "rv_step ?o2 = Some ?o3"
    using i by (simp_all add: rv_step_def Let_def rv_set_def rv_get_def rv_rd_def rv_rs1_def rv_funct3_def
        rv_imm_i_def)
  then have run: "rv_run 2 ?o1 = Some ?o3" by (simp add: numeral_2_eq_2)
  show ?thesis
    using riscv_trampoline_simulates [OF _ _ straight tr emit placed _ _ run]
    by (simp add: rv_xlen_def bit_0)
qed

section \<open>Branches inside the prolog\<close>

text \<open>
  An unconditional jump into the prolog ends the trampoline, which then consists of the
  copied jump alone: no jump back to the target follows, and the copy, relative as it is, leaves
  the trampoline for what lies behind it in memory.
\<close>

theorem riscv_prolog_jump_unterminated:
  fixes target :: "'u::len word"
  assumes "rv_xlen TYPE('u)" "fetch32 m target = i" "i AND 0x7F = 0x6F" "rv_rd i = 0" "isa_imm_j i = 4"
    and "target + 4 < target + 8" "target \<le> target + 4"
  shows "\<exists>tr. riscv_trampoline_new m target 8 = Ok tr \<and> tramp_prolog_size tr = 4
    \<and> emitter_len (tramp_emitter tr) = 4
    \<and> (\<forall>s base code. emit (tramp_emitter tr) base = Ok code \<and> code_at (rv_mem s) base code \<and> rv_pc s = base
          \<longrightarrow> rv_step s = Some (s\<lparr>rv_pc := base + of_nat (emitter_len (tramp_emitter tr))\<rparr>))"
proof -
  let ?b = "builder_new target 8"
  let ?tr = "\<lparr>tramp_emitter = \<lparr>thunks = [VecThunk (u32_le i)]\<rparr>, tramp_prolog_size = 4\<rparr>"
  have four: "scast (4 :: u32) = (4 :: 'u word)" by (simp only: scast_eq) simp
  have process: "riscv_process ?b i target = Ok (VecThunk (u32_le i), 4, track_branch (target + 4) (?b\<lparr>finished := True\<rparr>))"
    using assms(3-7) and_3_of_and_7F [OF assms(3)]
    by (simp add: riscv_process_def Let_def rv_rd_def decode_j_type_isa four in_range_def prolog_range_def)
  have "riscv_build_loop m ?b emitter_new =
      Ok ((track_branch (target + 4) (?b\<lparr>finished := True\<rparr>))\<lparr>total_bytes := 4\<rparr>, \<lparr>thunks = [VecThunk (u32_le i)]\<rparr>)"
    by (subst riscv_build_loop.simps, simp add: assms(2) process Let_def,
        subst riscv_build_loop.simps, simp add: add_thunk_def emitter_new_def)
  then have "riscv_trampoline_new m target 8 = Ok ?tr"
    by (simp add: riscv_trampoline_new_def riscv_build_def)
  moreover have "rv_step s = Some (s\<lparr>rv_pc := base + 4\<rparr>)"
    if "code_at (rv_mem s) base (u32_le i)" "rv_pc s = base" for s :: "'u word rv_cpu" and base
    using rv_step_jal [of s i] code_at_u32 [OF that(1)] that(2) assms(3-5) by (simp add: rv_set_def four)
  ultimately show ?thesis
    by (intro exI [of _ ?tr]) (auto simp: emit_def emitter_len_eq)
qed

theorem riscv_prolog_jump_unterminated_witness:
  "\<exists>tr. riscv_trampoline_new (write_bytes (\<lambda>_. 0) (0x1000 :: u64) (u32_le 0x0040006F)) 0x1000 8 = Ok tr
    \<and> tramp_prolog_size tr = 4 \<and> emitter_len (tramp_emitter tr) = 4"
proof -
  let ?m = "write_bytes (\<lambda>_. 0) (0x1000 :: u64) (u32_le 0x0040006F)"
  have fetch: "fetch32 ?m 0x1000 = 0x0040006F"
    by (rule code_at_u32, rule code_at_write_bytes) simp
  have "isa_imm_j 0x0040006F = 4"
    unfolding isa_imm_j_def by (rule u32_eqI) (simp add: upt_rec; elim disjE; simp)
  then show ?thesis
    using riscv_prolog_jump_unterminated [OF _ fetch] by (fastforce simp: rv_xlen_def rv_rd_def)
qed

text \<open>
  C32: a backward branch to the start of the prolog is copied even when the instruction before
  it has grown. On \<^verbatim>\<open>riscv64\<close>, behind an \<^verbatim>\<open>AUIPC\<close>, the copy that is taken arrives at the last
  instruction of the expansion instead of its start.
\<close>

theorem riscv_backward_branch_misplaced:
  fixes target :: u64
  assumes "fetch32 m target = i" "i AND 0x7F = 0x17" "fetch32 m (target + 4) = j" "j AND 0x7F = 0x63"
    and "isa_imm_b j = - 4" "target < target + 8" "rv_funct3 j AND 6 \<noteq> 2"
  shows "\<exists>tr. riscv_trampoline_new m target 8 = Ok tr
    \<and> (\<forall>s base code. emit (tramp_emitter tr) base = Ok code \<and> code_at (rv_mem s) base code
          \<and> rv_pc s = base + 16 \<and> rv_cond (rv_funct3 j) (rv_get s (rv_rs1 j)) (rv_get s (rv_rs2 j))
          \<longrightarrow> rv_step s = Some (s\<lparr>rv_pc := base + 12\<rparr>))"
proof -
  let ?b = "builder_new target 8"
  let ?t = "li_abs (ucast (rv_rd i)) (target + scast (rv_imm_u i))"
  let ?tr = "\<lparr>tramp_emitter = \<lparr>thunks = [?t, VecThunk (u32_le j), riscv_jmp_abs (target + 8)]\<rparr>,
    tramp_prolog_size = 8\<rparr>"
  have neg: "scast (- 4 :: u32) = (- 4 :: u64)" by (simp only: scast_eq) simp
  have p1: "riscv_process ?b i target = Ok (?t, 16, ?b)"
    using assms(2) and_3_of_and_7F [OF assms(2)]
    by (simp add: riscv_process_def Let_def rv_rd_def rv_imm_u_def li_abs_def target_riscv64_def riscv_literal_def)
  have p2: "riscv_process (?b\<lparr>total_bytes := 4\<rparr>) j (target + 4) =
      Ok (VecThunk (u32_le j), 4, ?b\<lparr>total_bytes := 4, branch_address := Some target\<rparr>)"
    using assms(4-6) and_3_of_and_7F [OF assms(4)]
    by (simp add: riscv_process_def Let_def decode_b_type_isa neg in_range_def prolog_range_def track_branch_def)
  have "riscv_build_loop m ?b emitter_new = Ok (?b\<lparr>total_bytes := 8, branch_address := Some target,
      finished := True\<rparr>, tramp_emitter ?tr)"
    by (subst riscv_build_loop.simps, simp add: assms(1) p1 Let_def,
        subst riscv_build_loop.simps, simp add: assms(3) p2 Let_def,
        subst riscv_build_loop.simps, simp add: add_thunk_def emitter_new_def)
  then have tr: "riscv_trampoline_new m target 8 = Ok ?tr"
    by (simp add: riscv_trampoline_new_def riscv_build_def)
  have "rv_step s = Some (s\<lparr>rv_pc := base + 12\<rparr>)"
    if emit: "emit (tramp_emitter ?tr) base = Ok code" "code_at (rv_mem s) base code"
      and s: "rv_pc s = base + 16" "rv_cond (rv_funct3 j) (rv_get s (rv_rs1 j)) (rv_get s (rv_rs2 j))"
    for s :: "u64 rv_cpu" and base code
  proof -
    have "thunks (tramp_emitter ?tr) = [?t] @ VecThunk (u32_le j) # [riscv_jmp_abs (target + 8)]" by simp
    from emit_placement [OF this emit] have "code_at (rv_mem s) (base + 16) (u32_le j)"
      by (simp add: li_abs_def Let_def target_riscv64_def riscv_literal_def)
    then have "fetch32 (rv_mem s) (rv_pc s) = j" using s(1) by (auto intro: code_at_u32)
    from rv_step_branch [OF this assms(4,7)] show ?thesis
      using s assms(5) by (simp add: neg)
  qed
  with tr show ?thesis by blast
qed

text \<open>\<^verbatim>\<open>auipc a0, 0; bne a0, a1, -4\<close>\<close>

theorem riscv_backward_branch_misplaced_witness:
  "\<exists>tr. riscv_trampoline_new (write_bytes (\<lambda>_. 0) (0x1000 :: u64) (u32_le 0x00000517 @ u32_le 0xFEB51EE3))
      0x1000 8 = Ok tr
    \<and> (\<forall>s base code. emit (tramp_emitter tr) base = Ok code \<and> code_at (rv_mem s) base code
          \<and> rv_pc s = base + 16 \<and> rv_cond 1 (rv_get s 10) (rv_get s 11)
          \<longrightarrow> rv_step s = Some (s\<lparr>rv_pc := base + 12\<rparr>))"
proof -
  let ?m = "write_bytes (\<lambda>_. 0) (0x1000 :: u64) (u32_le 0x00000517 @ u32_le 0xFEB51EE3)"
  have "code_at ?m 0x1000 (u32_le 0x00000517 @ u32_le 0xFEB51EE3)" by (rule code_at_write_bytes) simp
  then have fetch: "fetch32 ?m 0x1000 = 0x00000517" "fetch32 ?m (0x1000 + 4) = 0xFEB51EE3"
    by (auto intro!: code_at_u32)
  have imm: "isa_imm_b 0xFEB51EE3 = - 4"
    unfolding isa_imm_b_def by (rule u32_eqI) (simp add: upt_rec; elim disjE; simp)
  have fields: "rv_funct3 0xFEB51EE3 = 1" "rv_rs1 0xFEB51EE3 = 10" "rv_rs2 0xFEB51EE3 = 11"
    by (simp_all add: rv_funct3_def rv_rs1_def rv_rs2_def)
  show ?thesis
    using riscv_backward_branch_misplaced [OF fetch(1) _ fetch(2) _ imm] by (simp add: fields)
qed

end
