(* ===== verification/Arm_Thunk.thy ===== *)
theory Arm_Thunk
  imports Arch_Common
begin

text \<open>
  \<^verbatim>\<open>src/arch/arm/thunk/mod.rs\<close> and \<^verbatim>\<open>src/arch/arm/meta.rs\<close>: the absolute jump of 32-bit ARM, and
  a reference processor for ARM state (conditions, branches, moves, additions and loads).
\<close>

section \<open>Thunks and meta data\<close>

definition arm_jmp_abs :: "u32 \<Rightarrow> u32 thunk" where
  "arm_jmp_abs dest = VecThunk (u32_le 0xE51FF004 @ u32_le dest)"

definition arm_nop :: "u32 thunk" where
  "arm_nop = VecThunk (u32_le 0xE320F000)"

definition arm_DETOUR_RANGE :: int where
  "arm_DETOUR_RANGE = 0x7FFFFFFF"

definition arm_prolog_margin :: "u32 \<Rightarrow> nat" where
  "arm_prolog_margin target = 8"

definition arm_relay_builder :: "u32 \<Rightarrow> u32 \<Rightarrow> u32 code_emitter option res" where
  "arm_relay_builder target detour = Ok None"

section \<open>A reference processor\<close>

record arm_flags =
  arm_NF :: bool
  arm_ZF :: bool
  arm_CF :: bool
  arm_VF :: bool

record arm_cpu =
  arm_pc :: u32
  arm_regs :: "u32 \<Rightarrow> u32"
  arm_nzcv :: arm_flags
  arm_mem :: "u32 \<Rightarrow> u8"

text \<open>\<^verbatim>\<open>ConditionPassed\<close>; the condition 15 is another instruction space.\<close>

definition arm_cond :: "arm_flags \<Rightarrow> u32 \<Rightarrow> bool" where
  "arm_cond f c =
     (let k = drop_bit 1 c;
          r = (if k = 0 then arm_ZF f else if k = 1 then arm_CF f else if k = 2 then arm_NF f
               else if k = 3 then arm_VF f else if k = 4 then arm_CF f \<and> \<not> arm_ZF f
               else if k = 5 then arm_NF f = arm_VF f
               else if k = 6 then arm_NF f = arm_VF f \<and> \<not> arm_ZF f else True)
      in if bit c 0 then \<not> r else r)"

definition arm_imm24 :: "u32 \<Rightarrow> u32" where
  "arm_imm24 i = scast (ucast (push_bit 2 i) :: 26 word)"

definition arm_imm8 :: "u32 \<Rightarrow> u32" where
  "arm_imm8 i = word_rotr (2 * unat (drop_bit 8 i AND 0xF)) (i AND 0xFF)"

text \<open>Register 15 reads as the address of the instruction plus 8.\<close>

definition arm_get :: "arm_cpu \<Rightarrow> u32 \<Rightarrow> u32" where
  "arm_get s r = (if r = 15 then arm_pc s + 8 else arm_regs s r)"

text \<open>An unaligned address is Thumb code or unpredictable: outside of this processor.\<close>

definition arm_goto :: "u32 \<Rightarrow> arm_cpu \<Rightarrow> arm_cpu option" where
  "arm_goto a s = (if a AND 3 = 0 then Some (s\<lparr>arm_pc := a\<rparr>) else None)"

definition arm_set :: "u32 \<Rightarrow> u32 \<Rightarrow> arm_cpu \<Rightarrow> arm_cpu option" where
  "arm_set r v s =
     (if r = 15 then arm_goto v s
      else Some (s\<lparr>arm_pc := arm_pc s + 4, arm_regs := (arm_regs s)(r := v)\<rparr>))"

definition arm_rd :: "u32 \<Rightarrow> u32" where "arm_rd i = drop_bit 12 i AND 0xF"
definition arm_rn :: "u32 \<Rightarrow> u32" where "arm_rn i = drop_bit 16 i AND 0xF"
definition arm_rm :: "u32 \<Rightarrow> u32" where "arm_rm i = i AND 0xF"

definition arm_exec :: "u32 \<Rightarrow> arm_cpu \<Rightarrow> arm_cpu option" where
  "arm_exec i s =
     (if i AND 0x0F000000 = 0x0A000000 then arm_goto (arm_pc s + 8 + arm_imm24 i) s
      else if i AND 0x0F000000 = 0x0B000000 then
        arm_goto (arm_pc s + 8 + arm_imm24 i) (s\<lparr>arm_regs := (arm_regs s)(14 := arm_pc s + 4)\<rparr>)
      else if i AND 0x0FFFFFF0 = 0x012FFF10 then arm_goto (arm_get s (arm_rm i)) s
      else if i AND 0x0FFF0FF0 = 0x01A00000 then arm_set (arm_rd i) (arm_get s (arm_rm i)) s
      else if i AND 0x0FFF0000 = 0x03A00000 then arm_set (arm_rd i) (arm_imm8 i) s
      else if i AND 0x0FF00000 = 0x02800000 then arm_set (arm_rd i) (arm_get s (arm_rn i) + arm_imm8 i) s
      else if i AND 0x0FF00000 = 0x02400000 then arm_set (arm_rd i) (arm_get s (arm_rn i) - arm_imm8 i) s
      else if i AND 0x0F700000 = 0x05100000 then
        arm_set (arm_rd i) (fetch32 (arm_mem s)
          (if bit i 23 then arm_get s (arm_rn i) + (i AND 0xFFF) else arm_get s (arm_rn i) - (i AND 0xFFF))) s
      else if i AND 0x0FFFFFFF = 0x0320F000 then Some (s\<lparr>arm_pc := arm_pc s + 4\<rparr>)
      else None)"

definition arm_step :: "arm_cpu \<Rightarrow> arm_cpu option" where
  "arm_step s =
     (let i = fetch32 (arm_mem s) (arm_pc s); cond = drop_bit 28 i in
      if arm_pc s AND 3 \<noteq> 0 \<or> cond = 15 then None
      else if \<not> arm_cond (arm_nzcv s) cond then Some (s\<lparr>arm_pc := arm_pc s + 4\<rparr>)
      else arm_exec i s)"

primrec arm_run :: "nat \<Rightarrow> arm_cpu \<Rightarrow> arm_cpu option" where
  "arm_run 0 s = Some s"
| "arm_run (Suc n) s = (case arm_step s of None \<Rightarrow> None | Some t \<Rightarrow> arm_run n t)"

text \<open>Control arrives at \<open>dest\<close> with nothing else changed.\<close>

definition arm_runs_to :: "32 mem \<Rightarrow> u32 \<Rightarrow> u32 \<Rightarrow> bool" where
  "arm_runs_to m pc dest \<longleftrightarrow>
     (\<forall>s. arm_mem s = m \<and> arm_pc s = pc \<longrightarrow> (\<exists>n. arm_run n s = Some (s\<lparr>arm_pc := dest\<rparr>)))"

section \<open>Running the jump\<close>

lemma arm_run_add:
  "arm_run (j + k) s = (case arm_run j s of None \<Rightarrow> None | Some t \<Rightarrow> arm_run k t)"
  by (induction j arbitrary: s) (auto split: option.splits)

lemma arm_runs_to_trans:
  assumes "arm_runs_to m a b" "arm_runs_to m b c"
  shows "arm_runs_to m a c"
  unfolding arm_runs_to_def
proof (intro allI impI)
  fix s :: arm_cpu
  assume s: "arm_mem s = m \<and> arm_pc s = a"
  with assms(1) obtain j where j: "arm_run j s = Some (s\<lparr>arm_pc := b\<rparr>)" by (auto simp: arm_runs_to_def)
  let ?t = "s\<lparr>arm_pc := b\<rparr>"
  obtain k where "arm_run k ?t = Some (?t\<lparr>arm_pc := c\<rparr>)"
    using assms(2) s unfolding arm_runs_to_def by (auto dest: spec [of _ ?t])
  with j have "arm_run (j + k) s = Some (s\<lparr>arm_pc := c\<rparr>)" by (simp add: arm_run_add)
  then show "\<exists>n. arm_run n s = Some (s\<lparr>arm_pc := c\<rparr>)" ..
qed

text \<open>\<^verbatim>\<open>LDR PC, [PC, #-4]\<close> reads the word behind it.\<close>

lemma arm_step_jmp:
  assumes "fetch32 (arm_mem s) (arm_pc s) = 0xE51FF004" "fetch32 (arm_mem s) (arm_pc s + 4) = dest"
    and "arm_pc s AND 3 = 0" "dest AND 3 = 0"
  shows "arm_step s = Some (s\<lparr>arm_pc := dest\<rparr>)"
  using assms assms(2) [unfolded add.commute [of _ 4]]
  by (simp add: arm_step_def Let_def arm_cond_def arm_exec_def arm_get_def arm_rn_def arm_rd_def arm_set_def arm_goto_def bit_0)

interpretation arm_jmp: jump_thunk arm_jmp_abs 8 "\<lambda>src dest. src AND 3 = 0 \<and> dest AND 3 = 0" arm_runs_to
proof
  fix dest src code m
  show "thunk_len (arm_jmp_abs dest) = 8" by (simp add: arm_jmp_abs_def)
  show "honest (arm_jmp_abs dest)" by (simp add: arm_jmp_abs_def)
  show "\<exists>code. thunk_generate (arm_jmp_abs dest) src = Ok code" by (simp add: arm_jmp_abs_def)
  assume "src AND 3 = 0 \<and> dest AND 3 = 0" "thunk_generate (arm_jmp_abs dest) src = Ok code" "code_at m src code"
  then have at: "code_at m src (u32_le 0xE51FF004 @ u32_le dest)" "src AND 3 = 0" "dest AND 3 = 0"
    by (auto simp: arm_jmp_abs_def)
  then have fetch: "fetch32 m src = 0xE51FF004" "fetch32 m (src + 4) = dest"
    by (auto intro!: code_at_u32)
  show "arm_runs_to m src dest"
    unfolding arm_runs_to_def
  proof (intro allI impI)
    fix s :: arm_cpu
    assume "arm_mem s = m \<and> arm_pc s = src"
    then have "arm_run (Suc 0) s = Some (s\<lparr>arm_pc := dest\<rparr>)"
      using arm_step_jmp [of s dest] fetch at by simp
    then show "\<exists>n. arm_run n s = Some (s\<lparr>arm_pc := dest\<rparr>)" by blast
  qed
qed

end
