(* ===== verification/Arm_Patcher.thy ===== *)
theory Arm_Patcher
  imports Arm_Thunk
begin

text \<open>\<^verbatim>\<open>src/arch/arm/patcher.rs\<close>: the eight-byte patch, an absolute jump with its literal.\<close>

section \<open>The patch\<close>

definition arm_is_code_padding :: "u8 list \<Rightarrow> bool" where
  "arm_is_code_padding buf = list_all (\<lambda>chunk.
     case chunk of
       [b0, b1, b2, b3] \<Rightarrow> (let w = u32_of_le b0 b1 b2 b3 in w = 0xE320F000 \<or> w = 0xE1A00000 \<or> w = 0)
     | _ \<Rightarrow> list_all (\<lambda>b. b = 0x00) chunk) (chunks4 buf)"

definition arm_patch_area :: "32 mem \<Rightarrow> u32 \<Rightarrow> nat \<Rightarrow> (u32 \<times> nat) res" where
  "arm_patch_area m target prolog_size =
     (let JUMP_SIZE = 8 in
      if prolog_size \<ge> JUMP_SIZE then Ok (target, JUMP_SIZE)
      else
        let extra = read_bytes m (target + of_nat prolog_size) (JUMP_SIZE - prolog_size) in
        if arm_is_code_padding extra then Ok (target, JUMP_SIZE) else Err NoPatchArea)"

definition arm_hook_bytes :: "u32 \<Rightarrow> u32 \<Rightarrow> u8 list res" where
  "arm_hook_bytes patch_address detour = emit (add_thunk emitter_new (arm_jmp_abs detour)) patch_address"

definition arm_patcher_new :: "32 mem \<Rightarrow> u32 \<Rightarrow> u32 \<Rightarrow> nat \<Rightarrow> u32 patcher res" where
  "arm_patcher_new m target detour prolog_size =
     res_bind (arm_patch_area m target prolog_size) (\<lambda>(patch_address, len).
       res_bind (arm_hook_bytes patch_address detour) (\<lambda>code.
         Ok \<lparr>area_ptr = patch_address, area_len = len,
             original_prolog = read_bytes m patch_address len, detour_prolog = code\<rparr>))"

section \<open>The patcher contract\<close>

lemma arm_patch_area_Ok:
  "arm_patch_area m target n = Ok (ptr, len) \<longleftrightarrow>
     ptr = target \<and> len = 8
     \<and> (8 \<le> n \<or> arm_is_code_padding (read_bytes m (target + of_nat n) (8 - n)))"
  by (auto simp: arm_patch_area_def Let_def)

lemma arm_hook_bytes_eq: "arm_hook_bytes src detour = Ok (u32_le 0xE51FF004 @ u32_le detour)"
  unfolding arm_hook_bytes_def arm_jmp.emit_single by (simp add: arm_jmp_abs_def)

lemma arm_patcher_new_Ok:
  "arm_patcher_new m target detour n = Ok p \<longleftrightarrow>
     arm_patch_area m target n = Ok (area_ptr p, area_len p)
       \<and> detour_prolog p = u32_le 0xE51FF004 @ u32_le detour
       \<and> original_prolog p = read_bytes m (area_ptr p) (area_len p)"
  by (cases p) (auto simp: arm_patcher_new_def arm_hook_bytes_eq)

definition arm_aligned :: "u32 \<Rightarrow> u32 \<Rightarrow> bool" where
  "arm_aligned target detour \<longleftrightarrow> target AND 3 = 0 \<and> detour AND 3 = 0"

text \<open>Every aligned detour is near: the jump is absolute.\<close>

interpretation arm_patcher: patcher_module arm_patcher_new arm_runs_to "\<lambda>p. arm_aligned"
proof
  fix m target detour n p
  assume new: "arm_patcher_new m target detour n = Ok p"
  then show orig: "original_prolog p = read_bytes m (area_ptr p) (area_len p)"
    by (simp add: arm_patcher_new_Ok)
  then show "patcher_wf p"
    using new by (simp add: arm_patcher_new_Ok arm_patch_area_Ok patcher_wf_def)
next
  fix m target detour n p
  assume "arm_patcher_new m target detour n = Ok p"
  then show "area_len p \<le> 2 ^ LENGTH(32)"
    by (simp add: arm_patcher_new_Ok arm_patch_area_Ok)
next
  fix m m' target detour n p
  assume "arm_patcher_new m target detour n = Ok p" "arm_aligned target detour"
    and "code_at m' (area_ptr p) (detour_prolog p)"
  then show "arm_runs_to m' target detour"
    using arm_jmp.jmp_lands [of target detour "u32_le 0xE51FF004 @ u32_le detour" m']
    by (simp add: arm_patcher_new_Ok arm_patch_area_Ok arm_aligned_def arm_jmp_abs_def)
qed

end
