(* ===== verification/Arm_Trampoline.thy ===== *)
theory Arm_Trampoline
  imports Arm_Patcher
begin

text \<open>
  \<^verbatim>\<open>src/arch/arm/trampoline/mod.rs\<close>: classification and relocation of the instructions of the
  prolog, in ARM state. Thumb functions are refused.
\<close>

section \<open>Processing one instruction\<close>

definition arm_process :: "u32 builder \<Rightarrow> u32 \<Rightarrow> u32 \<Rightarrow> (u32 thunk \<times> u32 builder) res" where
  "arm_process b instr pc =
     (let prolog = prolog_range b; copied = VecThunk (u32_le instr); cond = drop_bit 28 instr in
      if cond \<noteq> 0xF \<and> instr AND 0x0E000000 = 0x0A000000 then
        (let imm24 = sign_extend_bits (instr AND 0x00FFFFFF) 24;
             dest = pc + 8 + push_bit 2 imm24;
             is_bl = (instr AND 0x01000000 \<noteq> 0) in
         if in_range prolog dest then Ok (copied, track_branch dest b)
         else if is_bl then Err UnsupportedInstruction
         else Ok (arm_jmp_abs dest, b))
      else if cond \<noteq> 0xF \<and> instr AND 0x0FFFFFF0 = 0x012FFF10 then
        Ok (copied, b\<lparr>finished := \<not> is_in_branch b pc\<rparr>)
      else if cond \<noteq> 0xF \<and> instr AND 0x0FEFF000 = 0x01A0F000 then
        Ok (copied, b\<lparr>finished := \<not> is_in_branch b pc\<rparr>)
      else if cond \<noteq> 0xF \<and> instr AND 0x0E108000 = 0x08108000 then
        Ok (copied, b\<lparr>finished := \<not> is_in_branch b pc\<rparr>)
      else if cond \<noteq> 0xF \<and> instr AND 0x0F7F0000 = 0x051F0000 \<and> drop_bit 12 instr AND 0xF \<noteq> 15 then
        Err UnsupportedInstruction
      else if cond \<noteq> 0xF \<and> instr AND 0x0C000000 = 0 \<and> drop_bit 16 instr AND 0xF = 15 then
        Err UnsupportedInstruction
      else Ok (copied, b))"

lemma arm_process_frame:
  "arm_process b instr pc = Ok (t, b') \<Longrightarrow>
     b_target b' = b_target b \<and> margin b' = margin b \<and> total_bytes b' = total_bytes b"
  by (auto simp: arm_process_def Let_def split: if_splits)

section \<open>Building the trampoline\<close>

function arm_build_loop ::
  "32 mem \<Rightarrow> u32 builder \<Rightarrow> u32 code_emitter \<Rightarrow> (u32 builder \<times> u32 code_emitter) res"
where
  "arm_build_loop m b emitter =
     (if finished b then Ok (b, emitter)
      else
        let instr_addr = b_target b + of_nat (total_bytes b);
            raw = fetch32 m instr_addr in
        res_bind (arm_process b raw instr_addr) (\<lambda>(thunk, b).
          let emitter = add_thunk emitter thunk;
              b = b\<lparr>total_bytes := total_bytes b + 4\<rparr> in
          if total_bytes b \<ge> margin b \<and> \<not> finished b
          then arm_build_loop m (b\<lparr>finished := True\<rparr>)
                 (add_thunk emitter (arm_jmp_abs (b_target b + of_nat (total_bytes b))))
          else arm_build_loop m b emitter))"
  by pat_completeness auto
termination
  by (relation "measure (\<lambda>(m, b, emitter). if finished b then 0 else Suc (margin b - total_bytes b))")
     (auto dest!: arm_process_frame)

declare arm_build_loop.simps [simp del]

definition arm_build :: "32 mem \<Rightarrow> u32 builder \<Rightarrow> u32 trampoline res" where
  "arm_build m b =
     res_bind (arm_build_loop m b emitter_new) (\<lambda>(b, emitter).
       Ok \<lparr>tramp_emitter = emitter, tramp_prolog_size = total_bytes b\<rparr>)"

definition arm_trampoline_new :: "32 mem \<Rightarrow> u32 \<Rightarrow> nat \<Rightarrow> u32 trampoline res" where
  "arm_trampoline_new m target k =
     (if target AND 1 \<noteq> 0 then Err UnsupportedInstruction else arm_build m (builder_new target k))"

section \<open>Straight-line prologs\<close>

text \<open>Moves, additions and subtractions that do not involve the program counter, and \<^verbatim>\<open>NOP\<close>.\<close>

definition arm_straight :: "u32 \<Rightarrow> bool" where
  "arm_straight i \<longleftrightarrow> drop_bit 28 i \<noteq> 15 \<and>
     (i AND 0x0FFF0FF0 = 0x01A00000 \<and> arm_rd i \<noteq> 15 \<and> arm_rm i \<noteq> 15
      \<or> i AND 0x0FFF0000 = 0x03A00000 \<and> arm_rd i \<noteq> 15
      \<or> i AND 0x0FF00000 = 0x02800000 \<and> arm_rd i \<noteq> 15 \<and> arm_rn i \<noteq> 15
      \<or> i AND 0x0FF00000 = 0x02400000 \<and> arm_rd i \<noteq> 15 \<and> arm_rn i \<noteq> 15
      \<or> i AND 0x0FFFFFFF = 0x0320F000)"

lemma arm_rn_of_mask:
  assumes "i AND m = v" "m AND 0x000F0000 = 0x000F0000"
  shows "arm_rn i = arm_rn v"
proof -
  have "i AND 0x000F0000 = v AND 0x000F0000" by (rule mask_agree [OF assms])
  moreover have eq: "arm_rn j = drop_bit 16 (j AND 0x000F0000)" for j
    by (simp add: arm_rn_def drop_bit_and)
  ultimately show ?thesis unfolding eq by simp
qed

lemma arm_rd_of_mask:
  assumes "i AND m = v" "m AND 0x0000F000 = 0x0000F000"
  shows "arm_rd i = arm_rd v"
proof -
  have "i AND 0x0000F000 = v AND 0x0000F000" by (rule mask_agree [OF assms])
  moreover have eq: "arm_rd j = drop_bit 12 (j AND 0x0000F000)" for j
    by (simp add: arm_rd_def drop_bit_and)
  ultimately show ?thesis unfolding eq by simp
qed

lemma arm_process_straight:
  assumes "arm_straight i"
  shows "arm_process b i pc = Ok (VecThunk (u32_le i), b)"
proof -
  have mov_pc: "i AND 0x0FEFF000 \<noteq> 0x01A0F000" if "arm_rd i \<noteq> 15"
    using arm_rd_of_mask [of i "0x0FEFF000" "0x01A0F000"] that by (auto simp: arm_rd_def)
  consider (reg) "i AND 0x0FFF0FF0 = 0x01A00000" "arm_rd i \<noteq> 15" | (imm) "i AND 0x0FFF0000 = 0x03A00000" "arm_rd i \<noteq> 15"
    | (add) "i AND 0x0FF00000 = 0x02800000" "arm_rd i \<noteq> 15" "arm_rn i \<noteq> 15"
    | (sub) "i AND 0x0FF00000 = 0x02400000" "arm_rd i \<noteq> 15" "arm_rn i \<noteq> 15"
    | (nop) "i AND 0x0FFFFFFF = 0x0320F000"
    using assms by (auto simp: arm_straight_def)
  then show ?thesis
  proof cases
    case reg
    then have "arm_rn i = 0" using arm_rn_of_mask [OF reg(1)] by (simp add: arm_rn_def)
    then show ?thesis
      using mov_pc reg by (simp add: arm_process_def Let_def mask_differ [OF reg(1)] arm_rn_def)
  next
    case imm
    then have "arm_rn i = 0" using arm_rn_of_mask [OF imm(1)] by (simp add: arm_rn_def)
    then show ?thesis
      using mov_pc imm by (simp add: arm_process_def Let_def mask_differ [OF imm(1)] arm_rn_def)
  next
    case add
    then show ?thesis
      using mov_pc by (simp add: arm_process_def Let_def mask_differ [OF add(1)] arm_rn_def)
  next
    case sub
    then show ?thesis
      using mov_pc by (simp add: arm_process_def Let_def mask_differ [OF sub(1)] arm_rn_def)
  next
    case nop
    then have "arm_rn i = 0" using arm_rn_of_mask [OF nop] by (simp add: arm_rn_def)
    then show ?thesis
      by (simp add: arm_process_def Let_def mask_differ [OF nop] arm_rn_def)
  qed
qed

text \<open>Such an instruction does the same wherever it stands.\<close>

lemma arm_straight_step:
  assumes "arm_straight i" "fetch32 (arm_mem s) (arm_pc s) = i" "fetch32 (arm_mem t) (arm_pc t) = i"
    and "arm_regs t = arm_regs s" "arm_nzcv t = arm_nzcv s" "arm_pc t AND 3 = 0"
    and "arm_step s = Some s'"
  shows "arm_step t = Some (t\<lparr>arm_pc := arm_pc t + 4, arm_regs := arm_regs s'\<rparr>)
    \<and> s' = s\<lparr>arm_pc := arm_pc s + 4, arm_regs := arm_regs s'\<rparr>"
proof -
  have get: "arm_get t r = arm_get s r" if "r \<noteq> 15" for r using assms(4) that by (simp add: arm_get_def)
  have exec: "arm_exec i t = Some (t\<lparr>arm_pc := arm_pc t + 4, arm_regs := arm_regs u\<rparr>)
      \<and> u = s\<lparr>arm_pc := arm_pc s + 4, arm_regs := arm_regs u\<rparr>" if "arm_exec i s = Some u" for u
  proof -
    consider (reg) "i AND 0x0FFF0FF0 = 0x01A00000" "arm_rd i \<noteq> 15" "arm_rm i \<noteq> 15"
      | (imm) "i AND 0x0FFF0000 = 0x03A00000" "arm_rd i \<noteq> 15"
      | (add) "i AND 0x0FF00000 = 0x02800000" "arm_rd i \<noteq> 15" "arm_rn i \<noteq> 15"
      | (sub) "i AND 0x0FF00000 = 0x02400000" "arm_rd i \<noteq> 15" "arm_rn i \<noteq> 15"
      | (nop) "i AND 0x0FFFFFFF = 0x0320F000"
      using assms(1) by (auto simp: arm_straight_def)
    then show ?thesis
    proof cases
      case reg
      then show ?thesis using that assms(4) get
        by (auto simp: arm_exec_def mask_differ [OF reg(1)] arm_set_def)
    next
      case imm
      then show ?thesis using that assms(4)
        by (auto simp: arm_exec_def mask_differ [OF imm(1)] arm_set_def)
    next
      case add
      then show ?thesis using that assms(4) get
        by (auto simp: arm_exec_def mask_differ [OF add(1)] arm_set_def)
    next
      case sub
      then show ?thesis using that assms(4) get
        by (auto simp: arm_exec_def mask_differ [OF sub(1)] arm_set_def)
    next
      case nop
      then show ?thesis using that assms(4)
        by (auto simp: arm_exec_def mask_differ [OF nop])
    qed
  qed
  show ?thesis
  proof (cases "arm_cond (arm_nzcv s) (drop_bit 28 i)")
    case True
    then have "arm_exec i s = Some s'"
      using assms(2,7) by (simp add: arm_step_def Let_def split: if_splits)
    from exec [OF this] show ?thesis
      using True assms(1,3,5,6) by (simp add: arm_step_def Let_def arm_straight_def)
  next
    case False
    then have "s' = s\<lparr>arm_pc := arm_pc s + 4\<rparr>"
      using assms(2,7) by (simp add: arm_step_def Let_def split: if_splits)
    then show ?thesis
      using False assms(1,3,4,5,6) by (simp add: arm_step_def Let_def arm_straight_def)
  qed
qed

lemma arm_trampoline_straight:
  assumes "arm_straight (fetch32 m target)" "arm_straight (fetch32 m (target + 4))" "target AND 1 = 0"
  shows "arm_trampoline_new m target 8 = Ok
    \<lparr>tramp_emitter = \<lparr>thunks = [VecThunk (u32_le (fetch32 m target)),
        VecThunk (u32_le (fetch32 m (target + 4))), arm_jmp_abs (target + 8)]\<rparr>, tramp_prolog_size = 8\<rparr>"
proof -
  let ?b = "builder_new target 8"
  have "arm_build_loop m ?b emitter_new = Ok (?b\<lparr>total_bytes := 8, finished := True\<rparr>,
      \<lparr>thunks = [VecThunk (u32_le (fetch32 m target)),
        VecThunk (u32_le (fetch32 m (target + 4))), arm_jmp_abs (target + 8)]\<rparr>)"
    by (subst arm_build_loop.simps, simp add: arm_process_straight [OF assms(1)] Let_def,
        subst arm_build_loop.simps, simp add: arm_process_straight [OF assms(2)] Let_def,
        subst arm_build_loop.simps, simp add: add_thunk_def emitter_new_def)
  then show ?thesis using assms(3) by (simp add: arm_trampoline_new_def arm_build_def)
qed

lemma and_3_even: "(target :: u32) AND 3 = 0 \<Longrightarrow> target AND 1 = 0"
proof -
  assume "target AND 3 = 0"
  then have "(target AND 3) AND 1 = 0" by simp
  then show ?thesis by (simp add: and.assoc)
qed

lemma and_3_plus:
  assumes "(a :: u32) AND 3 = 0" "k AND 3 = 0"
  shows "(a + k) AND 3 = 0"
proof -
  have eq: "(x :: u32) AND 3 = take_bit 2 x" for x
    using take_bit_eq_mask [of 2 x] by (simp add: mask_eq_exp_minus_1)
  have "push_bit 2 (drop_bit 2 a) = a" "push_bit 2 (drop_bit 2 k) = k"
    using assms bits_ident [of 2 a] bits_ident [of 2 k] by (simp_all add: eq)
  then have "a + k = push_bit 2 (drop_bit 2 a + drop_bit 2 k)" by (metis push_bit_add)
  then show ?thesis by (simp add: eq take_bit_push_bit)
qed

section \<open>The trampoline simulates the target\<close>

lemma arm_trampoline_runs:
  assumes "arm_straight (fetch32 (arm_mem o1) target)" "arm_straight (fetch32 (arm_mem o1) (target + 4))"
    and "arm_trampoline_new (arm_mem o1) target 8 = Ok tr"
    and "emit (tramp_emitter tr) base = Ok code" "code_at m' base code" "base AND 3 = 0"
    and "arm_pc o1 = target" "arm_run 2 o1 = Some o3"
  shows "arm_pc o3 = target + 8
    \<and> (\<exists>n. arm_run n (o1\<lparr>arm_pc := base, arm_mem := m'\<rparr>) = Some (o3\<lparr>arm_mem := m'\<rparr>))"
proof -
  let ?i1 = "fetch32 (arm_mem o1) target" and ?i2 = "fetch32 (arm_mem o1) (target + 4)"
  have "arm_run (Suc (Suc 0)) o1 = Some o3" using assms(8) by (simp add: numeral_2_eq_2)
  then obtain o2 where step1: "arm_step o1 = Some o2" and step2: "arm_step o2 = Some o3"
    by (auto split: option.splits)
  have aligned: "target AND 3 = 0" using step1 assms(7) by (auto simp: arm_step_def Let_def split: if_splits)
  have tr: "tr = \<lparr>tramp_emitter = \<lparr>thunks = [VecThunk (u32_le ?i1), VecThunk (u32_le ?i2), arm_jmp_abs (target + 8)]\<rparr>,
      tramp_prolog_size = 8\<rparr>"
    using assms(3) arm_trampoline_straight [OF assms(1,2) and_3_even [OF aligned]] by simp
  then have "code = u32_le ?i1 @ u32_le ?i2 @ u32_le 0xE51FF004 @ u32_le (target + 8)"
    using assms(4) by (auto simp: emit_def arm_jmp_abs_def)
  then have at: "code_at m' base (u32_le ?i1)" "code_at m' (base + 4) (u32_le ?i2)"
    "code_at m' (base + 8) (u32_le 0xE51FF004 @ u32_le (target + 8))"
    using assms(5) by (simp_all add: add.assoc)
  let ?s = "o1\<lparr>arm_pc := base, arm_mem := m'\<rparr>"
  have 1: "arm_step ?s = Some (?s\<lparr>arm_pc := base + 4, arm_regs := arm_regs o2\<rparr>)"
      "o2 = o1\<lparr>arm_pc := target + 4, arm_regs := arm_regs o2\<rparr>"
    using arm_straight_step [OF assms(1) _ _ _ _ _ step1, of ?s] assms(6,7) code_at_u32 [OF at(1)] by simp_all
  then have o2: "arm_pc o2 = target + 4" "arm_mem o2 = arm_mem o1" "arm_nzcv o2 = arm_nzcv o1"
    by (metis arm_cpu.select_convs(1,3,4) arm_cpu.surjective arm_cpu.update_convs(1,2))+
  let ?t = "?s\<lparr>arm_pc := base + 4, arm_regs := arm_regs o2\<rparr>"
  have 2: "arm_step ?t = Some (?t\<lparr>arm_pc := base + 8, arm_regs := arm_regs o3\<rparr>)"
      "o3 = o2\<lparr>arm_pc := target + 8, arm_regs := arm_regs o3\<rparr>"
    using arm_straight_step [OF assms(2) _ _ _ _ _ step2, of ?t] assms(6) code_at_u32 [OF at(2)] o2
      and_3_plus [of base 4] by (simp_all add: add.assoc)
  then have o3: "arm_pc o3 = target + 8" "arm_nzcv o3 = arm_nzcv o1"
    using o2 by (metis arm_cpu.select_convs(1,3) arm_cpu.surjective arm_cpu.update_convs(1,2))+
  let ?u = "?t\<lparr>arm_pc := base + 8, arm_regs := arm_regs o3\<rparr>"
  have "arm_runs_to m' (base + 8) (target + 8)"
    using at(3) assms(6) aligned and_3_plus [of base 8] and_3_plus [of target 8]
    by (intro arm_jmp.jmp_lands [where code = "u32_le 0xE51FF004 @ u32_le (target + 8)"]) (simp_all add: arm_jmp_abs_def)
  then obtain n where "arm_run n ?u = Some (?u\<lparr>arm_pc := target + 8\<rparr>)"
    unfolding arm_runs_to_def by (auto dest: spec [of _ ?u])
  moreover have "?u\<lparr>arm_pc := target + 8\<rparr> = o3\<lparr>arm_mem := m'\<rparr>"
    using o3 by (cases o1, cases o3) simp
  ultimately have "arm_run (Suc (Suc n)) ?s = Some (o3\<lparr>arm_mem := m'\<rparr>)" using 1(1) 2(1) by simp
  then show ?thesis using o3(1) by blast
qed

text \<open>
  Calling the trampoline is calling the ARM function before it was patched. If its first
  two instructions are straight-line code, under whatever conditions, a run of the trampoline
  ends at the third with the same registers and flags.
\<close>

theorem arm_trampoline_simulates:
  assumes "arm_straight (fetch32 (arm_mem o1) target)" "arm_straight (fetch32 (arm_mem o1) (target + 4))"
    and "arm_trampoline_new (arm_mem o1) target 8 = Ok tr"
    and "emit (tramp_emitter tr) base = Ok code" "code_at m' base code" "base AND 3 = 0"
    and "arm_pc o1 = target" "arm_run 2 o1 = Some o3"
  shows "arm_pc o3 = target + 8
    \<and> (\<exists>n. arm_run n (o1\<lparr>arm_pc := base, arm_mem := m'\<rparr>) = Some (o3\<lparr>arm_mem := m'\<rparr>))"
  using assms by (rule arm_trampoline_runs)

text \<open>\<^verbatim>\<open>movne r0, #1; add r0, r0, #2\<close> at 0x1000 with Z clear, the trampoline at 0x7000.\<close>

theorem arm_trampoline_simulates_witness:
  "let flags = \<lparr>arm_NF = False, arm_ZF = False, arm_CF = False, arm_VF = False\<rparr>;
       m' = write_bytes (\<lambda>_. 0) 0x7000 (u32_le 0x13A00001 @ u32_le 0xE2800002 @ u32_le 0xE51FF004 @ u32_le 0x1008)
   in \<exists>n. arm_run n \<lparr>arm_pc = 0x7000, arm_regs = (\<lambda>_. 0), arm_nzcv = flags, arm_mem = m'\<rparr>
        = Some \<lparr>arm_pc = 0x1008, arm_regs = (\<lambda>_. 0)(0 := 3), arm_nzcv = flags, arm_mem = m'\<rparr>"
proof -
  let ?f = "\<lparr>arm_NF = False, arm_ZF = False, arm_CF = False, arm_VF = False\<rparr>"
  let ?prolog = "u32_le 0x13A00001 @ u32_le 0xE2800002"
  let ?code = "u32_le 0x13A00001 @ u32_le 0xE2800002 @ u32_le 0xE51FF004 @ u32_le 0x1008"
  let ?m = "write_bytes (\<lambda>_. 0) (0x1000 :: u32) ?prolog" and ?m' = "write_bytes (\<lambda>_. 0) (0x7000 :: u32) ?code"
  let ?o1 = "\<lparr>arm_pc = 0x1000, arm_regs = (\<lambda>_. 0), arm_nzcv = ?f, arm_mem = ?m\<rparr>"
  let ?o2 = "\<lparr>arm_pc = 0x1004, arm_regs = (\<lambda>_. 0)(0 := 1), arm_nzcv = ?f, arm_mem = ?m\<rparr>"
  let ?o3 = "\<lparr>arm_pc = 0x1008, arm_regs = (\<lambda>_. 0)(0 := 3), arm_nzcv = ?f, arm_mem = ?m\<rparr>"
  let ?tr = "\<lparr>tramp_emitter = \<lparr>thunks = [VecThunk (u32_le 0x13A00001), VecThunk (u32_le 0xE2800002),
    arm_jmp_abs 0x1008]\<rparr>, tramp_prolog_size = 8\<rparr>"
  have "code_at ?m 0x1000 ?prolog" by (rule code_at_write_bytes) simp
  then have i: "fetch32 ?m 0x1000 = 0x13A00001" "fetch32 ?m 0x1004 = 0xE2800002"
    by (auto intro!: code_at_u32)
  have straight: "arm_straight 0x13A00001" "arm_straight 0xE2800002"
    by (simp_all add: arm_straight_def arm_rd_def arm_rn_def)
  have tr: "arm_trampoline_new ?m 0x1000 8 = Ok ?tr"
    using arm_trampoline_straight [of ?m "0x1000"] straight i by simp
  have emit: "emit (tramp_emitter ?tr) 0x7000 = Ok ?code" by (simp add: emit_def arm_jmp_abs_def)
  have placed: "code_at ?m' 0x7000 ?code" by (rule code_at_write_bytes) simp
  have rotr_0: "word_rotr 0 w = (w :: u32)" for w by (rule bit_word_eqI) (simp add: bit_word_rotr_iff)
  have "arm_step ?o1 = Some ?o2"
    using i rotr_0 by (simp add: arm_step_def Let_def arm_cond_def arm_exec_def arm_set_def arm_rd_def arm_imm8_def bit_0)
  moreover have "arm_step ?o2 = Some ?o3"
    using i rotr_0 by (simp add: arm_step_def Let_def arm_cond_def arm_exec_def arm_set_def arm_rd_def arm_rn_def
        arm_get_def arm_imm8_def bit_0)
  ultimately have run: "arm_run 2 ?o1 = Some ?o3" by (simp add: numeral_2_eq_2)
  have "arm_pc ?o3 = 0x1000 + 8
    \<and> (\<exists>n. arm_run n (?o1\<lparr>arm_pc := 0x7000, arm_mem := ?m'\<rparr>) = Some (?o3\<lparr>arm_mem := ?m'\<rparr>))"
    using i straight tr by (intro arm_trampoline_simulates [OF _ _ _ emit placed _ _ run]) simp_all
  then show ?thesis by simp
qed

section \<open>Conditional control flow\<close>

lemma arm_imm24_code: "push_bit 2 (sign_extend_bits (i AND 0x00FFFFFF) 24) = arm_imm24 i"
  unfolding arm_imm24_def
  by (rule u32_eqI; simp add: sign_extend_bits_eq upt_rec; elim disjE; simp add: bit_simps; simp add: eval_nat_numeral)

lemma arm_process_far_branch:
  assumes "drop_bit 28 i \<noteq> 15" "i AND 0x0F000000 = 0x0A000000"
    and "\<not> in_range (prolog_range b) (pc + 8 + arm_imm24 i)"
  shows "arm_process b i pc = Ok (arm_jmp_abs (pc + 8 + arm_imm24 i), b)"
proof -
  have "i AND 0x0E000000 = 0x0A000000" using mask_agree [OF assms(2), of "0x0E000000"] by simp
  moreover have "i AND 0x01000000 = 0" using mask_agree [OF assms(2), of "0x01000000"] by simp
  ultimately show ?thesis using assms(1,3) by (simp add: arm_process_def Let_def arm_imm24_code)
qed

text \<open>
  A far conditional branch loses its condition. The original falls through when the
  condition fails; the trampoline goes to the destination of the branch all the same.
\<close>

theorem arm_far_branch_loses_condition:
  assumes "drop_bit 28 i \<noteq> 15" "i AND 0x0F000000 = 0x0A000000" "target AND 3 = 0" "arm_imm24 i AND 3 = 0"
    and "\<not> in_range (prolog_range (builder_new target 8)) (target + 8 + arm_imm24 i)"
    and "fetch32 m target = i" "arm_straight (fetch32 m (target + 4))"
  shows "(\<forall>s. arm_mem s = m \<and> arm_pc s = target \<and> \<not> arm_cond (arm_nzcv s) (drop_bit 28 i)
        \<longrightarrow> arm_step s = Some (s\<lparr>arm_pc := target + 4\<rparr>))
    \<and> (\<exists>tr. arm_trampoline_new m target 8 = Ok tr
        \<and> (\<forall>m' base code. emit (tramp_emitter tr) base = Ok code \<and> code_at m' base code \<and> base AND 3 = 0
              \<longrightarrow> arm_runs_to m' base (target + 8 + arm_imm24 i)))"
proof (intro conjI allI impI)
  fix s :: arm_cpu
  assume "arm_mem s = m \<and> arm_pc s = target \<and> \<not> arm_cond (arm_nzcv s) (drop_bit 28 i)"
  then show "arm_step s = Some (s\<lparr>arm_pc := target + 4\<rparr>)"
    using assms(1,3,6) by (simp add: arm_step_def Let_def)
next
  let ?b = "builder_new target 8" and ?dest = "target + 8 + arm_imm24 i"
  let ?e = "\<lparr>thunks = [arm_jmp_abs ?dest, VecThunk (u32_le (fetch32 m (target + 4))), arm_jmp_abs (target + 8)]\<rparr>"
  have "arm_build_loop m ?b emitter_new = Ok (?b\<lparr>total_bytes := 8, finished := True\<rparr>, ?e)"
    by (subst arm_build_loop.simps, simp add: assms(6) arm_process_far_branch [OF assms(1,2,5)] Let_def,
        subst arm_build_loop.simps, simp add: arm_process_straight [OF assms(7)] Let_def,
        subst arm_build_loop.simps, simp add: add_thunk_def emitter_new_def)
  then have tr: "arm_trampoline_new m target 8 = Ok \<lparr>tramp_emitter = ?e, tramp_prolog_size = 8\<rparr>"
    using and_3_even [OF assms(3)] by (simp add: arm_trampoline_new_def arm_build_def)
  have dest: "?dest AND 3 = 0"
    using and_3_plus [OF and_3_plus [OF assms(3), of 8] assms(4)] by simp
  have "arm_runs_to m' base ?dest" if at: "emit ?e base = Ok code" "code_at m' base code" "base AND 3 = 0" for m' base code
  proof -
    have "\<exists>piece. thunk_generate (arm_jmp_abs ?dest) base = Ok piece \<and> code_at m' base piece"
      using emit_placement [of ?e "[]" "arm_jmp_abs ?dest" _ base code m'] at by auto
    then show ?thesis using at(3) dest by (elim exE conjE, intro arm_jmp.jmp_lands) simp_all
  qed
  then show "\<exists>tr. arm_trampoline_new m target 8 = Ok tr
        \<and> (\<forall>m' base code. emit (tramp_emitter tr) base = Ok code \<and> code_at m' base code \<and> base AND 3 = 0
              \<longrightarrow> arm_runs_to m' base (target + 8 + arm_imm24 i))"
    using tr by auto
qed

text \<open>\<^verbatim>\<open>bne .+0x108\<close> at 0x1000, followed by a \<^verbatim>\<open>nop\<close>.\<close>

theorem arm_far_branch_loses_condition_witness:
  "let m = write_bytes (\<lambda>_. 0) 0x1000 (u32_le 0x1A000040 @ u32_le 0xE320F000)
   in (\<forall>s. arm_mem s = m \<and> arm_pc s = 0x1000 \<and> \<not> arm_cond (arm_nzcv s) 1
        \<longrightarrow> arm_step s = Some (s\<lparr>arm_pc := 0x1004\<rparr>))
    \<and> (\<exists>tr. arm_trampoline_new m 0x1000 8 = Ok tr
        \<and> (\<forall>m' base code. emit (tramp_emitter tr) base = Ok code \<and> code_at m' base code \<and> base AND 3 = 0
              \<longrightarrow> arm_runs_to m' base 0x1108))"
proof -
  let ?m = "write_bytes (\<lambda>_. 0) (0x1000 :: u32) (u32_le 0x1A000040 @ u32_le 0xE320F000)"
  have "code_at ?m 0x1000 (u32_le 0x1A000040 @ u32_le 0xE320F000)" by (rule code_at_write_bytes) simp
  then have i: "fetch32 ?m 0x1000 = 0x1A000040" "fetch32 ?m (0x1000 + 4) = 0xE320F000"
    by (auto intro!: code_at_u32)
  have imm: "arm_imm24 0x1A000040 = 0x100" by (simp add: arm_imm24_def)
  have straight: "arm_straight 0xE320F000" by (simp add: arm_straight_def)
  show ?thesis
    unfolding Let_def
    using arm_far_branch_loses_condition [OF _ _ _ _ _ i(1)] i(2) straight
    by (simp add: imm in_range_def prolog_range_def)
qed

text \<open>
  A hook inside a prolog, as a second detour of the same function finds it: the jump reads its
  destination from the word behind it, and that word is decoded as an instruction. Where it is a
  branch out of the prolog its replacement is one word longer, and the copied jump goes to the
  first word of the replacement, whatever the first detour was.
\<close>

lemma arm_second_hook_lost:
  assumes "fetch32 m target = 0xE51FF004" "fetch32 m (target + 4) = detour" "target AND 3 = 0"
    and "drop_bit 28 detour \<noteq> 15" "detour AND 0x0F000000 = 0x0A000000"
    and "\<not> in_range (prolog_range (builder_new target 8)) (target + 12 + arm_imm24 detour)"
  shows "\<exists>tr. arm_trampoline_new m target 8 = Ok tr
    \<and> (\<forall>m' base code. emit (tramp_emitter tr) base = Ok code \<and> code_at m' base code \<and> base AND 3 = 0
          \<longrightarrow> arm_runs_to m' base 0xE51FF004)"
proof -
  let ?b = "builder_new target 8" and ?dest = "target + 4 + 8 + arm_imm24 detour"
  let ?e = "\<lparr>thunks = [VecThunk (u32_le 0xE51FF004), arm_jmp_abs ?dest, arm_jmp_abs (target + 8)]\<rparr>"
  have copied: "arm_process b 0xE51FF004 pc = Ok (VecThunk (u32_le 0xE51FF004), b)" for b pc
    by (simp add: arm_process_def Let_def)
  have "\<not> in_range (prolog_range (?b\<lparr>total_bytes := 4\<rparr>)) ?dest"
    using assms(6) by (simp add: prolog_range_def builder_new_def add.assoc)
  then have "arm_build_loop m ?b emitter_new = Ok (?b\<lparr>total_bytes := 8, finished := True\<rparr>, ?e)"
    by (subst arm_build_loop.simps, simp add: assms(1) copied Let_def,
        subst arm_build_loop.simps, simp add: assms(2) arm_process_far_branch [OF assms(4,5)] Let_def,
        subst arm_build_loop.simps, simp add: add_thunk_def emitter_new_def)
  then have tr: "arm_trampoline_new m target 8 = Ok \<lparr>tramp_emitter = ?e, tramp_prolog_size = 8\<rparr>"
    using and_3_even [OF assms(3)] by (simp add: arm_trampoline_new_def arm_build_def)
  have "arm_runs_to m' base 0xE51FF004" if at: "emit ?e base = Ok code" "code_at m' base code" "base AND 3 = 0" for m' base code
  proof -
    have jump: "code_at m' base (u32_le 0xE51FF004)"
      using emit_placement [of ?e "[]" "VecThunk (u32_le 0xE51FF004)" _ base code m'] at by auto
    have "\<exists>piece. thunk_generate (arm_jmp_abs ?dest) (base + 4) = Ok piece \<and> code_at m' (base + 4) piece"
      using emit_placement [of ?e "[VecThunk (u32_le 0xE51FF004)]" "arm_jmp_abs ?dest" _ base code m'] at by auto
    then have "code_at m' (base + 4) (u32_le 0xE51FF004)"
      by (auto simp: arm_jmp_abs_def code_at_append)
    then have "arm_step s = Some (s\<lparr>arm_pc := 0xE51FF004\<rparr>)" if "arm_mem s = m'" "arm_pc s = base" for s
      using that at(3) jump by (intro arm_step_jmp) (simp_all add: code_at_u32)
    then show ?thesis
      unfolding arm_runs_to_def by (auto intro!: exI [of _ 1])
  qed
  with tr show ?thesis by auto
qed

text \<open>
  A conditional return in the prolog ends the trampoline. When its condition fails, the
  processor runs past the end of the trampoline instead of returning to the function.
\<close>

theorem arm_conditional_return_unterminated:
  assumes "arm_straight (fetch32 m target)" "fetch32 m (target + 4) = i" "i AND 0x0FFFFFF0 = 0x012FFF10"
    and "drop_bit 28 i \<noteq> 15" "target AND 3 = 0"
  shows "\<exists>tr. arm_trampoline_new m target 8 = Ok tr \<and> emitter_len (tramp_emitter tr) = 8
    \<and> (\<forall>s u base code. emit (tramp_emitter tr) base = Ok code \<and> code_at (arm_mem s) base code \<and> arm_pc s = base
          \<and> \<not> arm_cond (arm_nzcv s) (drop_bit 28 i) \<and> arm_step s = Some u
          \<longrightarrow> arm_run 2 s = Some (u\<lparr>arm_pc := base + of_nat (emitter_len (tramp_emitter tr))\<rparr>))"
proof -
  let ?b = "builder_new target 8" and ?i1 = "fetch32 m target"
  let ?e = "\<lparr>thunks = [VecThunk (u32_le ?i1), VecThunk (u32_le i)]\<rparr>"
  have ret: "arm_process b i pc = Ok (VecThunk (u32_le i), b\<lparr>finished := \<not> is_in_branch b pc\<rparr>)" for b pc
    using assms(3,4) by (simp add: arm_process_def Let_def mask_differ [OF assms(3)])
  have b4: "\<not> is_in_branch (?b\<lparr>total_bytes := n\<rparr>) a" for n a by (simp add: is_in_branch_def)
  have "arm_build_loop m ?b emitter_new = Ok (?b\<lparr>finished := True, total_bytes := 8\<rparr>, ?e)"
    by (subst arm_build_loop.simps, simp add: arm_process_straight [OF assms(1)] Let_def,
        subst arm_build_loop.simps, simp add: assms(2) ret b4 Let_def,
        subst arm_build_loop.simps, simp add: add_thunk_def emitter_new_def)
  then have tr: "arm_trampoline_new m target 8 = Ok \<lparr>tramp_emitter = ?e, tramp_prolog_size = 8\<rparr>"
    using and_3_even [OF assms(5)] by (simp add: arm_trampoline_new_def arm_build_def)
  have len: "emitter_len ?e = 8" by (simp add: emitter_len_def)
  have "arm_run 2 s = Some (u\<lparr>arm_pc := base + 8\<rparr>)"
    if s: "emit ?e base = Ok code" "code_at (arm_mem s) base code" "arm_pc s = base"
      "\<not> arm_cond (arm_nzcv s) (drop_bit 28 i)" "arm_step s = Some u" for s u base code
  proof -
    have at: "code_at (arm_mem s) base (u32_le ?i1)" "code_at (arm_mem s) (base + 4) (u32_le i)"
      using s(1,2) by (auto simp: emit_def)
    have aligned: "base AND 3 = 0" using s(3,5) by (auto simp: arm_step_def Let_def split: if_splits)
    have "u = s\<lparr>arm_pc := base + 4, arm_regs := arm_regs u\<rparr>"
      using arm_straight_step [OF assms(1) _ _ _ _ _ s(5), of s] code_at_u32 [OF at(1)] s(3) aligned by simp
    then have "arm_pc u = base + 4" "arm_mem u = arm_mem s" "arm_nzcv u = arm_nzcv s"
      by (metis arm_cpu.select_convs(1,3,4) arm_cpu.surjective arm_cpu.update_convs(1,2))+
    then have "arm_step u = Some (u\<lparr>arm_pc := base + 8\<rparr>)"
      using s(4) code_at_u32 [OF at(2)] assms(4) and_3_plus [OF aligned, of 4]
      by (simp add: arm_step_def Let_def add.assoc)
    then show ?thesis using s(5) by (simp add: numeral_2_eq_2)
  qed
  then show ?thesis using tr len by auto
qed

text \<open>\<^verbatim>\<open>mov r0, #1; bxeq lr\<close> at 0x1000.\<close>

theorem arm_conditional_return_unterminated_witness:
  "let m = write_bytes (\<lambda>_. 0) 0x1000 (u32_le 0xE3A00001 @ u32_le 0x012FFF1E)
   in \<exists>tr. arm_trampoline_new m 0x1000 8 = Ok tr \<and> emitter_len (tramp_emitter tr) = 8
    \<and> (\<forall>s u base code. emit (tramp_emitter tr) base = Ok code \<and> code_at (arm_mem s) base code \<and> arm_pc s = base
          \<and> \<not> arm_cond (arm_nzcv s) 0 \<and> arm_step s = Some u
          \<longrightarrow> arm_run 2 s = Some (u\<lparr>arm_pc := base + of_nat (emitter_len (tramp_emitter tr))\<rparr>))"
proof -
  let ?m = "write_bytes (\<lambda>_. 0) (0x1000 :: u32) (u32_le 0xE3A00001 @ u32_le 0x012FFF1E)"
  have "code_at ?m 0x1000 (u32_le 0xE3A00001 @ u32_le 0x012FFF1E)" by (rule code_at_write_bytes) simp
  then have i: "fetch32 ?m 0x1000 = 0xE3A00001" "fetch32 ?m (0x1000 + 4) = 0x012FFF1E"
    by (auto intro!: code_at_u32)
  have straight: "arm_straight (fetch32 ?m 0x1000)" unfolding i by (simp add: arm_straight_def arm_rd_def)
  show ?thesis
    unfolding Let_def
    using arm_conditional_return_unterminated [OF straight i(2)] by simp
qed

end
