(* ===== verification/Detour_Backends.thy ===== *)
theory Detour_Backends
  imports Detour_Example X86_Trampoline Aarch64_Trampoline Riscv_Trampoline Arm_Trampoline
begin

text \<open>
  The architectures of \<^verbatim>\<open>src/arch/mod.rs\<close> as values of the record \<open>architecture\<close>, their
  interpretations of \<open>detour_backend\<close>, and what follows for whole detours.
\<close>

section \<open>The architectures\<close>

definition x86_arch :: "decoder \<Rightarrow> ('u::len word) architecture" where
  "x86_arch dec = \<lparr>detour_range = x86_DETOUR_RANGE, prolog_margin = x86_prolog_margin,
     make_trampoline = x86_trampoline_new dec, relay_builder = x86_relay_builder,
     make_patcher = x86_patcher_new, icache_coherent = True\<rparr>"

definition a64_arch :: "bool \<Rightarrow> u64 architecture" where
  "a64_arch dbg = \<lparr>detour_range = a64_DETOUR_RANGE, prolog_margin = a64_prolog_margin,
     make_trampoline = a64_trampoline_new, relay_builder = a64_relay_builder,
     make_patcher = (\<lambda>query. a64_patcher_new dbg), icache_coherent = False\<rparr>"

definition riscv_arch :: "bool \<Rightarrow> ('u::len word) architecture" where
  "riscv_arch dbg = \<lparr>detour_range = riscv_DETOUR_RANGE, prolog_margin = riscv_prolog_margin,
     make_trampoline = riscv_trampoline_new, relay_builder = riscv_relay_builder,
     make_patcher = (\<lambda>query. riscv_patcher_new dbg), icache_coherent = False\<rparr>"

definition arm_arch :: "u32 architecture" where
  "arm_arch = \<lparr>detour_range = arm_DETOUR_RANGE, prolog_margin = arm_prolog_margin,
     make_trampoline = arm_trampoline_new, relay_builder = arm_relay_builder,
     make_patcher = (\<lambda>query. arm_patcher_new), icache_coherent = False\<rparr>"

lemmas arch_defs = x86_arch_def a64_arch_def riscv_arch_def arm_arch_def

section \<open>Interpretations\<close>

text \<open>Jumps compose.\<close>

lemma a64_runs_to_trans:
  assumes "a64_runs_to m a b" "a64_runs_to m b c"
  shows "a64_runs_to m a c"
  unfolding a64_runs_to_def
proof (intro allI impI)
  fix s :: a64_cpu assume s: "a64_mem s = m \<and> a64_pc s = a"
  with assms(1) obtain j v where j: "a64_run j s = Some (s\<lparr>a64_pc := b, a64_regs := (a64_regs s)(16 := v)\<rparr>)"
    by (auto simp: a64_runs_to_def)
  let ?t = "s\<lparr>a64_pc := b, a64_regs := (a64_regs s)(16 := v)\<rparr>"
  obtain k u where "a64_run k ?t = Some (?t\<lparr>a64_pc := c, a64_regs := (a64_regs ?t)(16 := u)\<rparr>)"
    using assms(2) s unfolding a64_runs_to_def by (auto dest: spec [of _ ?t])
  with j have "a64_run (j + k) s = Some (s\<lparr>a64_pc := c, a64_regs := (a64_regs s)(16 := u)\<rparr>)"
    by (simp add: a64_run_add)
  then show "\<exists>n v. a64_run n s = Some (s\<lparr>a64_pc := c, a64_regs := (a64_regs s)(16 := v)\<rparr>)" by blast
qed

lemma rv_runs_to_trans:
  assumes "rv_runs_to m a b" "rv_runs_to m b c"
  shows "rv_runs_to m a c"
  unfolding rv_runs_to_def
proof (intro allI impI)
  fix s :: "'a word rv_cpu" assume s: "rv_mem s = m \<and> rv_pc s = a"
  with assms(1) obtain j v where j: "rv_run j s = Some (s\<lparr>rv_pc := b, rv_regs := (rv_regs s)(6 := v)\<rparr>)"
    by (auto simp: rv_runs_to_def)
  let ?t = "s\<lparr>rv_pc := b, rv_regs := (rv_regs s)(6 := v)\<rparr>"
  obtain k u where "rv_run k ?t = Some (?t\<lparr>rv_pc := c, rv_regs := (rv_regs ?t)(6 := u)\<rparr>)"
    using assms(2) s unfolding rv_runs_to_def by (auto dest: spec [of _ ?t])
  with j have "rv_run (j + k) s = Some (s\<lparr>rv_pc := c, rv_regs := (rv_regs s)(6 := u)\<rparr>)"
    by (simp add: rv_run_add)
  then show "\<exists>n v. rv_run n s = Some (s\<lparr>rv_pc := c, rv_regs := (rv_regs s)(6 := v)\<rparr>)" by blast
qed

lemma x86_relay_Some:
  "x86_relay_builder target detour = Ok (Some e) \<Longrightarrow> e = add_thunk emitter_new (x86_jmp (detour :: 'u::len word))"
  by (auto simp: x86_relay_builder_def Let_def split: if_splits)

lemma a64_relay_Some:
  "a64_relay_builder target detour = Ok (Some e) \<Longrightarrow> e = add_thunk emitter_new (a64_jmp_abs detour)"
  by (auto simp: a64_relay_builder_def Let_def split: if_splits)

lemma riscv_relay_Some:
  "riscv_relay_builder target detour = Ok (Some e) \<Longrightarrow> e = add_thunk emitter_new (riscv_jmp_abs (detour :: 'u::len word))"
  by (auto simp: riscv_relay_builder_def Let_def split: if_splits)

lemma emitter_len_single [simp]: "emitter_len (add_thunk emitter_new t) = thunk_len t"
  by (simp add: emitter_len_def emitter_new_def add_thunk_def)

lemma x86_backend:
  assumes "x86_usize TYPE('u::len)"
  shows "detour_backend (x86_arch dec :: ('u word) architecture) x86_runs_to (\<lambda>_ _. True) (\<lambda>_ _. True)"
proof (rule detour_backend.intro)
  fix query :: "'u word query"
  show "patcher_module (make_patcher (x86_arch dec) query) x86_runs_to (\<lambda>p (_ :: 'u word) _. True)"
    using x86_patcher.patcher_module_axioms [of query] assms by (simp add: x86_arch_def)
next
  fix query :: "'u word query" and m :: "'u mem" and target detour n p
  assume "make_patcher (x86_arch dec) query m target detour n = Ok p"
  then have new: "x86_patcher_new query m target detour n = Ok p" by (simp add: x86_arch_def)
  have small: "7 \<le> (2 :: nat) ^ LENGTH('u)" using assms by (auto simp: x86_usize_def)
  show "area_len p \<le> 2 ^ LENGTH('u)" using small by (rule_tac x86_hook_code [OF new]) auto
next
  fix target detour base :: "'u word" and e code and m :: "'u mem"
  assume "relay_builder (x86_arch dec) target detour = Ok (Some e)" "emit e base = Ok code" "code_at m base code"
  then show "x86_runs_to m base detour"
    using x86_relay_Some [of target detour e] x86_jmp.relay_lands [of detour base code m] assms
    by (simp add: x86_arch_def)
next
  fix target detour :: "'u word" and e
  assume "relay_builder (x86_arch dec) target detour = Ok (Some e)"
  then show "emitter_len e \<le> 2 ^ LENGTH('u)"
    using x86_relay_Some [of target detour e] assms
    by (auto simp: x86_arch_def x86_jmp.build_len x86_jmp_size_def x86_usize_def)
qed (rule x86_runs_to_trans)

interpretation x86_64: detour_backend "x86_arch dec :: u64 architecture" x86_runs_to
    "\<lambda>_ _. True" "\<lambda>_ _. True" for dec
  by (rule x86_backend) (simp add: x86_usize_def)

interpretation x86_32: detour_backend "x86_arch dec :: u32 architecture" x86_runs_to
    "\<lambda>_ _. True" "\<lambda>_ _. True" for dec
  by (rule x86_backend) (simp add: x86_usize_def)

interpretation a64: detour_backend "a64_arch dbg" a64_runs_to a64_near "\<lambda>_ _. True" for dbg
proof (rule detour_backend.intro)
  fix query
  show "patcher_module (make_patcher (a64_arch dbg) query) a64_runs_to (\<lambda>p. a64_near)"
    using a64_patcher.patcher_module_axioms [of dbg] by (simp add: a64_arch_def)
next
  fix query m target detour n p
  assume "make_patcher (a64_arch dbg) query m target detour n = Ok p"
  then show "area_len p \<le> 2 ^ LENGTH(64)"
    by (simp add: a64_arch_def a64_patcher_new_Ok a64_patch_area_Ok)
next
  fix target detour base e code m
  assume "relay_builder (a64_arch dbg) target detour = Ok (Some e)" "emit e base = Ok code" "code_at m base code"
  then show "a64_runs_to m base detour"
    using a64_relay_Some [of target detour e] a64_jmp.relay_lands [of detour base code m] by (simp add: a64_arch_def)
next
  fix target detour e
  assume "relay_builder (a64_arch dbg) target detour = Ok (Some e)"
  then show "emitter_len e \<le> 2 ^ LENGTH(64)"
    using a64_relay_Some [of target detour e] by (simp add: a64_arch_def a64_jmp.build_len)
qed (rule a64_runs_to_trans)

lemma riscv_backend:
  assumes "rv_xlen TYPE('u::len)"
  shows "detour_backend (riscv_arch dbg :: ('u word) architecture) rv_runs_to riscv_near (\<lambda>_ detour. \<not> bit detour 0)"
proof (rule detour_backend.intro)
  fix query :: "'u word query"
  show "patcher_module (make_patcher (riscv_arch dbg) query) rv_runs_to (\<lambda>p. riscv_near)"
    using riscv_patcher.patcher_module_axioms [of dbg] by (simp add: riscv_arch_def)
next
  fix query :: "'u word query" and m :: "'u mem" and target detour n p
  have small: "8 \<le> (2 :: nat) ^ LENGTH('u)" using assms by (auto simp: rv_xlen_def)
  assume "make_patcher (riscv_arch dbg) query m target detour n = Ok p"
  then show "area_len p \<le> 2 ^ LENGTH('u)"
    using small by (simp add: riscv_arch_def riscv_patcher_new_Ok riscv_patch_area_Ok)
next
  fix target detour base :: "'u word" and e code and m :: "'u mem"
  assume "relay_builder (riscv_arch dbg) target detour = Ok (Some e)" "\<not> bit detour 0"
    "emit e base = Ok code" "code_at m base code"
  then show "rv_runs_to m base detour"
    using riscv_relay_Some [of target detour e] riscv_jmp.relay_lands [of detour base code m] assms
    by (simp add: riscv_arch_def)
next
  fix target detour :: "'u word" and e
  assume "relay_builder (riscv_arch dbg) target detour = Ok (Some e)"
  then show "emitter_len e \<le> 2 ^ LENGTH('u)"
    using riscv_relay_Some [of target detour e] assms by (auto simp: riscv_arch_def riscv_jmp.build_len rv_xlen_def)
qed (rule rv_runs_to_trans)

interpretation riscv64: detour_backend "riscv_arch dbg :: u64 architecture" rv_runs_to riscv_near
    "\<lambda>_ detour. \<not> bit detour 0" for dbg
  by (rule riscv_backend) (simp add: rv_xlen_def)

interpretation riscv32: detour_backend "riscv_arch dbg :: u32 architecture" rv_runs_to riscv_near
    "\<lambda>_ detour. \<not> bit detour 0" for dbg
  by (rule riscv_backend) (simp add: rv_xlen_def)

interpretation arm: detour_backend arm_arch arm_runs_to arm_aligned "\<lambda>_ _. True"
proof (rule detour_backend.intro)
  fix query
  show "patcher_module (make_patcher arm_arch query) arm_runs_to (\<lambda>p. arm_aligned)"
    using arm_patcher.patcher_module_axioms by (simp add: arm_arch_def)
next
  fix query m target detour n p
  assume "make_patcher arm_arch query m target detour n = Ok p"
  then show "area_len p \<le> 2 ^ LENGTH(32)"
    by (simp add: arm_arch_def arm_patcher_new_Ok arm_patch_area_Ok)
next
  fix target detour base e code m
  assume "relay_builder arm_arch target detour = Ok (Some e)"
  then show "arm_runs_to m base detour" by (simp add: arm_arch_def arm_relay_builder_def)
next
  fix target detour e
  assume "relay_builder arm_arch target detour = Ok (Some e)"
  then show "emitter_len e \<le> 2 ^ LENGTH(32)" by (simp add: arm_arch_def arm_relay_builder_def)
qed (rule arm_runs_to_trans)

section \<open>Whole detours\<close>

text \<open>
  C2: an x86-64 detour, from \<^verbatim>\<open>Detour::new\<close> through \<^verbatim>\<open>enable\<close>. A call of the target
  arrives at the detour, over a relay if there is one. The trampoline in memory is made of the
  decoded instructions up to the one that completes five bytes, each relocated as \<open>relocated\<close>
  demands; behind them stands a jump, and this jump arrives at the instruction behind the prolog.
  It is missing only when the last of these instructions leaves the function, or when the decoder
  gave up before five bytes (\<open>tramp_tail\<close>). The instructions may be any; what those that are
  copied do is left to the processor. The decoder is a parameter that yields consecutive
  instructions.
\<close>

theorem x86_detour_end_to_end:
  fixes target detour :: u64
  defines "code \<equiv> \<lambda>m. read_bytes m target 20"
  assumes "detour_new (x86_arch dec) os target detour w = Some (Ok d, w1)"
    and "detour_enable (x86_arch dec) os' d w1 = (Ok (), d', w2)"
    and "w_icache w = w_mem w" "detour_apart d"
    and "stream_from target (dec 64 (code (w_mem w)) target)"
  shows "x86_runs_to (w_icache w2) target detour
    \<and> (\<exists>tr used rest ts tail bytes. x86_trampoline_new dec (w_mem w) target 5 = Ok tr
        \<and> dec 64 (code (w_mem w)) target = used @ rest
        \<and> relocates target 5 (code (w_mem w)) 0 used ts
        \<and> thunks (tramp_emitter tr) = ts @ tail
        \<and> emit (tramp_emitter tr) (em_ptr (d_trampoline d)) = Ok bytes
        \<and> code_at (w_icache w2) (em_ptr (d_trampoline d)) bytes
        \<and> tramp_prolog_size tr = sum_list (map insn_len used)
        \<and> sum_list (map insn_len (butlast used)) < 5
        \<and> tramp_tail False target used rest target 5 (tramp_prolog_size tr) tail
        \<and> (tail \<noteq> [] \<longrightarrow>
            x86_runs_to (w_icache w2) (em_ptr (d_trampoline d) + of_nat (sum_list (map thunk_len ts)))
              (target + of_nat (tramp_prolog_size tr))))"
proof -
  obtain tr bytes where reach: "x86_runs_to (w_icache w2) target detour"
    and tr: "x86_trampoline_new dec (w_mem w) target 5 = Ok tr"
    and bytes: "emit (tramp_emitter tr) (em_ptr (d_trampoline d)) = Ok bytes"
      "code_at (w_icache w2) (em_ptr (d_trampoline d)) bytes"
    using x86_64.enabled_detour [OF assms(2-5)]
    by (auto simp: x86_arch_def x86_prolog_margin_def size_of_JumpRel_def)
  note closing = x86_trampoline_closing [where decoder = dec and m = "w_mem w" and target = target and k = 5,
      OF _ _ tr _ bytes, simplified]
  then show ?thesis
    using reach tr bytes closing assms(6) unfolding code_def by blast
qed

text \<open>The documentation's example: \<^verbatim>\<open>return_five\<close> at 0x400020, hooked to 0x400040.\<close>

definition return_five_patcher :: "u64 patcher" where
  "return_five_patcher = \<lparr>area_ptr = 0x400020, area_len = 5,
     original_prolog = [0xB8, 5, 0, 0, 0], detour_prolog = [0xE9, 0x1B, 0, 0, 0]\<rparr>"

definition return_five_code :: "u8 list" where
  "return_five_code = [0xB8, 5, 0, 0, 0, 0xFF, 0x25] @ u32_le 0 @ u64_le 0x400025"

lemma return_five_new:
  assumes "x86_trampoline_new dec return_five_mem 0x400020 5 =
     Ok \<lparr>tramp_emitter = \<lparr>thunks = [VecThunk [0xB8, 5, 0, 0, 0], x86_jmp 0x400025]\<rparr>, tramp_prolog_size = 5\<rparr>"
  shows "detour_new (x86_arch dec) demo_os 0x400020 0x400040 (demo_world (x86_arch dec) return_five_mem)
    = Some (Ok (demo_detour return_five_patcher return_five_code), demo_created (x86_arch dec) return_five_mem return_five_code)"
proof (rule demo_new)
  show "make_trampoline (x86_arch dec) return_five_mem 0x400020 (prolog_margin (x86_arch dec) 0x400020) =
     Ok \<lparr>tramp_emitter = \<lparr>thunks = [VecThunk [0xB8, 5, 0, 0, 0], x86_jmp 0x400025]\<rparr>, tramp_prolog_size = 5\<rparr>"
    using assms by (simp add: x86_arch_def x86_prolog_margin_def size_of_JumpRel_def)
  show "relay_builder (x86_arch dec) (0x400020 :: u64) 0x400040 = Ok None"
    by (simp add: x86_arch_def x86_relay_builder_def Let_def is_within_range_def x86_DETOUR_RANGE_def)
  have "x86_is_patchable return_five_mem 0x400020 5 5" by (simp add: x86_is_patchable_def)
  moreover have "emit (x86_hook_template 0x400040 5) (0x400020 :: u64) = Ok [0xE9, 0x1B, 0, 0, 0]"
    by (simp add: emit_hook_5 jmp_rel32_def relative32_def fixed_thunk_new_def calculate_displacement_def Let_def
        size_of_JumpRel_def is_within_range_def x86_DETOUR_RANGE_def clone_from_slice_def u32_le_def)
  moreover have "read_bytes return_five_mem 0x400020 5 = [0xB8, 5, 0, 0, 0]"
    by (simp add: return_five_mem_def read_bytes_def write_bytes_def upt_rec)
  ultimately show "make_patcher (x86_arch dec) demo_query return_five_mem 0x400020 0x400040
      (tramp_prolog_size \<lparr>tramp_emitter = \<lparr>thunks = [VecThunk [0xB8, 5, 0, 0, 0], x86_jmp 0x400025]\<rparr>, tramp_prolog_size = 5\<rparr>)
    = Ok return_five_patcher"
    by (simp add: x86_arch_def x86_patcher_new_Ok x86_patch_area_Ok return_five_patcher_def)
  show "emit (tramp_emitter \<lparr>tramp_emitter = \<lparr>thunks = [VecThunk [0xB8, 5, 0, 0, 0], x86_jmp 0x400025]\<rparr>,
      tramp_prolog_size = 5\<rparr>) (0x500000 :: u64) = Ok return_five_code"
    by (simp add: emit_def x86_jmp_def target_x86_64_def x64_jmp_abs_def return_five_code_def)
  show "length return_five_code < 0x1000" by (simp add: return_five_code_def)
qed (simp_all add: in_range_def proximity_range_def thread_allocator_new_def saturating_sub_def saturating_add_def
    x86_arch_def x86_DETOUR_RANGE_def)

definition return_five_dec :: decoder where
  "return_five_dec = (\<lambda>_ _ _. return_five_insns)"

lemma return_five_tramp:
  "x86_trampoline_new return_five_dec return_five_mem 0x400020 5 =
     Ok \<lparr>tramp_emitter = \<lparr>thunks = [VecThunk [0xB8, 5, 0, 0, 0], x86_jmp 0x400025]\<rparr>, tramp_prolog_size = 5\<rparr>"
  unfolding return_five_dec_def by (rule return_five_trampoline)

lemma return_five_wf: "patcher_wf return_five_patcher"
  by (simp add: return_five_patcher_def patcher_wf_def)

lemmas return_five_enable =
  demo_enable [OF return_five_wf, where code = return_five_code and arch = "x86_arch return_five_dec" and m = return_five_mem]

lemma return_five_apart: "detour_apart (demo_detour return_five_patcher return_five_code)"
  by (rule demo_apart) (simp_all add: return_five_patcher_def return_five_code_def)

lemma return_five_prolog:
  assumes "return_five_insns = used @ rest" "sum_list (map insn_len (butlast used)) < 5"
    "sum_list (map insn_len used) = 5"
  shows "used = [hd return_five_insns]"
proof (cases used)
  case (Cons i js)
  then show ?thesis
    using assms by (cases js) (auto simp: return_five_insns_def Cons_eq_append_conv)
qed (use assms in simp)

theorem x86_detour_end_to_end_witness:
  "\<exists>d w1 d' w2. detour_new (x86_arch return_five_dec) demo_os 0x400020 0x400040
        (demo_world (x86_arch return_five_dec) return_five_mem) = Some (Ok d, w1)
     \<and> detour_enable (x86_arch return_five_dec) demo_os d w1 = (Ok (), d', w2)
     \<and> x86_runs_to (w_icache w2) 0x400020 0x400040
     \<and> code_at (w_icache w2) (em_ptr (d_trampoline d)) return_five_code
     \<and> x86_runs_to (w_icache w2) (em_ptr (d_trampoline d) + 5) 0x400025"
proof -
  let ?arch = "x86_arch return_five_dec :: u64 architecture"
  let ?d = "demo_detour return_five_patcher return_five_code"
  let ?w2 = "demo_enabled ?arch return_five_patcher (demo_created ?arch return_five_mem return_five_code)"
  let ?tr = "\<lparr>tramp_emitter = \<lparr>thunks = [VecThunk [0xB8, 5, 0, 0, 0], x86_jmp (0x400025 :: u64)]\<rparr>, tramp_prolog_size = 5\<rparr>"
  note new = return_five_new [OF return_five_tramp]
  have mem: "w_icache (demo_world ?arch return_five_mem) = w_mem (demo_world ?arch return_five_mem)"
    "w_mem (demo_world ?arch return_five_mem) = return_five_mem"
    by (simp_all add: demo_world_def)
  have stream: "stream_from 0x400020 (return_five_dec 64 (read_bytes (w_mem (demo_world ?arch return_five_mem)) 0x400020 20) 0x400020)"
    by (simp add: return_five_dec_def return_five_stream)
  note result = x86_detour_end_to_end [OF new return_five_enable mem(1) return_five_apart stream, unfolded mem(2)]
  then have reach: "x86_runs_to (w_icache ?w2) 0x400020 0x400040" by blast
  obtain tr used rest ts tail bytes where tr: "x86_trampoline_new return_five_dec return_five_mem 0x400020 5 = Ok tr"
    and parts: "return_five_dec 64 (read_bytes return_five_mem 0x400020 20) 0x400020 = used @ rest"
      "relocates 0x400020 5 (read_bytes return_five_mem 0x400020 20) 0 used ts"
      "thunks (tramp_emitter tr) = ts @ tail"
      "sum_list (map insn_len (butlast used)) < 5" "tramp_prolog_size tr = sum_list (map insn_len used)"
      "emit (tramp_emitter tr) (em_ptr (d_trampoline ?d)) = Ok bytes"
      "code_at (w_icache ?w2) (em_ptr (d_trampoline ?d)) bytes"
    and closing: "tail \<noteq> [] \<longrightarrow> x86_runs_to (w_icache ?w2)
        (em_ptr (d_trampoline ?d) + of_nat (sum_list (map thunk_len ts))) (0x400020 + of_nat (tramp_prolog_size tr))"
    using result by blast
  have tr_eq: "tr = ?tr" using tr return_five_tramp by simp
  have insns: "return_five_insns = used @ rest" using parts(1) by (simp add: return_five_dec_def)
  note parts = parts [unfolded tr_eq, simplified]
  note closing = closing [unfolded tr_eq, simplified]
  have "length ts = 1"
    using parts(2) return_five_prolog [OF insns parts(4,5)] by (cases ts; cases "tl ts") auto
  then have ts: "ts = [VecThunk [0xB8, 5, 0, 0, 0]]" "tail = [x86_jmp 0x400025]"
    using parts(3) by (auto simp: length_Suc_conv)
  moreover have "bytes = return_five_code"
    using parts(6) by (simp add: emit_def x86_jmp_def target_x86_64_def x64_jmp_abs_def return_five_code_def demo_detour_def)
  ultimately show ?thesis
    using new return_five_enable reach parts(7) closing by (intro exI conjI) simp_all
qed

section \<open>Whole detours on RISC-V, AArch64 and ARM\<close>

text \<open>
  C3: a RISC-V detour with a straight-line prolog, from \<^verbatim>\<open>Detour::new\<close> through \<^verbatim>\<open>enable\<close>, on a
  processor whose instruction cache is not coherent. A call of the target arrives at the detour,
  and a run of the trampoline computes what the first two instructions of the unpatched target
  computed, \<^verbatim>\<open>t1\<close> apart, and continues at the third. The scope: both instructions are immediate
  additions, \<^verbatim>\<open>AUIPC\<close> into a register other than x0, or word and doubleword loads of data the hook
  did not change (\<open>rv_plain\<close>, \<open>rv_loads_agree\<close>); branches, jumps and stores are excluded. The detour,
  or its relay, is at a distance the rounding of the upper immediate does not overflow
  (\<open>riscv_near\<close>); the last 0x800 bytes of the range, where the patch goes wrong, are excluded.
\<close>

theorem riscv_detour_end_to_end:
  fixes target detour :: u64
  assumes "detour_new (riscv_arch dbg) os target detour w = Some (Ok d, w1)"
    and "detour_enable (riscv_arch dbg) os' d w1 = (Ok (), d', w2)"
    and "w_icache w = w_mem w" "detour_apart d"
    and "riscv_near target (detour_entry d detour)" "\<not> bit target 0" "\<not> bit detour 0"
    and "rv_plain (fetch32 (w_mem w) target)" "rv_plain (fetch32 (w_mem w) (target + 4))"
    and "rv_mem o1 = w_mem w" "rv_pc o1 = target" "rv_run 2 o1 = Some o3"
    and "rv_loads_agree (w_icache w2) o1" "\<And>o2. rv_step o1 = Some o2 \<Longrightarrow> rv_loads_agree (w_icache w2) o2"
  shows "rv_runs_to (w_icache w2) target detour \<and> rv_pc o3 = target + 8
    \<and> (\<exists>n v. rv_run n \<lparr>rv_pc = em_ptr (d_trampoline d), rv_regs = rv_regs o1, rv_mem = w_icache w2\<rparr>
          = Some \<lparr>rv_pc = target + 8, rv_regs = (rv_regs o3)(6 := v), rv_mem = w_icache w2\<rparr>)"
proof -
  obtain tr code where reach: "rv_runs_to (w_icache w2) target detour"
    and tr: "riscv_trampoline_new (w_mem w) target 8 = Ok tr"
    and code: "emit (tramp_emitter tr) (em_ptr (d_trampoline d)) = Ok code"
      "code_at (w_icache w2) (em_ptr (d_trampoline d)) code"
    using riscv64.enabled_detour [OF assms(1-5)] assms(7)
    by (auto simp: riscv_arch_def riscv_prolog_margin_def)
  have "tramp_prolog_size tr = 8"
    using riscv_trampoline_straight [OF assms(8,9)] tr by auto
  moreover have "rv_xlen TYPE(64)" by (simp add: rv_xlen_def)
  note runs = riscv_trampoline_runs [OF this assms(6,8,9) tr code assms(10-14)]
  ultimately have pc: "rv_pc o3 = target + 8" using runs by simp
  have run: "\<exists>n v. rv_run n \<lparr>rv_pc = em_ptr (d_trampoline d), rv_regs = rv_regs o1, rv_mem = w_icache w2\<rparr>
          = Some \<lparr>rv_pc = rv_pc o3, rv_regs = (rv_regs o3)(6 := v), rv_mem = w_icache w2\<rparr>"
    using runs by (rule conjunct2)
  show ?thesis using run unfolding pc using reach by simp
qed

text \<open>\<^verbatim>\<open>addi a0, x0, 1; addi a0, a0, 2\<close> at 0x400020, hooked to 0x400820.\<close>

definition riscv_demo_mem :: "64 mem" where
  "riscv_demo_mem = write_bytes (\<lambda>_. 0) 0x400020 (u32_le 0x00100513 @ u32_le 0x00250513)"

definition riscv_demo_patcher :: "u64 patcher" where
  "riscv_demo_patcher = \<lparr>area_ptr = 0x400020, area_len = 8,
     original_prolog = read_bytes riscv_demo_mem 0x400020 8, detour_prolog = u32_le 0x1317 @ u32_le 0x80030067\<rparr>"

definition riscv_demo_code :: "u8 list" where
  "riscv_demo_code = u32_le 0x00100513 @ u32_le 0x00250513 @ jmp_abs_bytes 0 (0x400028 :: u64)"

lemma riscv_demo_fetch:
  "fetch32 riscv_demo_mem 0x400020 = 0x00100513" "fetch32 riscv_demo_mem (0x400020 + 4) = 0x00250513"
proof -
  have "code_at riscv_demo_mem 0x400020 (u32_le 0x00100513 @ u32_le 0x00250513)"
    unfolding riscv_demo_mem_def by (rule code_at_write_bytes) simp
  then show "fetch32 riscv_demo_mem 0x400020 = 0x00100513" "fetch32 riscv_demo_mem (0x400020 + 4) = 0x00250513"
    by (auto intro!: code_at_u32)
qed

lemma riscv_demo_straight:
  "rv_plain (fetch32 riscv_demo_mem 0x400020)" "rv_plain (fetch32 riscv_demo_mem (0x400020 + 4))"
  unfolding riscv_demo_fetch by (simp_all add: rv_plain_def)

lemma riscv_demo_new:
  "detour_new (riscv_arch True) demo_os 0x400020 0x400820 (demo_world (riscv_arch True) riscv_demo_mem)
    = Some (Ok (demo_detour riscv_demo_patcher riscv_demo_code), demo_created (riscv_arch True) riscv_demo_mem riscv_demo_code)"
proof (rule demo_new)
  let ?tr = "\<lparr>tramp_emitter = \<lparr>thunks = [VecThunk (u32_le 0x00100513), VecThunk (u32_le 0x00250513),
    riscv_jmp_abs (0x400028 :: u64)]\<rparr>, tramp_prolog_size = 8\<rparr>"
  show "make_trampoline (riscv_arch True) riscv_demo_mem 0x400020 (prolog_margin (riscv_arch True) 0x400020) = Ok ?tr"
    using riscv_trampoline_straight [OF riscv_demo_straight] unfolding riscv_demo_fetch
    by (simp add: straight_thunk_def riscv_arch_def riscv_prolog_margin_def)
  show "relay_builder (riscv_arch True) (0x400020 :: u64) 0x400820 = Ok None"
    by (simp add: riscv_arch_def riscv_relay_builder_def Let_def is_within_range_def riscv_DETOUR_RANGE_def)
  have "riscv_branch_bytes True (0x400020 :: u64) 0x400820 = Ok (u32_le 0x1317 @ u32_le 0x80030067)"
    by (simp add: riscv_branch_bytes_def Let_def i32_fits_def)
  then show "make_patcher (riscv_arch True) demo_query riscv_demo_mem 0x400020 0x400820 (tramp_prolog_size ?tr)
      = Ok riscv_demo_patcher"
    by (simp add: riscv_arch_def riscv_patcher_new_Ok riscv_patch_area_Ok riscv_demo_patcher_def)
  show "emit (tramp_emitter ?tr) 0x500000 = Ok riscv_demo_code"
    by (simp add: emit_def riscv_jmp_abs_def jmp_abs_rd_def riscv_demo_code_def)
  show "length riscv_demo_code < 0x1000" by (simp add: riscv_demo_code_def)
qed (simp_all add: in_range_def proximity_range_def thread_allocator_new_def saturating_sub_def saturating_add_def
    riscv_arch_def riscv_DETOUR_RANGE_def)

theorem riscv_detour_end_to_end_witness:
  "\<exists>d w1 d' w2. detour_new (riscv_arch True) demo_os 0x400020 0x400820 (demo_world (riscv_arch True) riscv_demo_mem) = Some (Ok d, w1)
     \<and> detour_enable (riscv_arch True) demo_os d w1 = (Ok (), d', w2)
     \<and> rv_runs_to (w_icache w2) 0x400020 0x400820
     \<and> (\<exists>n v. rv_run n \<lparr>rv_pc = em_ptr (d_trampoline d), rv_regs = (\<lambda>_. 0), rv_mem = w_icache w2\<rparr>
          = Some \<lparr>rv_pc = 0x400028, rv_regs = (\<lambda>_. 0)(10 := 3, 6 := v), rv_mem = w_icache w2\<rparr>)"
proof -
  let ?d = "demo_detour riscv_demo_patcher riscv_demo_code"
  let ?w1 = "demo_created (riscv_arch True) riscv_demo_mem riscv_demo_code"
  let ?w2 = "demo_enabled (riscv_arch True) riscv_demo_patcher ?w1"
  let ?o1 = "\<lparr>rv_pc = 0x400020, rv_regs = (\<lambda>_. 0), rv_mem = riscv_demo_mem\<rparr> :: u64 rv_cpu"
  let ?o2 = "\<lparr>rv_pc = 0x400024, rv_regs = (\<lambda>_. 0)(10 := 1), rv_mem = riscv_demo_mem\<rparr> :: u64 rv_cpu"
  let ?o3 = "\<lparr>rv_pc = 0x400028, rv_regs = (\<lambda>_. 0)(10 := 3), rv_mem = riscv_demo_mem\<rparr> :: u64 rv_cpu"
  have wf: "patcher_wf riscv_demo_patcher" by (simp add: riscv_demo_patcher_def patcher_wf_def)
  note enable = demo_enable [OF wf, where code = riscv_demo_code and arch = "riscv_arch True" and m = riscv_demo_mem]
  have apart: "detour_apart ?d"
    by (rule demo_apart) (simp_all add: riscv_demo_patcher_def riscv_demo_code_def)
  have near: "riscv_near 0x400020 (detour_entry ?d 0x400820)"
    by (simp add: riscv_near_def demo_detour_def detour_entry_def)
  have step1: "rv_step ?o1 = Some ?o2" and step2: "rv_step ?o2 = Some ?o3"
    using riscv_demo_fetch
    by (simp_all add: rv_step_def Let_def rv_set_def rv_get_def rv_rd_def rv_rs1_def rv_funct3_def rv_imm_i_def)
  have run: "rv_run 2 ?o1 = Some ?o3" using step1 step2 by (simp add: numeral_2_eq_2)
  have "rv_runs_to (w_icache ?w2) 0x400020 0x400820 \<and> rv_pc ?o3 = 0x400020 + 8
    \<and> (\<exists>n v. rv_run n \<lparr>rv_pc = em_ptr (d_trampoline ?d), rv_regs = rv_regs ?o1, rv_mem = w_icache ?w2\<rparr>
          = Some \<lparr>rv_pc = 0x400020 + 8, rv_regs = (rv_regs ?o3)(6 := v), rv_mem = w_icache ?w2\<rparr>)"
  proof (rule riscv_detour_end_to_end [OF riscv_demo_new enable _ apart near _ _ _ _ _ _ run])
    show "rv_loads_agree (w_icache ?w2) ?o1" using riscv_demo_fetch by (simp add: rv_loads_agree_def)
    show "rv_loads_agree (w_icache ?w2) o2" if "rv_step ?o1 = Some o2" for o2
      using that step1 riscv_demo_fetch by (auto simp: rv_loads_agree_def)
  qed (use riscv_demo_straight in \<open>simp_all add: bit_0\<close>)
  then have "rv_runs_to (w_icache ?w2) 0x400020 0x400820
    \<and> (\<exists>n v. rv_run n \<lparr>rv_pc = em_ptr (d_trampoline ?d), rv_regs = (\<lambda>_. 0), rv_mem = w_icache ?w2\<rparr>
          = Some \<lparr>rv_pc = 0x400028, rv_regs = (\<lambda>_. 0)(10 := 3, 6 := v), rv_mem = w_icache ?w2\<rparr>)"
    by simp
  then show ?thesis using riscv_demo_new enable by blast
qed

text \<open>
  C4: an AArch64 detour, likewise. A run of the trampoline continues where the first
  instruction of the unpatched target would have, with the same flags and registers, x16 and
  x17 apart; calls and \<^verbatim>\<open>B.cond\<close> are excluded.
\<close>

theorem a64_detour_end_to_end:
  assumes "detour_new (a64_arch dbg) os target detour w = Some (Ok d, w1)"
    and "detour_enable (a64_arch dbg) os' d w1 = (Ok (), d', w2)"
    and "w_icache w = w_mem w" "detour_apart d" "a64_near target (detour_entry d detour)"
    and "a64_pc o1 = target" "a64_mem o1 = w_mem w" "fetch32 (w_mem w) target = i"
    and "a64_step o1 = Some o2" "a64_pc o2 \<noteq> target" "a64_same_data (w_icache w2) o1 i"
    and "i AND 0xFC000000 \<noteq> 0x94000000" "i AND 0xFFFFFC1F \<noteq> 0xD63F0000" "i AND 0xFF000010 \<noteq> 0x54000000"
  shows "a64_runs_to (w_icache w2) target detour
    \<and> (\<exists>n u. a64_run n (o1\<lparr>a64_pc := em_ptr (d_trampoline d), a64_mem := w_icache w2\<rparr>) = Some u
        \<and> a64_pc u = a64_pc o2 \<and> a64_nzcv u = a64_nzcv o2 \<and> a64_same_regs (a64_regs u) (a64_regs o2)
        \<and> a64_mem u = w_icache w2)"
proof -
  obtain tr code where reach: "a64_runs_to (w_icache w2) target detour"
    and tr: "a64_trampoline_new (a64_mem o1) target 4 = Ok tr"
    and code: "emit (tramp_emitter tr) (em_ptr (d_trampoline d)) = Ok code"
      "code_at (w_icache w2) (em_ptr (d_trampoline d)) code"
    using a64.enabled_detour [OF assms(1-5)] assms(7)
    by (auto simp: a64_arch_def a64_prolog_margin_def)
  have fetch: "fetch32 (a64_mem o1) target = i" using assms(7,8) by simp
  show ?thesis
    using a64_trampoline_runs [OF assms(6) fetch assms(9,10,12,13,14) tr code assms(11)] reach by blast
qed

text \<open>\<^verbatim>\<open>cbz x0, .+0x100\<close> at 0x400020, hooked to 0x401020, called with a zero register.\<close>

definition a64_demo_mem :: "64 mem" where
  "a64_demo_mem = write_bytes (\<lambda>_. 0) 0x400020 (u32_le 0xB4000800)"

definition a64_demo_patcher :: "u64 patcher" where
  "a64_demo_patcher = \<lparr>area_ptr = 0x400020, area_len = 4,
     original_prolog = read_bytes a64_demo_mem 0x400020 4, detour_prolog = u32_le 0x14000400\<rparr>"

definition a64_demo_code :: "u8 list" where
  "a64_demo_code = u32_le 0xB50000A0 @ u32_le 0x58000050 @ u32_le 0xD61F0200 @ u64_le 0x400120
     @ u32_le 0x58000050 @ u32_le 0xD61F0200 @ u64_le 0x400024"

lemma a64_demo_fetch: "fetch32 a64_demo_mem 0x400020 = 0xB4000800"
  unfolding a64_demo_mem_def by (rule code_at_u32, rule code_at_write_bytes) simp

lemma a64_demo_imm: "a64_imm19 0xB4000800 = 0x100"
  by (simp add: a64_imm19_def)

lemma a64_demo_new:
  "detour_new (a64_arch True) demo_os 0x400020 0x401020 (demo_world (a64_arch True) a64_demo_mem)
    = Some (Ok (demo_detour a64_demo_patcher a64_demo_code), demo_created (a64_arch True) a64_demo_mem a64_demo_code)"
proof (rule demo_new)
  let ?t = "cbz_far 0 True False 0x400120" and ?b = "builder_new (0x400020 :: u64) 4"
  let ?tr = "\<lparr>tramp_emitter = \<lparr>thunks = [?t, a64_jmp_abs 0x400024]\<rparr>, tramp_prolog_size = 4\<rparr>"
  have "a64_process ?b 0xB4000800 0x400020 = Ok (?t, 20, ?b)"
    by (simp add: a64_process_def Let_def a64_imm_code [unfolded and_mask_take] a64_demo_imm in_range_def prolog_range_def
        sign_extend_bits_eq)
  then show "make_trampoline (a64_arch True) a64_demo_mem 0x400020 (prolog_margin (a64_arch True) 0x400020) = Ok ?tr"
    using a64_trampoline_4 [of "0x400020" a64_demo_mem ?t 20 ?b] a64_demo_fetch
    by (simp add: a64_arch_def a64_prolog_margin_def)
  show "relay_builder (a64_arch True) 0x400020 0x401020 = Ok None"
    by (simp add: a64_arch_def a64_relay_builder_def Let_def is_within_range_def a64_DETOUR_RANGE_def)
  have "a64_branch_bytes True 0x400020 0x401020 = Ok (u32_le 0x14000400)"
    by (simp add: a64_branch_bytes_def Let_def)
  then show "make_patcher (a64_arch True) demo_query a64_demo_mem 0x400020 0x401020 (tramp_prolog_size ?tr)
      = Ok a64_demo_patcher"
    by (simp add: a64_arch_def a64_patcher_new_Ok a64_patch_area_Ok a64_demo_patcher_def)
  show "emit (tramp_emitter ?tr) 0x500000 = Ok a64_demo_code"
    by (simp add: emit_def cbz_far_def Let_def a64_jmp_abs_def a64_demo_code_def)
  show "length a64_demo_code < 0x1000" by (simp add: a64_demo_code_def)
qed (simp_all add: in_range_def proximity_range_def thread_allocator_new_def saturating_sub_def saturating_add_def
    a64_arch_def a64_DETOUR_RANGE_def)

theorem a64_detour_end_to_end_witness:
  "let o1 = \<lparr>a64_pc = 0x400020, a64_regs = (\<lambda>_. 0),
         a64_nzcv = \<lparr>NF = False, ZF = False, CF = False, VF = False\<rparr>, a64_mem = a64_demo_mem\<rparr>
   in \<exists>d w1 d' w2. detour_new (a64_arch True) demo_os 0x400020 0x401020 (demo_world (a64_arch True) a64_demo_mem) = Some (Ok d, w1)
     \<and> detour_enable (a64_arch True) demo_os d w1 = (Ok (), d', w2)
     \<and> a64_runs_to (w_icache w2) 0x400020 0x401020
     \<and> (\<exists>n u. a64_run n (o1\<lparr>a64_pc := em_ptr (d_trampoline d), a64_mem := w_icache w2\<rparr>) = Some u
        \<and> a64_pc u = 0x400120 \<and> a64_same_regs (a64_regs u) (\<lambda>_. 0))"
proof -
  let ?o = "\<lparr>a64_pc = 0x400020, a64_regs = (\<lambda>_. 0),
         a64_nzcv = \<lparr>NF = False, ZF = False, CF = False, VF = False\<rparr>, a64_mem = a64_demo_mem\<rparr>"
  let ?d = "demo_detour a64_demo_patcher a64_demo_code"
  let ?w1 = "demo_created (a64_arch True) a64_demo_mem a64_demo_code"
  let ?w2 = "demo_enabled (a64_arch True) a64_demo_patcher ?w1"
  have wf: "patcher_wf a64_demo_patcher" by (simp add: a64_demo_patcher_def patcher_wf_def)
  note enable = demo_enable [OF wf, where code = a64_demo_code and arch = "a64_arch True" and m = a64_demo_mem]
  have apart: "detour_apart ?d"
    by (rule demo_apart) (simp_all add: a64_demo_patcher_def a64_demo_code_def)
  have near: "a64_near 0x400020 (detour_entry ?d 0x401020)"
    by (simp add: a64_near_def a64_relay_builder_def Let_def is_within_range_def a64_DETOUR_RANGE_def
        demo_detour_def detour_entry_def take_bit_eq_mod)
  have taken: "a64_cb_taken ?o 0xB4000800" by (simp add: a64_cb_taken_def a64_get_def)
  have step: "a64_step ?o = Some (?o\<lparr>a64_pc := 0x400120\<rparr>)"
    using a64_step_cb [of ?o "0xB4000800"] a64_demo_fetch taken by (simp add: a64_demo_imm a64_goto_def)
  have data: "a64_same_data (w_icache ?w2) ?o 0xB4000800" by (simp add: a64_same_data_def)
  have "a64_runs_to (w_icache ?w2) 0x400020 0x401020
    \<and> (\<exists>n u. a64_run n (?o\<lparr>a64_pc := em_ptr (d_trampoline ?d), a64_mem := w_icache ?w2\<rparr>) = Some u
        \<and> a64_pc u = a64_pc (?o\<lparr>a64_pc := 0x400120\<rparr>) \<and> a64_nzcv u = a64_nzcv (?o\<lparr>a64_pc := 0x400120\<rparr>)
        \<and> a64_same_regs (a64_regs u) (a64_regs (?o\<lparr>a64_pc := 0x400120\<rparr>)) \<and> a64_mem u = w_icache ?w2)"
    by (rule a64_detour_end_to_end [OF a64_demo_new enable _ apart near _ _ _ step _ data]) (simp_all add: a64_demo_fetch)
  then have "a64_runs_to (w_icache ?w2) 0x400020 0x401020
    \<and> (\<exists>n u. a64_run n (?o\<lparr>a64_pc := em_ptr (d_trampoline ?d), a64_mem := w_icache ?w2\<rparr>) = Some u
        \<and> a64_pc u = 0x400120 \<and> a64_same_regs (a64_regs u) (\<lambda>_. 0))"
    by auto
  then show ?thesis unfolding Let_def using a64_demo_new enable by blast
qed

text \<open>
  C5: an ARM detour with a straight-line prolog, likewise: a run of the trampoline computes what
  the first two instructions of the unpatched target computed, whatever their conditions, and
  continues at the third. The scope (\<open>arm_straight\<close>): both instructions are conditional or
  unconditional moves of a register or an immediate, additions or subtractions of an immediate,
  none of them with the program counter, or \<^verbatim>\<open>NOP\<close>. Loads, stores, branches, calls and every other
  instruction are excluded; some of these the builder relocates wrongly, as other lemmas show. All
  addresses are aligned to words.
\<close>

theorem arm_detour_end_to_end:
  assumes "detour_new arm_arch os target detour w = Some (Ok d, w1)"
    and "detour_enable arm_arch os' d w1 = (Ok (), d', w2)"
    and "w_icache w = w_mem w" "detour_apart d"
    and "target AND 3 = 0" "detour AND 3 = 0" "em_ptr (d_trampoline d) AND 3 = 0"
    and "arm_straight (fetch32 (w_mem w) target)" "arm_straight (fetch32 (w_mem w) (target + 4))"
    and "arm_mem o1 = w_mem w" "arm_pc o1 = target" "arm_run 2 o1 = Some o3"
  shows "arm_runs_to (w_icache w2) target detour \<and> arm_pc o3 = target + 8
    \<and> (\<exists>n. arm_run n (o1\<lparr>arm_pc := em_ptr (d_trampoline d), arm_mem := w_icache w2\<rparr>)
          = Some (o3\<lparr>arm_mem := w_icache w2\<rparr>))"
proof -
  have "d_relay d = None"
    by (rule detour_new_Ok [OF assms(1)]) (auto simp: arm_arch_def arm_relay_builder_def)
  then have near: "arm_aligned target (detour_entry d detour)"
    using assms(5,6) by (simp add: detour_entry_def arm_aligned_def)
  obtain tr code where reach: "arm_runs_to (w_icache w2) target detour"
    and tr: "arm_trampoline_new (w_mem w) target 8 = Ok tr"
    and code: "emit (tramp_emitter tr) (em_ptr (d_trampoline d)) = Ok code"
      "code_at (w_icache w2) (em_ptr (d_trampoline d)) code"
    using arm.enabled_detour [OF assms(1-4) near] by (auto simp: arm_arch_def arm_prolog_margin_def)
  show ?thesis
    using arm_trampoline_runs [OF _ _ _ code assms(7,11,12)] reach tr assms(8-10) by simp
qed

text \<open>\<^verbatim>\<open>movne r0, #1; add r0, r0, #2\<close> at 0x400020, hooked to 0x400820, called with Z clear.\<close>

definition arm_demo_mem :: "32 mem" where
  "arm_demo_mem = write_bytes (\<lambda>_. 0) 0x400020 (u32_le 0x13A00001 @ u32_le 0xE2800002)"

definition arm_demo_patcher :: "u32 patcher" where
  "arm_demo_patcher = \<lparr>area_ptr = 0x400020, area_len = 8,
     original_prolog = read_bytes arm_demo_mem 0x400020 8, detour_prolog = u32_le 0xE51FF004 @ u32_le 0x400820\<rparr>"

definition arm_demo_code :: "u8 list" where
  "arm_demo_code = u32_le 0x13A00001 @ u32_le 0xE2800002 @ u32_le 0xE51FF004 @ u32_le 0x400028"

lemma arm_demo_fetch:
  "fetch32 arm_demo_mem 0x400020 = 0x13A00001" "fetch32 arm_demo_mem (0x400020 + 4) = 0xE2800002"
proof -
  have "code_at arm_demo_mem 0x400020 (u32_le 0x13A00001 @ u32_le 0xE2800002)"
    unfolding arm_demo_mem_def by (rule code_at_write_bytes) simp
  then show "fetch32 arm_demo_mem 0x400020 = 0x13A00001" "fetch32 arm_demo_mem (0x400020 + 4) = 0xE2800002"
    by (auto intro!: code_at_u32)
qed

lemma arm_demo_straight:
  "arm_straight (fetch32 arm_demo_mem 0x400020)" "arm_straight (fetch32 arm_demo_mem (0x400020 + 4))"
  unfolding arm_demo_fetch by (simp_all add: arm_straight_def arm_rd_def arm_rn_def)

lemma arm_demo_new:
  "detour_new arm_arch demo_os 0x400020 0x400820 (demo_world arm_arch arm_demo_mem)
    = Some (Ok (demo_detour arm_demo_patcher arm_demo_code), demo_created arm_arch arm_demo_mem arm_demo_code)"
proof (rule demo_new_32)
  let ?tr = "\<lparr>tramp_emitter = \<lparr>thunks = [VecThunk (u32_le 0x13A00001), VecThunk (u32_le 0xE2800002),
    arm_jmp_abs 0x400028]\<rparr>, tramp_prolog_size = 8\<rparr>"
  show "make_trampoline arm_arch arm_demo_mem 0x400020 (prolog_margin arm_arch 0x400020) = Ok ?tr"
    using arm_trampoline_straight [OF arm_demo_straight] unfolding arm_demo_fetch
    by (simp add: arm_arch_def arm_prolog_margin_def)
  show "relay_builder arm_arch 0x400020 0x400820 = Ok None" by (simp add: arm_arch_def arm_relay_builder_def)
  show "make_patcher arm_arch demo_query arm_demo_mem 0x400020 0x400820 (tramp_prolog_size ?tr) = Ok arm_demo_patcher"
    by (simp add: arm_arch_def arm_patcher_new_Ok arm_patch_area_Ok arm_demo_patcher_def)
  show "emit (tramp_emitter ?tr) 0x500000 = Ok arm_demo_code"
    by (simp add: emit_def arm_jmp_abs_def arm_demo_code_def)
  show "length arm_demo_code < 0x1000" by (simp add: arm_demo_code_def)
qed (simp_all add: in_range_def proximity_range_def thread_allocator_new_def saturating_sub_def saturating_add_def
    arm_arch_def arm_DETOUR_RANGE_def)

lemma arm_demo_wf: "patcher_wf arm_demo_patcher"
  by (simp add: arm_demo_patcher_def patcher_wf_def)

lemmas arm_demo_enable =
  demo_enable [OF arm_demo_wf, where code = arm_demo_code and arch = arm_arch and m = arm_demo_mem]

lemma arm_demo_apart: "detour_apart (demo_detour arm_demo_patcher arm_demo_code)"
  by (rule demo_apart_32) (simp_all add: arm_demo_patcher_def arm_demo_code_def)

theorem arm_detour_end_to_end_witness:
  "let flags = \<lparr>arm_NF = False, arm_ZF = False, arm_CF = False, arm_VF = False\<rparr>
   in \<exists>d w1 d' w2. detour_new arm_arch demo_os 0x400020 0x400820 (demo_world arm_arch arm_demo_mem) = Some (Ok d, w1)
     \<and> detour_enable arm_arch demo_os d w1 = (Ok (), d', w2) \<and> arm_runs_to (w_icache w2) 0x400020 0x400820
     \<and> (\<exists>n. arm_run n \<lparr>arm_pc = 0x500000, arm_regs = (\<lambda>_. 0), arm_nzcv = flags, arm_mem = w_icache w2\<rparr>
          = Some \<lparr>arm_pc = 0x400028, arm_regs = (\<lambda>_. 0)(0 := 3), arm_nzcv = flags, arm_mem = w_icache w2\<rparr>)"
proof -
  let ?f = "\<lparr>arm_NF = False, arm_ZF = False, arm_CF = False, arm_VF = False\<rparr>"
  let ?d = "demo_detour arm_demo_patcher arm_demo_code"
  let ?w2 = "demo_enabled arm_arch arm_demo_patcher (demo_created arm_arch arm_demo_mem arm_demo_code)"
  let ?o1 = "\<lparr>arm_pc = 0x400020, arm_regs = (\<lambda>_. 0), arm_nzcv = ?f, arm_mem = arm_demo_mem\<rparr>"
  let ?o2 = "\<lparr>arm_pc = 0x400024, arm_regs = (\<lambda>_. 0)(0 := 1), arm_nzcv = ?f, arm_mem = arm_demo_mem\<rparr>"
  let ?o3 = "\<lparr>arm_pc = 0x400028, arm_regs = (\<lambda>_. 0)(0 := 3), arm_nzcv = ?f, arm_mem = arm_demo_mem\<rparr>"
  have rotr_0: "word_rotr 0 w = (w :: u32)" for w by (rule bit_word_eqI) (simp add: bit_word_rotr_iff)
  have "arm_step ?o1 = Some ?o2"
    using arm_demo_fetch rotr_0
    by (simp add: arm_step_def Let_def arm_cond_def arm_exec_def arm_set_def arm_rd_def arm_imm8_def bit_0)
  moreover have "arm_step ?o2 = Some ?o3"
    using arm_demo_fetch rotr_0
    by (simp add: arm_step_def Let_def arm_cond_def arm_exec_def arm_set_def arm_rd_def arm_rn_def
        arm_get_def arm_imm8_def bit_0)
  ultimately have run: "arm_run 2 ?o1 = Some ?o3" by (simp add: numeral_2_eq_2)
  have "arm_runs_to (w_icache ?w2) 0x400020 0x400820 \<and> arm_pc ?o3 = 0x400020 + 8
    \<and> (\<exists>n. arm_run n (?o1\<lparr>arm_pc := em_ptr (d_trampoline ?d), arm_mem := w_icache ?w2\<rparr>)
          = Some (?o3\<lparr>arm_mem := w_icache ?w2\<rparr>))"
    using arm_demo_straight
    by (intro arm_detour_end_to_end [OF arm_demo_new arm_demo_enable _ arm_demo_apart _ _ _ _ _ _ _ run])
      (simp_all add: demo_detour_def)
  then have "arm_runs_to (w_icache ?w2) 0x400020 0x400820
    \<and> (\<exists>n. arm_run n \<lparr>arm_pc = 0x500000, arm_regs = (\<lambda>_. 0), arm_nzcv = ?f, arm_mem = w_icache ?w2\<rparr>
          = Some \<lparr>arm_pc = 0x400028, arm_regs = (\<lambda>_. 0)(0 := 3), arm_nzcv = ?f, arm_mem = w_icache ?w2\<rparr>)"
    by (simp add: demo_detour_def)
  then show ?thesis unfolding Let_def using arm_demo_new arm_demo_enable by blast
qed

section \<open>Many detours at once\<close>

text \<open>
  C1: in every state a client can reach by creating, toggling and dropping detours, in any
  order and with any outcome of the system calls, both sides of the processor see the hook of a
  detour exactly if its flag says it is enabled, and the original bytes otherwise.
\<close>

theorem hooks_fit_flags:
  fixes arch :: "u64 architecture"
  assumes "arch \<in> {x86_arch dec, a64_arch dbg, riscv_arch dbg}"
    and "session_reach arch w0 (ds, w)" "icache_ok arch w0" "d \<in> set ds"
  shows "code_at (w_mem w) (area_ptr (d_patcher d))
      (if detour_is_enabled d then detour_prolog (d_patcher d) else original_prolog (d_patcher d))
    \<and> code_at (w_icache w) (area_ptr (d_patcher d))
      (if detour_is_enabled d then detour_prolog (d_patcher d) else original_prolog (d_patcher d))"
proof -
  have "session_inv arch (ds, w)"
    using assms(1) x86_64.session_reach_inv [of dec w0 "(ds, w)"] a64.session_reach_inv [of dbg w0 "(ds, w)"]
      riscv64.session_reach_inv [of dbg w0 "(ds, w)"] assms(2,3) by auto
  then show ?thesis
    using assms(4) by (simp add: session_inv_def area_ok_def area_code_def detour_is_enabled_def)
qed

lemma demo_session:
  fixes arch :: "('u::len word) architecture"
  assumes "detour_new arch demo_os target detour (demo_world arch m) = Some (Ok (demo_detour p code), demo_created arch m code)"
    and "patcher_wf p" "detour_apart (demo_detour p code)"
  shows "session_reach arch (demo_world arch m)
     ([(demo_detour p code)\<lparr>d_enabled := True\<rparr>], demo_enabled arch p (demo_created arch m code))"
proof -
  let ?d = "demo_detour p code" and ?w0 = "demo_world arch m" and ?w1 = "demo_created arch m code"
  have "session_step arch ([], ?w0) ([] @ [?d], ?w1)"
    using assms(3) by (intro session_step.create [OF assms(1)]) (simp_all add: area_fetched_def detour_apart_def)
  then have "session_step arch ([], ?w0) ([?d], ?w1)" by simp
  then have reach: "session_reach arch ?w0 ([?d], ?w1)" by (rule session_reach.step [OF session_reach.start])
  have "detour_toggle arch demo_os True ([?d] ! 0) ?w1 = (Ok (), ?d\<lparr>d_enabled := True\<rparr>, demo_enabled arch p ?w1)"
    using demo_enable [OF assms(2), where code = code and arch = arch and m = m] by (simp add: detour_enable_def)
  from session_step.toggle [OF _ this] session_reach.step [OF reach] show ?thesis by fastforce
qed

lemma riscv_demo_wf: "patcher_wf riscv_demo_patcher"
  by (simp add: riscv_demo_patcher_def patcher_wf_def)

lemma riscv_demo_apart: "detour_apart (demo_detour riscv_demo_patcher riscv_demo_code)"
  by (rule demo_apart) (simp_all add: riscv_demo_patcher_def riscv_demo_code_def)

lemmas riscv_demo_session = demo_session [OF riscv_demo_new riscv_demo_wf riscv_demo_apart]

theorem hooks_fit_flags_witness:
  "let w = demo_enabled (riscv_arch True) riscv_demo_patcher (demo_created (riscv_arch True) riscv_demo_mem riscv_demo_code)
   in code_at (w_mem w) 0x400020 (u32_le 0x1317 @ u32_le 0x80030067)
    \<and> code_at (w_icache w) 0x400020 (u32_le 0x1317 @ u32_le 0x80030067)"
  unfolding Let_def
  using hooks_fit_flags [OF _ riscv_demo_session, where dbg = True
      and d = "(demo_detour riscv_demo_patcher riscv_demo_code)\<lparr>d_enabled := True\<rparr>"]
  by (simp add: icache_ok_def detour_is_enabled_def demo_detour_def riscv_demo_patcher_def)

text \<open>C11: the same for the 32-bit targets: x86, riscv32 and ARM.\<close>

theorem hooks_fit_flags_32:
  fixes arch :: "u32 architecture"
  assumes "arch \<in> {x86_arch dec, arm_arch, riscv_arch dbg}"
    and "session_reach arch w0 (ds, w)" "icache_ok arch w0" "d \<in> set ds"
  shows "code_at (w_mem w) (area_ptr (d_patcher d))
      (if detour_is_enabled d then detour_prolog (d_patcher d) else original_prolog (d_patcher d))
    \<and> code_at (w_icache w) (area_ptr (d_patcher d))
      (if detour_is_enabled d then detour_prolog (d_patcher d) else original_prolog (d_patcher d))"
proof -
  have "session_inv arch (ds, w)"
    using assms(1) x86_32.session_reach_inv [of dec w0 "(ds, w)"] arm.session_reach_inv [of w0 "(ds, w)"]
      riscv32.session_reach_inv [of dbg w0 "(ds, w)"] assms(2,3) by auto
  then show ?thesis
    using assms(4) by (simp add: session_inv_def area_ok_def area_code_def detour_is_enabled_def)
qed

theorem hooks_fit_flags_32_witness:
  "let w = demo_enabled arm_arch arm_demo_patcher (demo_created arm_arch arm_demo_mem arm_demo_code)
   in code_at (w_mem w) 0x400020 (u32_le 0xE51FF004 @ u32_le 0x400820)
    \<and> code_at (w_icache w) 0x400020 (u32_le 0xE51FF004 @ u32_le 0x400820)"
  unfolding Let_def
  using hooks_fit_flags_32 [OF _ demo_session [OF arm_demo_new arm_demo_wf arm_demo_apart],
      where d = "(demo_detour arm_demo_patcher arm_demo_code)\<lparr>d_enabled := True\<rparr>"]
  by (simp add: icache_ok_def detour_is_enabled_def demo_detour_def arm_demo_patcher_def)

section \<open>Examples for single operations\<close>

theorem detour_new_spares_code_witness:
  "icache_ok (riscv_arch True) (demo_created (riscv_arch True) riscv_demo_mem riscv_demo_code)
    \<and> (\<exists>ems. handed_out demo_os 0x400020 (demo_world (riscv_arch True) riscv_demo_mem) ems
       \<and> changes_only ems (demo_world (riscv_arch True) riscv_demo_mem)
            (demo_created (riscv_arch True) riscv_demo_mem riscv_demo_code)
       \<and> (\<forall>d. Ok (demo_detour riscv_demo_patcher riscv_demo_code) = Ok d \<longrightarrow> ems = d_chunks d \<and> \<not> d_enabled d))"
  by (rule detour_new_spares_code [OF riscv_demo_new]) (simp add: icache_ok_def)

lemma riscv_demo_area_ok:
  "area_ok (demo_created (riscv_arch True) riscv_demo_mem riscv_demo_code) (demo_detour riscv_demo_patcher riscv_demo_code)"
proof (rule riscv64.new_area_ok [OF riscv_demo_new])
  have "detour_apart (demo_detour riscv_demo_patcher riscv_demo_code)"
    by (rule demo_apart) (simp_all add: riscv_demo_patcher_def riscv_demo_code_def)
  then show "\<forall>em \<in> set (d_chunks (demo_detour riscv_demo_patcher riscv_demo_code)).
      chunk_apart em (d_patcher (demo_detour riscv_demo_patcher riscv_demo_code))"
    by (simp add: detour_apart_def)
qed (simp_all add: icache_ok_def area_fetched_def)

lemma riscv_demo_icache_ok: "icache_ok (riscv_arch True) w"
  by (simp add: icache_ok_def riscv_arch_def)

lemmas riscv_demo_enable =
  demo_enable [OF riscv_demo_wf, where code = riscv_demo_code and arch = "riscv_arch True" and m = riscv_demo_mem]

theorem detour_toggle_round_trip_witness:
  "let w = demo_created (riscv_arch True) riscv_demo_mem riscv_demo_code;
       d = demo_detour riscv_demo_patcher riscv_demo_code
   in detour_disable (riscv_arch True) demo_os (d\<lparr>d_enabled := True\<rparr>) (demo_enabled (riscv_arch True) riscv_demo_patcher w)
      = (Ok (), d, w)"
proof -
  let ?d = "demo_detour riscv_demo_patcher riscv_demo_code" and ?arch = "riscv_arch True :: u64 architecture"
  let ?w2 = "demo_enabled ?arch riscv_demo_patcher (demo_created ?arch riscv_demo_mem riscv_demo_code)"
  obtain r d2 w2 where off: "detour_disable ?arch demo_os (?d\<lparr>d_enabled := True\<rparr>) ?w2 = (r, d2, w2)"
    by (metis prod_cases3)
  have "patcher_wf (d_patcher (?d\<lparr>d_enabled := True\<rparr>))" using riscv_demo_wf by (simp add: demo_detour_def)
  then have "r = Ok ()"
    using off by (simp add: detour_disable_def detour_toggle_wf demo_enabled_def) (simp add: demo_os_def)
  with off show ?thesis
    unfolding Let_def
    using detour_toggle_round_trip [OF riscv_demo_area_ok riscv_demo_icache_ok _ riscv_demo_enable, of demo_os d2 w2]
    by (simp add: demo_detour_def)
qed

text \<open>A release build drops an enabled detour: the branch to 0x400820 stays.\<close>

theorem drop_restores_in_debug_only_witness:
  "let w = demo_enabled (riscv_arch True) riscv_demo_patcher (demo_created (riscv_arch True) riscv_demo_mem riscv_demo_code);
       d = (demo_detour riscv_demo_patcher riscv_demo_code)\<lparr>d_enabled := True\<rparr>
   in \<exists>w'. detour_drop (riscv_arch True) (demo_os\<lparr>os_dbg := False\<rparr>) d w = (Ok (), w')
      \<and> code_at (w_icache w') 0x400020 (u32_le 0x1317 @ u32_le 0x80030067)"
proof -
  let ?arch = "riscv_arch True :: u64 architecture"
  let ?w1 = "demo_created ?arch riscv_demo_mem riscv_demo_code"
  let ?w = "demo_enabled ?arch riscv_demo_patcher ?w1"
  let ?d = "(demo_detour riscv_demo_patcher riscv_demo_code)\<lparr>d_enabled := True\<rparr>"
  have on: "detour_toggle ?arch demo_os True (demo_detour riscv_demo_patcher riscv_demo_code) ?w1 = (Ok (), ?d, ?w)"
    using riscv_demo_enable by (simp add: detour_enable_def)
  have ok: "area_ok ?w ?d"
    using detour_toggle_area_ok [OF riscv_demo_area_ok riscv_demo_icache_ok on] by simp
  have "w_alloc ?w = \<lparr>max_distance = 0x7FFFFFFF, pools = [(0x500000, 28, 28)]\<rparr>"
    by (simp add: demo_enabled_def demo_created_def riscv_arch_def riscv_DETOUR_RANGE_def riscv_demo_code_def)
  then obtain w' where drop: "detour_drop ?arch (demo_os\<lparr>os_dbg := False\<rparr>) ?d ?w = (Ok (), w')"
    by (simp add: detour_drop_def drop_fields_def drop_memory_def demo_detour_def executable_memory_drop_def
        proximity_release_def demo_os_def bump_ops_def pool_holds_def in_range_def)
  show ?thesis
    unfolding Let_def
    using drop_restores_in_debug_only [OF ok riscv_demo_icache_ok drop] drop
    by (simp add: demo_detour_def riscv_demo_patcher_def)
qed

theorem detour_new_returns_witness:
  "\<exists>r w'. detour_new (x86_arch (\<lambda>_ _ _. return_five_insns)) demo_os 0x400020 0x400040
     (demo_world (x86_arch (\<lambda>_ _ _. return_five_insns)) return_five_mem) = Some (r, w')"
proof (rule detour_new_returns)
  show "\<forall>ps. query_covers (os_query (demo_os :: (u64, u64 \<times> nat \<times> nat) os) ps)" "0 < os_page (demo_os :: (u64, u64 \<times> nat \<times> nat) os)"
    using demo_env_covers by (simp_all add: demo_os_def demo_env_def)
qed (simp add: demo_world_def initial_pool_def thread_allocator_new_def x86_arch_def x86_DETOUR_RANGE_def
    saturating_add_def demo_os_def)

text \<open>A target 2 GiB behind its detour: the gap in the relay decision, met by a whole process.\<close>

definition gap_os :: "(u64, u64 \<times> nat \<times> nat) os" where
  "gap_os = demo_os\<lparr>os_query := \<lambda>_ _. Inr \<lparr>lower = 0, upper = - 1, region_protection = [READ, EXECUTE]\<rparr>\<rparr>"

theorem new_panic_poisons_witness:
  "let arch = x86_arch (\<lambda>_ _ _. []); w = demo_world arch (\<lambda>_. 0x90)
   in \<exists>w'. detour_new arch gap_os 0x7FFF80000000 0x7FFF00000001 w = Some (Panic, w')
      \<and> detour_toggle arch demo_os True (demo_detour return_five_patcher return_five_code) w'
          = (Panic, demo_detour return_five_patcher return_five_code, w')
      \<and> detour_new arch demo_os 0x400020 0x400040 w' = Some (Panic, w')"
proof -
  let ?arch = "x86_arch (\<lambda>_ _ _. []) :: u64 architecture"
  let ?w = "demo_world ?arch (\<lambda>_. 0x90)"
  have relay: "x86_relay_builder (0x7FFF80000000 :: u64) 0x7FFF00000001 = Ok None"
    by (simp add: x86_relay_builder_def Let_def is_within_range_def x86_DETOUR_RANGE_def)
  have "x86_patch_area q (\<lambda>_. 0x90) (0x7FFF80000000 :: u64) 0 = Ok (0x7FFF80000000, 5)" for q
    by (simp add: x86_patch_area_Ok x86_is_patchable_def x86_is_code_padding_def list_all_length)
  moreover have "emit (x86_hook_template 0x7FFF00000001 5) (0x7FFF80000000 :: u64) = Panic"
    by (simp add: emit_hook_5 jmp_rel32_def relative32_def fixed_thunk_new_def calculate_displacement_cases
      target_x86_64_def clone_from_slice_def size_of_JumpRel_def is_within_range_def x86_DETOUR_RANGE_def)
  ultimately have patcher: "x86_patcher_new q (\<lambda>_. 0x90) (0x7FFF80000000 :: u64) 0x7FFF00000001 0 = Panic" for q
    by (simp add: x86_patcher_new_def)
  obtain w' where new: "detour_new ?arch gap_os 0x7FFF80000000 0x7FFF00000001 ?w = Some (Panic, w')"
    using relay patcher
    by (simp add: detour_new_def detour_new_locked_def both_executable_def gap_os_def is_executable_address_def
        x86_arch_def x86_trampoline_new_def x86_build_def Let_def detour_finish_def unwind_def drop_memory_def poison_def)
  have clean: "\<not> w_poisoned ?w" by simp
  show ?thesis
    unfolding Let_def
    using new new_panic_poisons [OF new clean, of demo_os True "demo_detour return_five_patcher return_five_code"]
      new_panic_poisons [OF new clean, of _ _ _ "0x400020" "0x400040"] by auto
qed

end
