(* ===== verification/Static_Detour.thy ===== *)
theory Static_Detour
  imports Detour_Front
begin

text \<open>
  \<^verbatim>\<open>src/detours/statik.rs\<close>: one static detour, its two atomic pointers and the boxes they point
  to. The operations are translated twice: as the calls a single thread makes, and as the
  atomic steps many threads interleave.
\<close>

section \<open>State\<close>

text \<open>The two \<^verbatim>\<open>AtomicPtr\<close> fields (null is \<open>None\<close>) and the function the macro generates.\<close>

record ('t, 'a) static_detour =
  sd_closure :: "nat option"
  sd_detour :: "nat option"
  sd_ffi :: "('t, 'a) fn_ptr"

text \<open>The static, the boxes that are alive, and the rest of the process.\<close>

record ('t, 'a, 'p, 'c) process = "('t, 'a) static_detour" +
  heap_closures :: "nat \<rightharpoonup> 'c"
  heap_detours :: "nat \<rightharpoonup> ('t, 'a) generic_detour"
  heap_next :: nat
  pr_world :: "('a, 'p) world"

definition static_new :: "('t, 'u::len word) fn_ptr \<Rightarrow> ('t, 'u word) static_detour" where
  "static_new ffi = \<lparr>sd_closure = None, sd_detour = None, sd_ffi = ffi\<rparr>"

definition process_new :: "('t, 'u::len word) fn_ptr \<Rightarrow> ('u word, 'p) world \<Rightarrow> ('t, 'u word, 'p, 'c) process" where
  "process_new ffi w = static_detour.extend (static_new ffi) (process.fields Map.empty Map.empty 0 w)"

lemma process_new_simps [simp]:
  "sd_closure (process_new ffi w) = None" "sd_detour (process_new ffi w) = None"
  "sd_ffi (process_new ffi w) = ffi" "heap_closures (process_new ffi w) = Map.empty"
  "heap_detours (process_new ffi w) = Map.empty" "heap_next (process_new ffi w) = 0"
  "pr_world (process_new ffi w) = w"
  by (simp_all add: process_new_def static_new_def static_detour.extend_def process.fields_def)

text \<open>
  A call returns (possibly with a panic), does not return, or uses a pointer to a box that has
  been freed. Dropping a closure runs code of the client: \<open>dropc\<close> says whether it panics.
\<close>

datatype 'x outcome = Returns 'x | Diverges | Dangling

section \<open>Atomic operations\<close>

definition box_detour ::
  "('t, 'u::len word) generic_detour \<Rightarrow> ('t, 'u word, 'p, 'c) process \<Rightarrow> nat \<times> ('t, 'u word, 'p, 'c) process" where
  "box_detour g s =
     (heap_next s, s\<lparr>heap_detours := (heap_detours s)(heap_next s \<mapsto> g), heap_next := Suc (heap_next s)\<rparr>)"

definition cas_detour :: "nat \<Rightarrow> ('t, 'u::len word, 'p, 'c) process \<Rightarrow> bool \<times> ('t, 'u word, 'p, 'c) process" where
  "cas_detour p s = (if sd_detour s = None then (True, s\<lparr>sd_detour := Some p\<rparr>) else (False, s))"

definition swap_closure ::
  "'c \<Rightarrow> ('t, 'u::len word, 'p, 'c) process \<Rightarrow> nat option \<times> ('t, 'u word, 'p, 'c) process" where
  "swap_closure c s =
     (sd_closure s, s\<lparr>heap_closures := (heap_closures s)(heap_next s \<mapsto> c), heap_next := Suc (heap_next s),
        sd_closure := Some (heap_next s)\<rparr>)"

definition free_closure ::
  "('c \<Rightarrow> unit res) \<Rightarrow> nat option \<Rightarrow> ('t, 'u::len word, 'p, 'c) process
     \<Rightarrow> (unit res \<times> ('t, 'u word, 'p, 'c) process) outcome" where
  "free_closure dropc previous s =
     (case previous of
        None \<Rightarrow> Returns (Ok (), s)
      | Some p \<Rightarrow>
          (case heap_closures s p of
             None \<Rightarrow> Dangling
           | Some c \<Rightarrow> Returns (dropc c, s\<lparr>heap_closures := (heap_closures s)(p := None)\<rparr>)))"

definition free_detour ::
  "('u::len word) architecture \<Rightarrow> ('u word, 'p) os \<Rightarrow> nat \<Rightarrow> ('t, 'u word, 'p, 'c) process
     \<Rightarrow> (unit res \<times> ('t, 'u word, 'p, 'c) process) outcome" where
  "free_detour arch os p s =
     (case heap_detours s p of
        None \<Rightarrow> Dangling
      | Some g \<Rightarrow>
          (let (r, w) = detour_drop arch os (gd_detour g) (pr_world s) in
           Returns (r, s\<lparr>heap_detours := (heap_detours s)(p := None), pr_world := w\<rparr>)))"

definition toggle_at ::
  "('u::len word) architecture \<Rightarrow> ('u word, 'p) os \<Rightarrow> bool \<Rightarrow> nat \<Rightarrow> ('t, 'u word, 'p, 'c) process
     \<Rightarrow> (unit res \<times> ('t, 'u word, 'p, 'c) process) outcome" where
  "toggle_at arch os enabled p s =
     (case heap_detours s p of
        None \<Rightarrow> Dangling
      | Some g \<Rightarrow>
          (let (r, g, w) = (if enabled then generic_enable arch os g (pr_world s)
                            else generic_disable arch os g (pr_world s)) in
           Returns (r, s\<lparr>heap_detours := (heap_detours s)(p \<mapsto> g), pr_world := w\<rparr>)))"

text \<open>A closure that was passed by value is dropped when its owner returns without storing it.\<close>

definition drop_arg :: "('c \<Rightarrow> unit res) \<Rightarrow> 'c \<Rightarrow> 'x res \<Rightarrow> 'x res" where
  "drop_arg dropc c r = (case dropc c of Ok _ \<Rightarrow> r | _ \<Rightarrow> Panic)"

section \<open>The operations\<close>

definition static_set_detour ::
  "('c \<Rightarrow> unit res) \<Rightarrow> 'c \<Rightarrow> ('t, 'u::len word, 'p, 'c) process \<Rightarrow> (unit res \<times> ('t, 'u word, 'p, 'c) process) outcome" where
  "static_set_detour dropc c s = (let (previous, s) = swap_closure c s in free_closure dropc previous s)"

definition static_initialize ::
  "('c \<Rightarrow> unit res) \<Rightarrow> ('u::len word) architecture \<Rightarrow> ('u word, 'p) os \<Rightarrow> ('t, 'u word) fn_ptr \<Rightarrow> 'c
     \<Rightarrow> ('t, 'u word, 'p, 'c) process \<Rightarrow> (unit res \<times> ('t, 'u word, 'p, 'c) process) outcome" where
  "static_initialize dropc arch os target c s =
     (case generic_new arch os target (sd_ffi s) (pr_world s) of
        None \<Rightarrow> Diverges
      | Some (Err e, w) \<Rightarrow> Returns (drop_arg dropc c (Err e), s\<lparr>pr_world := w\<rparr>)
      | Some (Panic, w) \<Rightarrow> Returns (Panic, s\<lparr>pr_world := w\<rparr>)
      | Some (Ok g, w) \<Rightarrow>
          (let (p, s) = box_detour g (s\<lparr>pr_world := w\<rparr>);
               (won, s) = cas_detour p s in
           if \<not> won then
             (case free_detour arch os p s of
                Returns (r, s) \<Rightarrow> Returns (drop_arg dropc c (res_bind r (\<lambda>_. Err AlreadyInitialized)), s)
              | Diverges \<Rightarrow> Diverges
              | Dangling \<Rightarrow> Dangling)
           else
             (case static_set_detour dropc c s of
                Returns (Ok _, s) \<Rightarrow> Returns (Ok (), s)
              | Returns (_, s) \<Rightarrow>
                  (case free_detour arch os p s of
                     Returns (_, s) \<Rightarrow> Returns (Panic, s)
                   | Diverges \<Rightarrow> Diverges
                   | Dangling \<Rightarrow> Dangling)
              | Diverges \<Rightarrow> Diverges
              | Dangling \<Rightarrow> Dangling)))"

definition static_enable ::
  "('u::len word) architecture \<Rightarrow> ('u word, 'p) os \<Rightarrow> ('t, 'u word, 'p, 'c) process
     \<Rightarrow> (unit res \<times> ('t, 'u word, 'p, 'c) process) outcome" where
  "static_enable arch os s =
     (case sd_detour s of
        None \<Rightarrow> Returns (Err NotInitialized, s)
      | Some p \<Rightarrow> toggle_at arch os True p s)"

definition static_disable ::
  "('u::len word) architecture \<Rightarrow> ('u word, 'p) os \<Rightarrow> ('t, 'u word, 'p, 'c) process
     \<Rightarrow> (unit res \<times> ('t, 'u word, 'p, 'c) process) outcome" where
  "static_disable arch os s =
     (case sd_detour s of
        None \<Rightarrow> Returns (Err NotInitialized, s)
      | Some p \<Rightarrow> toggle_at arch os False p s)"

definition static_is_enabled :: "('t, 'u::len word, 'p, 'c) process \<Rightarrow> bool outcome" where
  "static_is_enabled s =
     (case sd_detour s of
        None \<Rightarrow> Returns False
      | Some p \<Rightarrow> (case heap_detours s p of None \<Rightarrow> Dangling | Some g \<Rightarrow> Returns (generic_is_enabled g)))"

definition static_trampoline :: "('t, 'u::len word, 'p, 'c) process \<Rightarrow> 'u word res outcome" where
  "static_trampoline s =
     (case sd_detour s of
        None \<Rightarrow> Returns (Err NotInitialized)
      | Some p \<Rightarrow> (case heap_detours s p of None \<Rightarrow> Dangling | Some g \<Rightarrow> Returns (generic_trampoline g)))"

text \<open>\<^verbatim>\<open>call\<close>, generated by the macro of \<^verbatim>\<open>src/macros.rs\<close>: the function it passes its arguments to.\<close>

definition static_call :: "('t, 'u::len word, 'p, 'c) process \<Rightarrow> ('t, 'u word) fn_ptr res outcome" where
  "static_call s =
     (case static_trampoline s of
        Returns (Ok trampoline) \<Rightarrow> Returns (Ok (from_ptr (fp_type (sd_ffi s)) trampoline))
      | Returns _ \<Rightarrow> Returns Panic
      | Diverges \<Rightarrow> Diverges
      | Dangling \<Rightarrow> Dangling)"

text \<open>\<^verbatim>\<open>__detour\<close>: the reference to the closure, without a test that its box stays alive.\<close>

definition static___detour :: "('t, 'u::len word, 'p, 'c) process \<Rightarrow> nat res" where
  "static___detour s = (case sd_closure s of None \<Rightarrow> Panic | Some p \<Rightarrow> Ok p)"

text \<open>The body of \<^verbatim>\<open>__ffi_detour\<close>: the closure that gets the arguments.\<close>

definition static_ffi_detour :: "('t, 'u::len word, 'p, 'c) process \<Rightarrow> 'c res outcome" where
  "static_ffi_detour s =
     (case static___detour s of
        Ok p \<Rightarrow> (case heap_closures s p of None \<Rightarrow> Dangling | Some c \<Rightarrow> Returns (Ok c))
      | Err e \<Rightarrow> Returns (Err e)
      | Panic \<Rightarrow> Returns Panic)"

definition static_drop ::
  "('c \<Rightarrow> unit res) \<Rightarrow> ('u::len word) architecture \<Rightarrow> ('u word, 'p) os \<Rightarrow> ('t, 'u word, 'p, 'c) process
     \<Rightarrow> (unit res \<times> ('t, 'u word, 'p, 'c) process) outcome" where
  "static_drop dropc arch os s =
     (let previous = sd_closure s in
      case free_closure dropc previous (s\<lparr>sd_closure := None\<rparr>) of
        Returns (Ok _, s) \<Rightarrow>
          (let previous = sd_detour s; s = s\<lparr>sd_detour := None\<rparr> in
           case previous of
             None \<Rightarrow> Returns (Ok (), s)
           | Some p \<Rightarrow> free_detour arch os p s)
      | r \<Rightarrow> r)"

section \<open>What one thread sees\<close>

text \<open>
  The contract: a static detour is an optional detour and an optional closure, without
  pointers. \<open>static_wf\<close> says that every box is alive as long as it is published, and that
  nothing else is.
\<close>

record ('t, 'a, 'p, 'c) static_spec =
  sp_detour :: "('t, 'a) generic_detour option"
  sp_closure :: "'c option"
  sp_ffi :: "('t, 'a) fn_ptr"
  sp_world :: "('a, 'p) world"

definition static_abs :: "('t, 'u::len word, 'p, 'c) process \<Rightarrow> ('t, 'u word, 'p, 'c) static_spec" where
  "static_abs s = \<lparr>sp_detour = Option.bind (sd_detour s) (heap_detours s),
     sp_closure = Option.bind (sd_closure s) (heap_closures s), sp_ffi = sd_ffi s, sp_world = pr_world s\<rparr>"

definition static_wf :: "('t, 'u::len word, 'p, 'c) process \<Rightarrow> bool" where
  "static_wf s \<longleftrightarrow> dom (heap_detours s) = set_option (sd_detour s)
     \<and> dom (heap_closures s) = set_option (sd_closure s)
     \<and> (\<forall>p \<in> dom (heap_detours s) \<union> dom (heap_closures s). p < heap_next s)"

definition spec_initialize ::
  "('u::len word) architecture \<Rightarrow> ('u word, 'p) os \<Rightarrow> ('t, 'u word) fn_ptr \<Rightarrow> 'c
     \<Rightarrow> ('t, 'u word, 'p, 'c) static_spec \<Rightarrow> (unit res \<times> ('t, 'u word, 'p, 'c) static_spec) option" where
  "spec_initialize arch os target c a =
     map_option (\<lambda>(r, w).
       case r of
         Err e \<Rightarrow> (Err e, a\<lparr>sp_world := w\<rparr>)
       | Panic \<Rightarrow> (Panic, a\<lparr>sp_world := w\<rparr>)
       | Ok g \<Rightarrow>
           (if sp_detour a = None then (Ok (), a\<lparr>sp_world := w, sp_detour := Some g, sp_closure := Some c\<rparr>)
            else let (r, w) = detour_drop arch os (gd_detour g) w in
                 (res_bind r (\<lambda>_. Err AlreadyInitialized), a\<lparr>sp_world := w\<rparr>)))
       (generic_new arch os target (sp_ffi a) (sp_world a))"

definition spec_toggle ::
  "('u::len word) architecture \<Rightarrow> ('u word, 'p) os \<Rightarrow> bool \<Rightarrow> ('t, 'u word, 'p, 'c) static_spec
     \<Rightarrow> unit res \<times> ('t, 'u word, 'p, 'c) static_spec" where
  "spec_toggle arch os enabled a =
     (case sp_detour a of
        None \<Rightarrow> (Err NotInitialized, a)
      | Some g \<Rightarrow>
          (let (r, d, w) = detour_toggle arch os enabled (gd_detour g) (sp_world a) in
           (r, a\<lparr>sp_detour := Some (g\<lparr>gd_detour := d\<rparr>), sp_world := w\<rparr>)))"

definition spec_drop ::
  "('u::len word) architecture \<Rightarrow> ('u word, 'p) os \<Rightarrow> ('t, 'u word, 'p, 'c) static_spec
     \<Rightarrow> unit res \<times> ('t, 'u word, 'p, 'c) static_spec" where
  "spec_drop arch os a =
     (let a' = a\<lparr>sp_detour := None, sp_closure := None\<rparr> in
      case sp_detour a of
        None \<Rightarrow> (Ok (), a')
      | Some g \<Rightarrow> let (r, w) = detour_drop arch os (gd_detour g) (sp_world a) in (r, a'\<lparr>sp_world := w\<rparr>))"

text \<open>A call returns what the contract says, and leaves a well-formed state that stands for the contract's.\<close>

definition implements ::
  "('x \<times> ('t, 'u::len word, 'p, 'c) process) outcome \<Rightarrow> ('x \<times> ('t, 'u word, 'p, 'c) static_spec) option \<Rightarrow> bool" where
  "implements out spec \<longleftrightarrow>
     (case spec of
        None \<Rightarrow> out = Diverges
      | Some (r, a) \<Rightarrow> \<exists>s. out = Returns (r, s) \<and> static_wf s \<and> static_abs s = a)"

lemma static_wf_new: "static_wf (process_new ffi w)"
  by (simp add: static_wf_def)

lemma static_wf_live:
  assumes "static_wf s"
  shows "sd_detour s = Some p \<Longrightarrow> \<exists>g. heap_detours s p = Some g"
    and "sd_closure s = Some q \<Longrightarrow> \<exists>c. heap_closures s q = Some c"
  using assms unfolding static_wf_def by (metis domD option.set_intros)+

lemma static_wf_world [simp]: "static_wf (s\<lparr>pr_world := w\<rparr>) = static_wf s"
  by (simp add: static_wf_def)

lemma static_wf_cases:
  assumes "static_wf s"
  obtains (empty) "sd_detour s = None" "heap_detours s = Map.empty"
    | (live) p g where "sd_detour s = Some p" "heap_detours s = [p \<mapsto> g]" "p < heap_next s"
proof (cases "sd_detour s")
  case None
  then show ?thesis using assms empty by (simp add: static_wf_def)
next
  case (Some p)
  then obtain g where g: "heap_detours s p = Some g" using static_wf_live [OF assms] by blast
  have "heap_detours s = [p \<mapsto> g]"
    using assms Some g by (intro ext) (auto simp: static_wf_def dom_def split: if_splits)
  then show ?thesis using live [OF Some] assms by (simp add: static_wf_def)
qed

lemma static_wf_closure_cases:
  assumes "static_wf s"
  obtains (empty) "sd_closure s = None" "heap_closures s = Map.empty"
    | (live) q c where "sd_closure s = Some q" "heap_closures s = [q \<mapsto> c]" "q < heap_next s"
proof (cases "sd_closure s")
  case None
  then show ?thesis using assms empty by (simp add: static_wf_def)
next
  case (Some q)
  then obtain c where c: "heap_closures s q = Some c" using static_wf_live [OF assms] by blast
  have "heap_closures s = [q \<mapsto> c]"
    using assms Some c by (intro ext) (auto simp: static_wf_def dom_def split: if_splits)
  then show ?thesis using live [OF Some] assms by (simp add: static_wf_def)
qed

lemma static_set_detour_implements:
  assumes "static_wf s" "\<forall>c. dropc c = Ok ()"
  shows "implements (static_set_detour dropc c s) (Some (Ok (), (static_abs s)\<lparr>sp_closure := Some c\<rparr>))"
  using assms(1)
  by (cases rule: static_wf_closure_cases)
    (use assms in \<open>auto simp: static_set_detour_def swap_closure_def free_closure_def implements_def static_wf_def
       static_abs_def less_Suc_eq split: if_splits\<close>)

lemma implements_Returns:
  "implements out (Some (r, a)) \<longleftrightarrow> (\<exists>s. out = Returns (r, s) \<and> static_wf s \<and> static_abs s = a)"
  by (simp add: implements_def)

lemma generic_toggle_eq:
  "generic_enable arch os g w = (let (r, d, w) = detour_toggle arch os True (gd_detour g) w in (r, g\<lparr>gd_detour := d\<rparr>, w))"
  "generic_disable arch os g w = (let (r, d, w) = detour_toggle arch os False (gd_detour g) w in (r, g\<lparr>gd_detour := d\<rparr>, w))"
  by (simp_all add: generic_enable_def generic_disable_def detour_enable_def detour_disable_def)

lemma toggle_at_live:
  assumes "heap_detours s p = Some g" "detour_toggle arch os en (gd_detour g) (pr_world s) = (r, d, w)"
  shows "toggle_at arch os en p s
    = Returns (r, s\<lparr>heap_detours := (heap_detours s)(p \<mapsto> g\<lparr>gd_detour := d\<rparr>), pr_world := w\<rparr>)"
  using assms by (cases en) (simp_all add: toggle_at_def generic_toggle_eq)

lemma toggle_at_implements:
  assumes "static_wf s"
  shows "implements (case sd_detour s of None \<Rightarrow> Returns (Err NotInitialized, s) | Some p \<Rightarrow> toggle_at arch os en p s)
    (Some (spec_toggle arch os en (static_abs s)))"
  using assms
proof (cases rule: static_wf_cases)
  case empty
  then show ?thesis using assms by (simp add: implements_def spec_toggle_def static_abs_def)
next
  case (live p g)
  obtain r d w where t: "detour_toggle arch os en (gd_detour g) (pr_world s) = (r, d, w)" by (metis prod_cases3)
  have dom: "dom (heap_closures s) = set_option (sd_closure s)" "\<forall>q \<in> dom (heap_closures s). q < heap_next s"
    using assms by (simp_all add: static_wf_def)
  have "heap_detours s p = Some g" using live by simp
  from toggle_at_live [OF this t] show ?thesis
    using live t dom by (simp add: implements_def spec_toggle_def static_abs_def static_wf_def)
qed

lemma free_detour_live:
  assumes "heap_detours s p = Some g" "detour_drop arch os (gd_detour g) (pr_world s) = (r, w)"
  shows "free_detour arch os p s
    = Returns (r, s\<lparr>heap_detours := (heap_detours s)(p := None), pr_world := w\<rparr>)"
  using assms by (simp add: free_detour_def)

lemma static_initialize_implements:
  assumes wf: "static_wf s" and drops: "\<forall>c. dropc c = Ok ()"
  shows "implements (static_initialize dropc arch os target c s) (spec_initialize arch os target c (static_abs s))"
proof -
  have abs: "sp_ffi (static_abs s) = sd_ffi s" "sp_world (static_abs s) = pr_world s" by (simp_all add: static_abs_def)
  have arg: "drop_arg dropc c r = r" for r :: "unit res" using drops by (simp add: drop_arg_def)
  show ?thesis
  proof (cases "generic_new arch os target (sd_ffi s) (pr_world s)")
    case None
    then show ?thesis by (simp add: spec_initialize_def abs implements_def static_initialize_def)
  next
    case (Some rw)
    obtain r w where rw: "rw = (r, w)" by fastforce
    note new = Some [unfolded rw]
    let ?s = "s\<lparr>pr_world := w\<rparr>"
    show ?thesis
    proof (cases r)
      case (Ok g)
      let ?p = "heap_next s"
      let ?s1 = "?s\<lparr>heap_detours := (heap_detours s)(?p \<mapsto> g), heap_next := Suc ?p\<rparr>"
      note new = new [unfolded Ok]
      show ?thesis
        using wf
      proof (cases rule: static_wf_cases)
        case empty
        let ?s2 = "?s1\<lparr>sd_detour := Some ?p\<rparr>"
        have "static_wf ?s2" using wf empty by (auto simp: static_wf_def less_Suc_eq)
        then have "implements (static_set_detour dropc c ?s2) (Some (Ok (), (static_abs ?s2)\<lparr>sp_closure := Some c\<rparr>))"
          using drops by (rule static_set_detour_implements)
        then obtain s' where "static_set_detour dropc c ?s2 = Returns (Ok (), s')" "static_wf s'"
            "static_abs s' = (static_abs ?s2)\<lparr>sp_closure := Some c\<rparr>"
          unfolding implements_Returns by blast
        then show ?thesis
          using new empty
          by (simp add: static_initialize_def box_detour_def cas_detour_def spec_initialize_def abs implements_Returns)
            (simp add: static_abs_def)
      next
        case (live q g')
        obtain r' w' where drop: "detour_drop arch os (gd_detour g) w = (r', w')" by fastforce
        have "free_detour arch os ?p ?s1
            = Returns (r', ?s1\<lparr>heap_detours := (heap_detours ?s1)(?p := None), pr_world := w'\<rparr>)"
          by (rule free_detour_live) (use drop in simp_all)
        then show ?thesis
          using new live drop wf
          by (simp add: static_initialize_def box_detour_def cas_detour_def spec_initialize_def abs implements_Returns arg)
            (auto simp: static_abs_def static_wf_def)
      qed
    qed (use new wf in \<open>simp_all add: spec_initialize_def abs implements_Returns static_initialize_def arg\<close>,
      simp_all add: static_abs_def)
  qed
qed

lemma static_drop_implements:
  assumes wf: "static_wf s" and drops: "\<forall>c. dropc c = Ok ()"
  shows "implements (static_drop dropc arch os s) (Some (spec_drop arch os (static_abs s)))"
proof -
  let ?s = "s\<lparr>sd_closure := None, heap_closures := Map.empty\<rparr>"
  have free: "free_closure dropc (sd_closure s) (s\<lparr>sd_closure := None\<rparr>) = Returns (Ok (), ?s)"
    using wf by (cases rule: static_wf_closure_cases) (use drops in \<open>simp_all add: free_closure_def\<close>)
  show ?thesis
    using wf
  proof (cases rule: static_wf_cases)
    case empty
    then show ?thesis
      using free by (simp add: static_drop_def implements_def spec_drop_def static_abs_def static_wf_def)
  next
    case (live p g)
    obtain r w where "detour_drop arch os (gd_detour g) (pr_world s) = (r, w)" by fastforce
    then show ?thesis
      using live free
      by (simp add: static_drop_def implements_def spec_drop_def static_abs_def static_wf_def free_detour_def)
  qed
qed

text \<open>What the operations that only read report.\<close>

lemma static_reads:
  assumes wf: "static_wf s"
  shows "static_is_enabled s = Returns (case sp_detour (static_abs s) of None \<Rightarrow> False | Some g \<Rightarrow> generic_is_enabled g)"
    and "static_call s = Returns (case sp_detour (static_abs s) of None \<Rightarrow> Panic
      | Some g \<Rightarrow> (case generic_trampoline g of Ok ptr \<Rightarrow> Ok (from_ptr (fp_type (sd_ffi s)) ptr) | _ \<Rightarrow> Panic))"
    and "static_ffi_detour s = Returns (case sp_closure (static_abs s) of None \<Rightarrow> Panic | Some c \<Rightarrow> Ok c)"
proof -
  show "static_is_enabled s = Returns (case sp_detour (static_abs s) of None \<Rightarrow> False | Some g \<Rightarrow> generic_is_enabled g)"
    using wf by (cases rule: static_wf_cases) (simp_all add: static_is_enabled_def static_abs_def)
  show "static_call s = Returns (case sp_detour (static_abs s) of None \<Rightarrow> Panic
      | Some g \<Rightarrow> (case generic_trampoline g of Ok ptr \<Rightarrow> Ok (from_ptr (fp_type (sd_ffi s)) ptr) | _ \<Rightarrow> Panic))"
    using wf by (cases rule: static_wf_cases)
      (simp_all add: static_call_def static_trampoline_def static_abs_def split: res.splits)
  show "static_ffi_detour s = Returns (case sp_closure (static_abs s) of None \<Rightarrow> Panic | Some c \<Rightarrow> Ok c)"
    using wf by (cases rule: static_wf_closure_cases)
      (simp_all add: static_ffi_detour_def static___detour_def static_abs_def)
qed

text \<open>
  C7: used by one thread, a static detour is what its contract says: an optional detour and an
  optional closure. Every operation keeps the boxes exact: no box leaks, none is used after it
  was freed.
\<close>

theorem static_implements_contract:
  assumes "static_wf s" "\<forall>c. dropc c = Ok ()"
  shows "implements (static_initialize dropc arch os target c s) (spec_initialize arch os target c (static_abs s))
    \<and> implements (static_set_detour dropc c s) (Some (Ok (), (static_abs s)\<lparr>sp_closure := Some c\<rparr>))
    \<and> implements (static_enable arch os s) (Some (spec_toggle arch os True (static_abs s)))
    \<and> implements (static_disable arch os s) (Some (spec_toggle arch os False (static_abs s)))
    \<and> implements (static_drop dropc arch os s) (Some (spec_drop arch os (static_abs s)))
    \<and> static_is_enabled s = Returns (case sp_detour (static_abs s) of None \<Rightarrow> False | Some g \<Rightarrow> generic_is_enabled g)
    \<and> static_ffi_detour s = Returns (case sp_closure (static_abs s) of None \<Rightarrow> Panic | Some c \<Rightarrow> Ok c)"
  unfolding static_enable_def static_disable_def
  using static_initialize_implements [OF assms] static_set_detour_implements [OF assms] static_drop_implements [OF assms]
    toggle_at_implements [OF assms(1)] static_reads [OF assms(1)] by blast

end
