(* ===== verification/Static_Threads.thy ===== *)
theory Static_Threads
  imports Static_Detour
begin

text \<open>
  A static detour shared by threads: every call is a sequence of atomic steps, which the
  threads of the process interleave in any order.
\<close>

section \<open>Calls in progress\<close>

text \<open>
  A call is the next atomic step with the locals it needs. The box a call of \<^verbatim>\<open>initialize\<close> owns
  stays local until the exchange; afterwards the static points to it as well.
\<close>

datatype ('t, 'a, 'c) reply = Initialized | Done | Enabled bool | Original "('t, 'a) fn_ptr" | Run 'c

datatype ('t, 'a, 'c) call =
    Initialize "('t, 'a) fn_ptr" 'c
  | InitExchange nat 'c
  | InitLost nat 'c
  | InitSwap nat 'c
  | InitFree nat "nat option"
  | InitUnwind nat
  | Toggle bool
  | ToggleAt bool nat
  | SetDetour 'c
  | SetFree "nat option"
  | IsEnabled
  | IsEnabledAt nat
  | Call
  | CallAt nat
  | Ffi
  | FfiAt nat
  | Finished "('t, 'a, 'c) reply res"
  | FreedBox
  | FreedClosure

definition call_begins :: "('t, 'a, 'c) call \<Rightarrow> bool" where
  "call_begins k = (case k of
     Initialize _ _ \<Rightarrow> True | Toggle _ \<Rightarrow> True | SetDetour _ \<Rightarrow> True
   | IsEnabled \<Rightarrow> True | Call \<Rightarrow> True | Ffi \<Rightarrow> True | _ \<Rightarrow> False)"

text \<open>What follows the use of a box. \<open>FreedBox\<close>: it had been freed.\<close>

definition after ::
  "('x \<times> ('t, 'u::len word, 'p, 'c) process) outcome \<Rightarrow> ('x \<Rightarrow> ('t, 'u word, 'c) call)
     \<Rightarrow> ('t, 'u word, 'p, 'c) process \<Rightarrow> (('t, 'u word, 'c) call \<times> ('t, 'u word, 'p, 'c) process) option" where
  "after out k s =
     (case out of Returns (x, s') \<Rightarrow> Some (k x, s') | Diverges \<Rightarrow> None | Dangling \<Rightarrow> Some (FreedBox, s))"

fun call_step ::
  "('c \<Rightarrow> unit res) \<Rightarrow> ('u::len word) architecture \<Rightarrow> ('u word, 'p) os \<Rightarrow> ('t, 'u word, 'c) call
     \<Rightarrow> ('t, 'u word, 'p, 'c) process \<Rightarrow> (('t, 'u word, 'c) call \<times> ('t, 'u word, 'p, 'c) process) option" where
  "call_step dropc arch os (Initialize target c) s =
     (case generic_new arch os target (sd_ffi s) (pr_world s) of
        None \<Rightarrow> None
      | Some (Ok g, w) \<Rightarrow> (let (p, s) = box_detour g (s\<lparr>pr_world := w\<rparr>) in Some (InitExchange p c, s))
      | Some (Err e, w) \<Rightarrow> Some (Finished (drop_arg dropc c (Err e)), s\<lparr>pr_world := w\<rparr>)
      | Some (Panic, w) \<Rightarrow> Some (Finished Panic, s\<lparr>pr_world := w\<rparr>))"
| "call_step dropc arch os (InitExchange p c) s =
     (let (won, s) = cas_detour p s in Some (if won then InitSwap p c else InitLost p c, s))"
| "call_step dropc arch os (InitLost p c) s =
     after (free_detour arch os p s)
       (\<lambda>r. Finished (drop_arg dropc c (res_bind r (\<lambda>_. Err AlreadyInitialized)))) s"
| "call_step dropc arch os (InitSwap p c) s =
     (let (previous, s) = swap_closure c s in Some (InitFree p previous, s))"
| "call_step dropc arch os (InitFree p previous) s =
     after (free_closure dropc previous s)
       (\<lambda>r. if r = Ok () then Finished (Ok Initialized) else InitUnwind p) s"
| "call_step dropc arch os (InitUnwind p) s = after (free_detour arch os p s) (\<lambda>_. Finished Panic) s"
| "call_step dropc arch os (Toggle en) s =
     Some (case sd_detour s of None \<Rightarrow> Finished (Err NotInitialized) | Some p \<Rightarrow> ToggleAt en p, s)"
| "call_step dropc arch os (ToggleAt en p) s =
     after (toggle_at arch os en p s) (\<lambda>r. Finished (res_map (\<lambda>_. Done) r)) s"
| "call_step dropc arch os (SetDetour c) s =
     (let (previous, s) = swap_closure c s in Some (SetFree previous, s))"
| "call_step dropc arch os (SetFree previous) s =
     after (free_closure dropc previous s) (\<lambda>r. Finished (res_map (\<lambda>_. Done) r)) s"
| "call_step dropc arch os IsEnabled s =
     Some (case sd_detour s of None \<Rightarrow> Finished (Ok (Enabled False)) | Some p \<Rightarrow> IsEnabledAt p, s)"
| "call_step dropc arch os (IsEnabledAt p) s =
     Some (case heap_detours s p of None \<Rightarrow> FreedBox
       | Some g \<Rightarrow> Finished (Ok (Enabled (generic_is_enabled g))), s)"
| "call_step dropc arch os Call s =
     Some (case sd_detour s of None \<Rightarrow> Finished Panic | Some p \<Rightarrow> CallAt p, s)"
| "call_step dropc arch os (CallAt p) s =
     Some (case heap_detours s p of None \<Rightarrow> FreedBox
       | Some g \<Rightarrow> Finished (case generic_trampoline g of
            Ok ptr \<Rightarrow> Ok (Original (from_ptr (fp_type (sd_ffi s)) ptr)) | _ \<Rightarrow> Panic), s)"
| "call_step dropc arch os Ffi s =
     Some (case static___detour s of Ok p \<Rightarrow> FfiAt p | Err e \<Rightarrow> Finished (Err e) | Panic \<Rightarrow> Finished Panic, s)"
| "call_step dropc arch os (FfiAt p) s =
     Some (case heap_closures s p of None \<Rightarrow> FreedClosure | Some c \<Rightarrow> Finished (Ok (Run c)), s)"
| "call_step dropc arch os (Finished r) s = None"
| "call_step dropc arch os FreedBox s = None"
| "call_step dropc arch os FreedClosure s = None"

section \<open>Threads\<close>

text \<open>
  The calls of a process, in the order they began. Code outside the static changes the world
  as it likes.
\<close>

inductive threads_step ::
  "('c \<Rightarrow> unit res) \<Rightarrow> ('u::len word) architecture
     \<Rightarrow> ('t, 'u word, 'c) call list \<times> ('t, 'u word, 'p, 'c) process
     \<Rightarrow> ('t, 'u word, 'c) call list \<times> ('t, 'u word, 'p, 'c) process \<Rightarrow> bool" for dropc arch where
  begins: "call_begins k \<Longrightarrow> threads_step dropc arch (ks, s) (ks @ [k], s)"
| runs: "i < length ks \<Longrightarrow> call_step dropc arch os (ks ! i) s = Some (k, s') \<Longrightarrow>
    threads_step dropc arch (ks, s) (ks[i := k], s')"
| others: "threads_step dropc arch (ks, s) (ks, s\<lparr>pr_world := w\<rparr>)"

inductive threads_reach ::
  "('c \<Rightarrow> unit res) \<Rightarrow> ('u::len word) architecture \<Rightarrow> ('t, 'u word, 'p, 'c) process
     \<Rightarrow> ('t, 'u word, 'c) call list \<times> ('t, 'u word, 'p, 'c) process \<Rightarrow> bool" for dropc arch s0 where
  start: "threads_reach dropc arch s0 ([], s0)"
| step: "threads_reach dropc arch s0 x \<Longrightarrow> threads_step dropc arch x y \<Longrightarrow> threads_reach dropc arch s0 y"

inductive_cases threads_stepE: "threads_step dropc arch (ks, s) (ks', s')"

section \<open>The invariant\<close>

text \<open>The box a call will free, and what a call relies on in the shared state.\<close>

fun owned_detour :: "('t, 'a, 'c) call \<Rightarrow> nat option" where
  "owned_detour (InitExchange p c) = Some p"
| "owned_detour (InitLost p c) = Some p"
| "owned_detour k = None"

fun owned_closure :: "('t, 'a, 'c) call \<Rightarrow> nat option" where
  "owned_closure (InitFree p previous) = previous"
| "owned_closure (SetFree previous) = previous"
| "owned_closure k = None"

fun won :: "('t, 'a, 'c) call \<Rightarrow> bool" where
  "won (InitSwap p c) = True"
| "won (InitFree p previous) = True"
| "won (Finished (Ok Initialized)) = True"
| "won k = False"

fun call_ok :: "('t, 'u::len word, 'p, 'c) process \<Rightarrow> ('t, 'u word, 'c) call \<Rightarrow> bool" where
  "call_ok s (InitExchange p c) \<longleftrightarrow> p \<in> dom (heap_detours s) \<and> sd_detour s \<noteq> Some p"
| "call_ok s (InitLost p c) \<longleftrightarrow> p \<in> dom (heap_detours s) \<and> sd_detour s \<noteq> Some p \<and> sd_detour s \<noteq> None"
| "call_ok s (InitSwap p c) \<longleftrightarrow> sd_detour s = Some p"
| "call_ok s (InitFree p previous) \<longleftrightarrow> sd_detour s = Some p \<and> sd_closure s \<noteq> None
     \<and> set_option previous \<subseteq> dom (heap_closures s) \<and> (previous = None \<or> sd_closure s \<noteq> previous)"
| "call_ok s (ToggleAt en p) \<longleftrightarrow> sd_detour s = Some p"
| "call_ok s (SetFree previous) \<longleftrightarrow> set_option previous \<subseteq> dom (heap_closures s) \<and> (previous = None \<or> sd_closure s \<noteq> previous)"
| "call_ok s (IsEnabledAt p) \<longleftrightarrow> sd_detour s = Some p"
| "call_ok s (CallAt p) \<longleftrightarrow> sd_detour s = Some p"
| "call_ok s (Finished (Ok Initialized)) \<longleftrightarrow> sd_detour s \<noteq> None \<and> sd_closure s \<noteq> None"
| "call_ok s (InitUnwind p) \<longleftrightarrow> False"
| "call_ok s FreedBox \<longleftrightarrow> False"
| "call_ok s k \<longleftrightarrow> True"

definition calls_apart :: "('t, 'a, 'c) call \<Rightarrow> ('t, 'a, 'c) call \<Rightarrow> bool" where
  "calls_apart k l \<longleftrightarrow> (owned_detour k = None \<or> owned_detour k \<noteq> owned_detour l)
     \<and> (owned_closure k = None \<or> owned_closure k \<noteq> owned_closure l) \<and> \<not> (won k \<and> won l)"

definition published :: "('t, 'u::len word, 'p, 'c) process \<Rightarrow> bool" where
  "published s \<longleftrightarrow> set_option (sd_detour s) \<subseteq> dom (heap_detours s)
     \<and> set_option (sd_closure s) \<subseteq> dom (heap_closures s)
     \<and> (\<forall>p \<in> dom (heap_detours s) \<union> dom (heap_closures s). p < heap_next s)"

text \<open>No box is lost: it is published, or a call in progress will free it.\<close>

definition accounted :: "('t, 'u::len word, 'p, 'c) process \<Rightarrow> ('t, 'u word, 'c) call set \<Rightarrow> bool" where
  "accounted s K \<longleftrightarrow>
     (\<forall>p g. heap_detours s p = Some g \<longrightarrow> sd_detour s = Some p \<or> (\<exists>k \<in> K. owned_detour k = Some p))
     \<and> (\<forall>q c. heap_closures s q = Some c \<longrightarrow> sd_closure s = Some q \<or> (\<exists>k \<in> K. owned_closure k = Some q))"

definition threads_inv ::
  "('t, 'u::len word, 'c) call list \<times> ('t, 'u word, 'p, 'c) process \<Rightarrow> bool" where
  "threads_inv x \<longleftrightarrow> published (snd x) \<and> accounted (snd x) (set (fst x)) \<and> (\<forall>k \<in> set (fst x). call_ok (snd x) k)
     \<and> (\<forall>i j. i < length (fst x) \<and> j < length (fst x) \<and> i \<noteq> j \<longrightarrow> calls_apart (fst x ! i) (fst x ! j))"

text \<open>The locals of a call stay valid under a change of the shared state that respects its boxes.\<close>

lemma call_ok_frame:
  assumes "call_ok s l"
    and "sd_detour s' = sd_detour s \<or> (sd_detour s = None \<and> owned_detour l \<noteq> sd_detour s')"
    and "set_option (owned_detour l) \<inter> dom (heap_detours s) \<subseteq> dom (heap_detours s')"
    and "sd_closure s \<noteq> None \<Longrightarrow> sd_closure s' \<noteq> None"
    and "set_option (owned_closure l) \<inter> dom (heap_closures s) \<subseteq> dom (heap_closures s')"
    and "owned_closure l = None \<or> sd_closure s' = sd_closure s \<or> sd_closure s' \<noteq> owned_closure l"
  shows "call_ok s' l"
  using assms by (cases "(s, l)" rule: call_ok.cases) auto

lemma call_ok_world [simp]: "call_ok (s\<lparr>pr_world := w\<rparr>) l = call_ok s l"
  by (cases "(s, l)" rule: call_ok.cases) auto

lemma won_published: "call_ok s l \<Longrightarrow> won l \<Longrightarrow> sd_detour s \<noteq> None"
  by (cases "(s, l)" rule: call_ok.cases) auto

lemma owned_live:
  "call_ok s l \<Longrightarrow> set_option (owned_detour l) \<subseteq> dom (heap_detours s) \<and> sd_detour s \<notin> Some ` set_option (owned_detour l)"
  "call_ok s l \<Longrightarrow> set_option (owned_closure l) \<subseteq> dom (heap_closures s) \<and> sd_closure s \<notin> Some ` set_option (owned_closure l)"
  by (cases "(s, l)" rule: call_ok.cases; auto)+

lemma after_cases:
  "after out f s = Some (k', s') \<longleftrightarrow>
     (\<exists>x. out = Returns (x, s') \<and> k' = f x) \<or> (out = Dangling \<and> k' = FreedBox \<and> s' = s)"
  by (auto simp: after_def split: outcome.splits)

lemma res_map_not_Initialized [simp]: "res_map (\<lambda>_. Done) r \<noteq> Ok Initialized"
  by (cases r) auto

lemma drop_arg_not_Initialized [simp]:
  "drop_arg dropc c (Err e) \<noteq> Ok x" "drop_arg dropc c (res_bind r (\<lambda>_. Err e)) \<noteq> Ok x"
  by (cases r; auto simp: drop_arg_def split: res.splits)+

text \<open>A finished call that is not a successful \<^verbatim>\<open>initialize\<close> relies on nothing.\<close>

lemma finished_ok [simp]: "r \<noteq> Ok Initialized \<Longrightarrow> call_ok s (Finished r)"
  by (cases r; simp; metis reply.exhaust call_ok.simps)

lemma calls_apart_sym: "calls_apart k l \<Longrightarrow> calls_apart l k"
  by (auto simp: calls_apart_def)

lemma finished_apart [simp]: "r \<noteq> Ok Initialized \<Longrightarrow> calls_apart (Finished r) l"
  by (cases r; simp add: calls_apart_def; metis reply.exhaust won.simps)

text \<open>One step of one call, and what it means to another call \<open>l\<close>.\<close>

lemma call_step_inv:
  assumes drops: "\<forall>c. dropc c = Ok ()" and step: "call_step dropc arch os k s = Some (k', s')"
    and pub: "published s" and ok: "call_ok s k"
  shows "published s' \<and> call_ok s' k' \<and> (\<forall>l. call_ok s l \<and> calls_apart k l \<longrightarrow> call_ok s' l \<and> calls_apart k' l)"
proof (cases k)
  case (Initialize target c)
  obtain r w where new: "generic_new arch os target (sd_ffi s) (pr_world s) = Some (r, w)"
    using step Initialize by (auto split: option.splits)
  have fresh: "heap_next s \<notin> dom (heap_detours s)" using pub by (auto simp: published_def)
  show ?thesis
  proof (cases r)
    case (Ok g)
    let ?s = "s\<lparr>pr_world := w, heap_detours := (heap_detours s)(heap_next s \<mapsto> g), heap_next := Suc (heap_next s)\<rparr>"
    have s': "k' = InitExchange (heap_next s) c" "s' = ?s"
      using step Initialize new Ok by (simp_all add: box_detour_def)
    have "call_ok s' l \<and> calls_apart k' l" if "call_ok s l" for l
      using that owned_live(1) [OF that] fresh call_ok_frame [OF that, of s'] s'
      by (cases "owned_detour l") (auto simp: calls_apart_def)
    then show ?thesis using pub s' fresh by (auto simp: published_def less_Suc_eq)
  qed (use step Initialize new pub in \<open>auto simp: published_def\<close>)
next
  case (InitExchange p c)
  show ?thesis
  proof (cases "sd_detour s")
    case None
    then have s': "k' = InitSwap p c" "s' = s\<lparr>sd_detour := Some p\<rparr>"
      using step InitExchange by (simp_all add: cas_detour_def)
    have "call_ok s' l \<and> calls_apart k' l" if "call_ok s l" "calls_apart k l" for l
      using that won_published [OF that(1)] None s' InitExchange
      by (auto simp: calls_apart_def intro!: call_ok_frame [OF that(1)])
    then show ?thesis using pub ok s' InitExchange by (auto simp: published_def)
  next
    case (Some q)
    then have s': "k' = InitLost p c" "s' = s" using step InitExchange by (simp_all add: cas_detour_def)
    then show ?thesis using pub ok Some InitExchange by (auto simp: calls_apart_def)
  qed
next
  case (InitLost p c)
  then obtain g where g: "heap_detours s p = Some g" using ok by auto
  obtain r w where drop: "detour_drop arch os (gd_detour g) (pr_world s) = (r, w)" by fastforce
  have s': "k' = Finished (drop_arg dropc c (res_bind r (\<lambda>_. Err AlreadyInitialized)))"
      "s' = s\<lparr>heap_detours := (heap_detours s)(p := None), pr_world := w\<rparr>"
    using step InitLost free_detour_live [OF g drop] by (simp_all add: after_def)
  have "call_ok s' l" if "call_ok s l" "calls_apart k l" for l
    using that s' InitLost by (auto simp: calls_apart_def intro!: call_ok_frame [OF that(1)])
  then show ?thesis using pub ok s' InitLost by (auto simp: published_def)
next
  case (InitSwap p c)
  let ?s = "s\<lparr>heap_closures := (heap_closures s)(heap_next s \<mapsto> c), heap_next := Suc (heap_next s),
        sd_closure := Some (heap_next s)\<rparr>"
  have s': "k' = InitFree p (sd_closure s)" "s' = ?s" using step InitSwap by (simp_all add: swap_closure_def)
  have "call_ok s' l \<and> calls_apart k' l" if "call_ok s l" "calls_apart k l" for l
    using that s' InitSwap owned_live(2) [OF that(1)] pub
    by (auto simp: calls_apart_def published_def intro!: call_ok_frame [OF that(1)])
  then show ?thesis using pub ok s' InitSwap by (auto simp: published_def less_Suc_eq)
next
  case (InitFree p previous)
  then have s': "k' = Finished (Ok Initialized)"
      "s' = s\<lparr>heap_closures := heap_closures s |` (- set_option previous)\<rparr>"
    using step ok drops
    by (auto simp: after_def free_closure_def restrict_map_def fun_eq_iff split: option.splits)
  have "call_ok s' l \<and> calls_apart k' l" if "call_ok s l" "calls_apart k l" for l
    using that s' InitFree by (auto simp: calls_apart_def intro!: call_ok_frame [OF that(1)])
  then show ?thesis using pub ok s' InitFree by (auto simp: published_def)
next
  case (ToggleAt en p)
  then obtain g where g: "heap_detours s p = Some g" using ok pub by (auto simp: published_def)
  obtain r d w where t: "detour_toggle arch os en (gd_detour g) (pr_world s) = (r, d, w)" by (metis prod_cases3)
  have s': "k' = Finished (res_map (\<lambda>_. Done) r)"
      "s' = s\<lparr>heap_detours := (heap_detours s)(p \<mapsto> g\<lparr>gd_detour := d\<rparr>), pr_world := w\<rparr>"
    using step ToggleAt toggle_at_live [OF g t] by (simp_all add: after_def)
  have "call_ok s' l" if "call_ok s l" for l
    using that s' ToggleAt by (auto intro!: call_ok_frame [OF that(1)])
  then show ?thesis using pub ok s' ToggleAt by (auto simp: published_def)
next
  case (SetDetour c)
  let ?s = "s\<lparr>heap_closures := (heap_closures s)(heap_next s \<mapsto> c), heap_next := Suc (heap_next s),
        sd_closure := Some (heap_next s)\<rparr>"
  have s': "k' = SetFree (sd_closure s)" "s' = ?s" using step SetDetour by (simp_all add: swap_closure_def)
  have "call_ok s' l \<and> calls_apart k' l" if "call_ok s l" "calls_apart k l" for l
    using that s' SetDetour owned_live(2) [OF that(1)] pub
    by (auto simp: calls_apart_def published_def intro!: call_ok_frame [OF that(1)])
  then show ?thesis using pub ok s' SetDetour by (auto simp: published_def less_Suc_eq)
next
  case (SetFree previous)
  then have s': "k' = Finished (Ok Done)"
      "s' = s\<lparr>heap_closures := heap_closures s |` (- set_option previous)\<rparr>"
    using step ok drops
    by (auto simp: after_def free_closure_def restrict_map_def fun_eq_iff split: option.splits)
  have "call_ok s' l" if "call_ok s l" "calls_apart k l" for l
    using that s' SetFree by (auto simp: calls_apart_def intro!: call_ok_frame [OF that(1)])
  then show ?thesis using pub ok s' SetFree by (auto simp: published_def)
qed (use step pub ok in \<open>auto simp: calls_apart_def published_def static___detour_def split: option.splits res.splits\<close>)

lemma accounted_frame:
  assumes "accounted s (insert k K)"
    and "\<And>p g. heap_detours s' p = Some g \<Longrightarrow> sd_detour s' \<noteq> Some p \<Longrightarrow> owned_detour k' \<noteq> Some p \<Longrightarrow>
      heap_detours s p \<noteq> None \<and> owned_detour k \<noteq> Some p \<and> sd_detour s \<noteq> Some p"
    and "\<And>q c. heap_closures s' q = Some c \<Longrightarrow> sd_closure s' \<noteq> Some q \<Longrightarrow> owned_closure k' \<noteq> Some q \<Longrightarrow>
      heap_closures s q \<noteq> None \<and> owned_closure k \<noteq> Some q \<and> sd_closure s \<noteq> Some q"
  shows "accounted s' (insert k' K)"
  unfolding accounted_def
proof (intro conjI allI impI)
  fix p g
  assume "heap_detours s' p = Some g"
  with assms(2) [OF this] assms(1) show "sd_detour s' = Some p \<or> (\<exists>l \<in> insert k' K. owned_detour l = Some p)"
    by (cases "heap_detours s p") (auto simp: accounted_def)
next
  fix q c
  assume "heap_closures s' q = Some c"
  with assms(3) [OF this] assms(1) show "sd_closure s' = Some q \<or> (\<exists>l \<in> insert k' K. owned_closure l = Some q)"
    by (cases "heap_closures s q") (auto simp: accounted_def)
qed

lemma call_step_accounted:
  assumes drops: "\<forall>c. dropc c = Ok ()" and step: "call_step dropc arch os k s = Some (k', s')"
    and ok: "call_ok s k" and acc: "accounted s (insert k K)"
  shows "accounted s' (insert k' K)"
proof (rule accounted_frame [OF acc])
  fix p g
  assume "heap_detours s' p = Some g" "sd_detour s' \<noteq> Some p" "owned_detour k' \<noteq> Some p"
  then show "heap_detours s p \<noteq> None \<and> owned_detour k \<noteq> Some p \<and> sd_detour s \<noteq> Some p"
    using step ok drops
    by (cases k) (auto simp: box_detour_def cas_detour_def swap_closure_def free_closure_def after_def free_detour_def
        toggle_at_def split: option.splits res.splits if_splits prod.splits)
next
  fix q c
  assume "heap_closures s' q = Some c" "sd_closure s' \<noteq> Some q" "owned_closure k' \<noteq> Some q"
  then show "heap_closures s q \<noteq> None \<and> owned_closure k \<noteq> Some q \<and> sd_closure s \<noteq> Some q"
    using step ok drops
    by (cases k) (auto simp: box_detour_def cas_detour_def swap_closure_def free_closure_def after_def free_detour_def
        toggle_at_def split: option.splits res.splits if_splits prod.splits)
qed

lemma begins_ok [simp]: "call_begins k \<Longrightarrow> call_ok s k" "call_begins k \<Longrightarrow> calls_apart k l"
  by (cases k; simp add: call_begins_def calls_apart_def)+

lemma threads_step_inv:
  assumes drops: "\<forall>c. dropc c = Ok ()" and step: "threads_step dropc arch x y" and inv: "threads_inv x"
  shows "threads_inv y"
  using step inv
proof (induction rule: threads_step.induct)
  case (begins k ks s)
  then have "calls_apart k l" "calls_apart l k" for l by (auto intro: calls_apart_sym)
  then show ?case
    using begins by (auto simp: threads_inv_def accounted_def nth_append less_Suc_eq)
next
  case (runs i ks os s k s')
  have ok: "published s" "accounted s (set ks)" "call_ok s (ks ! i)" using runs by (simp_all add: threads_inv_def)
  note new = call_step_inv [OF drops runs.hyps(2) ok(1,3)]
  have other: "call_ok s' (ks ! j) \<and> calls_apart k (ks ! j)" if "j < length ks" "j \<noteq> i" for j
    using that new runs by (simp add: threads_inv_def)
  have "set ks \<subseteq> insert (ks ! i) (set (take i ks @ drop (Suc i) ks))"
    using id_take_nth_drop [OF runs.hyps(1)] by (metis Un_insert_right list.simps(15) set_append set_eq_subset)
  then have "accounted s (insert (ks ! i) (set (take i ks @ drop (Suc i) ks)))"
    using ok(2) unfolding accounted_def by blast
  then have "accounted s' (insert k (set (take i ks @ drop (Suc i) ks)))"
    by (rule call_step_accounted [OF drops runs.hyps(2) ok(3)])
  moreover have "set (ks[i := k]) = insert k (set (take i ks @ drop (Suc i) ks))"
    using runs.hyps(1) by (simp add: upd_conv_take_nth_drop)
  moreover have "call_ok s' (ks[i := k] ! j)" if "j < length ks" for j
    using that new other by (cases "j = i") simp_all
  then have "\<forall>l \<in> set (ks[i := k]). call_ok s' l" by (auto simp: in_set_conv_nth)
  moreover have "calls_apart (ks[i := k] ! a) (ks[i := k] ! b)" if "a < length ks" "b < length ks" "a \<noteq> b" for a b
    using that other runs.prems calls_apart_sym
    by (cases "a = i"; cases "b = i") (auto simp: threads_inv_def)
  ultimately show ?case using new by (simp add: threads_inv_def)
next
  case (others ks s w)
  then show ?case by (simp add: threads_inv_def published_def accounted_def)
qed

lemma threads_reach_inv:
  assumes "\<forall>c. dropc c = Ok ()" "threads_reach dropc arch s0 x" "threads_inv ([], s0)"
  shows "threads_inv x"
  using assms(2,3) by (induction rule: threads_reach.induct) (auto intro: threads_step_inv [OF assms(1)])

lemma threads_inv_start: "threads_inv ([], process_new ffi w)"
  by (simp add: threads_inv_def published_def accounted_def)

lemma one_winner: "threads_inv (ks, s) \<Longrightarrow> length (filter won ks) \<le> 1"
proof -
  assume "threads_inv (ks, s)"
  then have "i = j" if "i < length ks" "won (ks ! i)" "j < length ks" "won (ks ! j)" for i j
    using that unfolding threads_inv_def calls_apart_def by auto
  then show ?thesis
    unfolding length_filter_conv_card One_nat_def by (subst card_le_Suc0_iff_eq) auto
qed

text \<open>When no call is in progress, the contract for one thread applies.\<close>

lemma quiescent_wf:
  assumes "threads_inv (ks, s)" "\<forall>k \<in> set ks. owned_detour k = None \<and> owned_closure k = None"
  shows "static_wf s"
proof -
  have "dom (heap_detours s) = set_option (sd_detour s)" "dom (heap_closures s) = set_option (sd_closure s)"
    using assms by (fastforce simp: threads_inv_def published_def accounted_def)+
  then show ?thesis using assms(1) by (auto simp: static_wf_def threads_inv_def published_def)
qed

text \<open>
  C6: a static detour shared by any number of threads, in any interleaving, as long as dropping
  a closure does not panic. No call uses a detour that was freed and no box is freed twice; at
  most one \<^verbatim>\<open>initialize\<close> succeeds; once it has returned, the target's calls find a closure;
  and when every call has returned, no box has leaked.
\<close>

theorem static_calls_safe:
  assumes "\<forall>c. dropc c = Ok ()" "threads_reach dropc arch (process_new ffi w) (ks, s)"
  shows "FreedBox \<notin> set ks
    \<and> length (filter (\<lambda>k. k = Finished (Ok Initialized)) ks) \<le> 1
    \<and> (Finished (Ok Initialized) \<in> set ks \<longrightarrow> (\<exists>c. static_ffi_detour s = Returns (Ok c)))
    \<and> ((\<forall>k \<in> set ks. \<exists>r. k = Finished r) \<longrightarrow> static_wf s)"
proof -
  have inv: "threads_inv (ks, s)" by (rule threads_reach_inv [OF assms threads_inv_start])
  have "FreedBox \<notin> set ks" using inv by (auto simp: threads_inv_def)
  moreover have "length (filter (\<lambda>k. k = Finished (Ok Initialized)) ks) \<le> length (filter won ks)"
    by (induction ks) auto
  then have "length (filter (\<lambda>k. k = Finished (Ok Initialized)) ks) \<le> 1" using one_winner [OF inv] by linarith
  moreover have "\<exists>c. static_ffi_detour s = Returns (Ok c)" if "Finished (Ok Initialized) \<in> set ks"
  proof -
    have "\<forall>k \<in> set ks. call_ok s k" using inv by (simp add: threads_inv_def)
    then have "call_ok s (Finished (Ok Initialized))" using that by (rule bspec)
    then obtain q where q: "sd_closure s = Some q" by auto
    then obtain c where "heap_closures s q = Some c" using inv by (auto simp: threads_inv_def published_def)
    then show ?thesis using q by (simp add: static_ffi_detour_def static___detour_def)
  qed
  moreover have "static_wf s" if "\<forall>k \<in> set ks. \<exists>r. k = Finished r"
    using that by (intro quiescent_wf [OF inv]) fastforce
  ultimately show ?thesis by blast
qed

section \<open>A call alone\<close>

text \<open>No call takes more than five steps.\<close>

definition call_stops :: "('t, 'a, 'c) call \<Rightarrow> bool" where
  "call_stops k = (case k of Finished _ \<Rightarrow> True | FreedBox \<Rightarrow> True | FreedClosure \<Rightarrow> True | _ \<Rightarrow> False)"

primrec call_run ::
  "('c \<Rightarrow> unit res) \<Rightarrow> ('u::len word) architecture \<Rightarrow> ('u word, 'p) os \<Rightarrow> nat \<Rightarrow> ('t, 'u word, 'c) call
     \<Rightarrow> ('t, 'u word, 'p, 'c) process \<Rightarrow> (('t, 'u word, 'c) call \<times> ('t, 'u word, 'p, 'c) process) option" where
  "call_run dropc arch os 0 k s = (if call_stops k then Some (k, s) else None)"
| "call_run dropc arch os (Suc n) k s =
     (if call_stops k then Some (k, s)
      else Option.bind (call_step dropc arch os k s) (\<lambda>(k, s). call_run dropc arch os n k s))"

definition call_outcome ::
  "('c \<Rightarrow> unit res) \<Rightarrow> ('u::len word) architecture \<Rightarrow> ('u word, 'p) os \<Rightarrow> ('t, 'u word, 'c) call
     \<Rightarrow> ('t, 'u word, 'p, 'c) process \<Rightarrow> (('t, 'u word, 'c) reply res \<times> ('t, 'u word, 'p, 'c) process) outcome" where
  "call_outcome dropc arch os k s =
     (case call_run dropc arch os 5 k s of
        None \<Rightarrow> Diverges
      | Some (Finished r, s) \<Rightarrow> Returns (r, s)
      | Some _ \<Rightarrow> Dangling)"

lemma res_bind_unit_Ok [simp]: "res_bind r (\<lambda>_ :: unit. Err e) \<noteq> Ok x"
  by (cases r) auto

lemma res_map_bind_Err [simp]: "res_map f (res_bind r (\<lambda>_ :: unit. Err e)) = res_bind r (\<lambda>_. Err e)"
  by (cases r) auto

text \<open>
  The steps of a call, run without interruption, compute what the operations of the static
  compute as sequential programs.
\<close>

lemma static_calls_alone:
  shows "call_outcome dropc arch os (Initialize target c) s
      = map_outcome (map_prod (res_map (\<lambda>_. Initialized)) id) (static_initialize dropc arch os target c s)
    \<and> call_outcome dropc arch os (SetDetour c) s
      = map_outcome (map_prod (res_map (\<lambda>_. Done)) id) (static_set_detour dropc c s)
    \<and> call_outcome dropc arch os (Toggle True) s
      = map_outcome (map_prod (res_map (\<lambda>_. Done)) id) (static_enable arch os s)
    \<and> call_outcome dropc arch os (Toggle False) s
      = map_outcome (map_prod (res_map (\<lambda>_. Done)) id) (static_disable arch os s)
    \<and> call_outcome dropc arch os IsEnabled s = map_outcome (\<lambda>b. (Ok (Enabled b), s)) (static_is_enabled s)
    \<and> call_outcome dropc arch os Call s = map_outcome (\<lambda>r. (res_map Original r, s)) (static_call s)
    \<and> call_outcome dropc arch os Ffi s = map_outcome (\<lambda>r. (res_map Run r, s)) (static_ffi_detour s)"
proof (intro conjI)
  note defs = call_outcome_def call_stops_def eval_nat_numeral after_def drop_arg_def
  show "call_outcome dropc arch os (SetDetour c) s
      = map_outcome (map_prod (res_map (\<lambda>_. Done)) id) (static_set_detour dropc c s)"
    by (simp add: defs static_set_detour_def swap_closure_def split: outcome.splits prod.splits)
  show "call_outcome dropc arch os (Toggle True) s
      = map_outcome (map_prod (res_map (\<lambda>_. Done)) id) (static_enable arch os s)"
    by (auto simp: defs static_enable_def split: option.splits outcome.splits prod.splits)
  show "call_outcome dropc arch os (Toggle False) s
      = map_outcome (map_prod (res_map (\<lambda>_. Done)) id) (static_disable arch os s)"
    by (auto simp: defs static_disable_def split: option.splits outcome.splits prod.splits)
  show "call_outcome dropc arch os IsEnabled s = map_outcome (\<lambda>b. (Ok (Enabled b), s)) (static_is_enabled s)"
    by (auto simp: defs static_is_enabled_def split: option.splits)
  show "call_outcome dropc arch os Call s = map_outcome (\<lambda>r. (res_map Original r, s)) (static_call s)"
    by (auto simp: defs static_call_def static_trampoline_def split: option.splits res.splits)
  show "call_outcome dropc arch os Ffi s = map_outcome (\<lambda>r. (res_map Run r, s)) (static_ffi_detour s)"
    by (auto simp: defs static_ffi_detour_def static___detour_def split: option.splits res.splits)
  show "call_outcome dropc arch os (Initialize target c) s
      = map_outcome (map_prod (res_map (\<lambda>_. Initialized)) id) (static_initialize dropc arch os target c s)"
    by (auto simp: defs static_initialize_def static_set_detour_def swap_closure_def cas_detour_def box_detour_def
      split: option.splits res.splits outcome.splits prod.splits)
qed

lemma implements_map:
  "implements out spec \<Longrightarrow> implements (map_outcome (map_prod f id) out) (map_option (map_prod f id) spec)"
  by (cases spec) (auto simp: implements_def)

text \<open>
  C19: whatever the threads did before, once every call has returned, the atomic steps of a further
  call that is not interrupted implement the contract of the static, an optional detour and an
  optional closure: the call stops within five steps (unless creating the detour does not return),
  reports what the contract says, leaves the state that stands for the contract's, and no box leaks
  or is used after it was freed. Dropping a closure does not panic.
\<close>

theorem static_calls_implement_contract:
  assumes drops: "\<forall>c. dropc c = Ok ()"
    and reach: "threads_reach dropc arch (process_new ffi w) (ks, s)" and returned: "\<forall>k \<in> set ks. \<exists>r. k = Finished r"
  shows "implements (call_outcome dropc arch os (Initialize target c) s)
      (map_option (map_prod (res_map (\<lambda>_. Initialized)) id) (spec_initialize arch os target c (static_abs s)))
    \<and> implements (call_outcome dropc arch os (SetDetour c) s) (Some (Ok Done, (static_abs s)\<lparr>sp_closure := Some c\<rparr>))
    \<and> implements (call_outcome dropc arch os (Toggle en) s)
        (Some (map_prod (res_map (\<lambda>_. Done)) id (spec_toggle arch os en (static_abs s))))
    \<and> call_outcome dropc arch os IsEnabled s
        = Returns (Ok (Enabled (case sp_detour (static_abs s) of None \<Rightarrow> False | Some g \<Rightarrow> generic_is_enabled g)), s)
    \<and> call_outcome dropc arch os Call s
        = Returns (case sp_detour (static_abs s) of None \<Rightarrow> Panic
            | Some g \<Rightarrow> (case generic_trampoline g of
                Ok ptr \<Rightarrow> Ok (Original (from_ptr (fp_type (sd_ffi s)) ptr)) | _ \<Rightarrow> Panic), s)
    \<and> call_outcome dropc arch os Ffi s
        = Returns (case sp_closure (static_abs s) of None \<Rightarrow> Panic | Some c \<Rightarrow> Ok (Run c), s)"
proof -
  have wf: "static_wf s"
    using returned by (intro quiescent_wf [OF threads_reach_inv [OF drops reach threads_inv_start]]) fastforce
  have toggle: "implements (call_outcome dropc arch os (Toggle en) s)
      (map_option (map_prod (res_map (\<lambda>_. Done)) id) (Some (spec_toggle arch os en (static_abs s))))" for en
    by (cases en; simp only: static_calls_alone static_enable_def static_disable_def)
      (rule implements_map [OF toggle_at_implements [OF wf]])+
  have set: "implements (call_outcome dropc arch os (SetDetour c) s)
      (map_option (map_prod (res_map (\<lambda>_. Done)) id) (Some (Ok (), (static_abs s)\<lparr>sp_closure := Some c\<rparr>)))"
    using implements_map [OF static_set_detour_implements [OF wf drops]] by (simp only: static_calls_alone)
  have init: "implements (call_outcome dropc arch os (Initialize target c) s)
      (map_option (map_prod (res_map (\<lambda>_. Initialized)) id) (spec_initialize arch os target c (static_abs s)))"
    using implements_map [OF static_initialize_implements [OF wf drops]] by (simp only: static_calls_alone)
  show ?thesis
    using init set toggle
    by (simp add: static_calls_alone static_reads [OF wf]) (auto split: option.splits res.splits)
qed

section \<open>Where the guarantees end\<close>

lemma reach_begins:
  "threads_reach dropc arch s0 (ks, s) \<Longrightarrow> call_begins k \<Longrightarrow> threads_reach dropc arch s0 (ks @ [k], s)"
  by (rule threads_reach.step [OF _ threads_step.begins])

lemma reach_runs:
  "threads_reach dropc arch s0 (ks @ k # ls, s) \<Longrightarrow> call_step dropc arch os k s = Some (k', s')
    \<Longrightarrow> threads_reach dropc arch s0 (ks @ k' # ls, s')"
  using threads_reach.step [OF _ threads_step.runs [of "length ks" "ks @ k # ls" dropc arch os s k' s']] by simp

lemma reach_alone:
  "threads_reach dropc arch s0 (ks @ [k], s) \<Longrightarrow> call_run dropc arch os n k s = Some (k', s')
    \<Longrightarrow> threads_reach dropc arch s0 (ks @ [k'], s')"
proof (induction n arbitrary: k s)
  case (Suc n)
  then show ?case
    using reach_runs [of dropc arch s0 ks k "[]" s os] by (auto split: if_splits bind_splits)
qed (auto split: if_splits)

lemma generic_enable_Ok:
  assumes "generic_enable arch os g w = (Ok (), g', w')"
  shows "generic_is_enabled g'"
  using assms
  by (auto simp: generic_enable_def detour_enable_def detour_toggle_def Let_def generic_is_enabled_def
      detour_is_enabled_def split: prod.splits if_splits option.splits res.splits)

text \<open>
  C39: \<^verbatim>\<open>initialize\<close> publishes the detour before it stores the closure. Another thread can enable
  the detour in between, and every call of the target then panics.
\<close>

theorem static_initialize_window:
  assumes "generic_new arch os target ffi w = Some (Ok g, w1)" "generic_enable arch os' g w1 = (Ok (), g', w2)"
  shows "\<exists>ks s p. threads_reach dropc arch (process_new ffi w) (ks, s) \<and> InitSwap p c \<in> set ks
    \<and> Finished (Ok Done) \<in> set ks \<and> pr_world s = w2 \<and> static_is_enabled s = Returns True
    \<and> static_ffi_detour s = Returns Panic"
proof -
  let ?s0 = "process_new ffi w"
  let ?s1 = "?s0\<lparr>pr_world := w1, heap_detours := [0 \<mapsto> g], heap_next := 1\<rparr>"
  let ?s2 = "?s1\<lparr>sd_detour := Some 0\<rparr>"
  let ?s3 = "?s2\<lparr>heap_detours := [0 \<mapsto> g'], pr_world := w2\<rparr>"
  let ?R = "threads_reach dropc arch ?s0"
  have "?R ([Initialize target c], ?s0)"
    using reach_begins [OF threads_reach.start, of "Initialize target c"] by (simp add: call_begins_def)
  then have "?R ([InitExchange 0 c], ?s1)"
    using reach_runs [of dropc arch ?s0 "[]" _ "[]" _ os] assms(1) by (simp add: box_detour_def)
  then have "?R ([InitSwap 0 c], ?s2)"
    using reach_runs [of dropc arch ?s0 "[]" _ "[]"] by (simp add: cas_detour_def)
  then have "?R ([InitSwap 0 c, Toggle True], ?s2)"
    using reach_begins [of dropc arch ?s0 "[InitSwap 0 c]" ?s2 "Toggle True"] by (simp add: call_begins_def)
  then have "?R ([InitSwap 0 c, ToggleAt True 0], ?s2)"
    using reach_runs [of dropc arch ?s0 "[InitSwap 0 c]" _ "[]"] by simp
  then have "?R ([InitSwap 0 c, Finished (Ok Done)], ?s3)"
    using reach_runs [of dropc arch ?s0 "[InitSwap 0 c]" _ "[]" _ os'] assms(2) by (simp add: toggle_at_def after_def)
  moreover have "static_is_enabled ?s3 = Returns True"
    using generic_enable_Ok [OF assms(2)] by (simp add: static_is_enabled_def)
  moreover have "static_ffi_detour ?s3 = Returns Panic" by (simp add: static_ffi_detour_def static___detour_def)
  ultimately show ?thesis by fastforce
qed

text \<open>
  A call that holds the reference of \<^verbatim>\<open>__detour\<close> runs a freed closure when \<^verbatim>\<open>set_detour\<close> replaces
  it at that moment.
\<close>

lemma static_closure_freed_in_use:
  "\<exists>ks s. threads_reach dropc arch (process_new ffi w) (ks, s) \<and> FreedClosure \<in> set ks"
proof -
  fix c :: 'c
  let ?s0 = "process_new ffi w"
  let ?s1 = "?s0\<lparr>heap_closures := [0 \<mapsto> c], heap_next := 1, sd_closure := Some 0\<rparr>"
  let ?s2 = "?s1\<lparr>heap_closures := [0 \<mapsto> c, 1 \<mapsto> c], heap_next := 2, sd_closure := Some 1\<rparr>"
  let ?s3 = "?s2\<lparr>heap_closures := [1 \<mapsto> c]\<rparr>"
  let ?R = "threads_reach dropc arch ?s0"
  note run = reach_runs [of dropc arch ?s0]
  have "?R ([SetDetour c], ?s0)"
    using reach_begins [OF threads_reach.start, of "SetDetour c"] by (simp add: call_begins_def)
  then have "?R ([SetFree None], ?s1)" using run [of "[]" _ "[]"] by (simp add: swap_closure_def)
  then have "?R ([SetFree None, Ffi], ?s1)"
    using reach_begins [of dropc arch ?s0 "[SetFree None]" ?s1 Ffi] by (simp add: call_begins_def)
  then have "?R ([SetFree None, FfiAt 0], ?s1)"
    using run [of "[SetFree None]" _ "[]"] by (simp add: static___detour_def)
  then have "?R ([SetFree None, FfiAt 0, SetDetour c], ?s1)"
    using reach_begins [of dropc arch ?s0 "[SetFree None, FfiAt 0]" ?s1 "SetDetour c"] by (simp add: call_begins_def)
  then have "?R ([SetFree None, FfiAt 0, SetFree (Some 0)], ?s2)"
    using run [of "[SetFree None, FfiAt 0]" _ "[]"] by (simp add: swap_closure_def numeral_2_eq_2)
  then have "?R ([SetFree None, FfiAt 0, Finished (res_map (\<lambda>_. Done) (dropc c))], ?s3)"
    using run [of "[SetFree None, FfiAt 0]" _ "[]"] by (simp add: free_closure_def after_def fun_upd_twist)
  then have "?R ([SetFree None, FreedClosure, Finished (res_map (\<lambda>_. Done) (dropc c))], ?s3)"
    using run [of "[SetFree None]" _ "[Finished (res_map (\<lambda>_. Done) (dropc c))]"] by simp
  then show ?thesis by fastforce
qed

text \<open>
  C40: \<^verbatim>\<open>initialize\<close> drops the closure it replaces before it forgets the box of the new detour.
  If that drop panics, unwinding frees the detour although the static points to it, and the next
  \<^verbatim>\<open>enable\<close> uses freed memory.
\<close>

theorem static_panicking_drop_dangles:
  assumes "generic_new arch os target ffi w = Some (Ok g, w1)" "dropc c = Panic"
  shows "\<exists>s1 s2. static_set_detour dropc c (process_new ffi w) = Returns (Ok (), s1)
    \<and> static_initialize dropc arch os target c2 s1 = Returns (Panic, s2)
    \<and> static_enable arch os' s2 = Dangling"
proof -
  let ?s1 = "process_new ffi w\<lparr>heap_closures := [0 \<mapsto> c], heap_next := 1, sd_closure := Some 0\<rparr>"
  have "static_set_detour dropc c (process_new ffi w) = Returns (Ok (), ?s1)"
    by (simp add: static_set_detour_def swap_closure_def free_closure_def)
  moreover obtain r w' where "detour_drop arch os (gd_detour g) w1 = (r, w')" by fastforce
  then have "\<exists>s2. static_initialize dropc arch os target c2 ?s1 = Returns (Panic, s2)
      \<and> sd_detour s2 = Some 1 \<and> heap_detours s2 1 = None"
    using assms
    by (simp add: static_initialize_def box_detour_def cas_detour_def static_set_detour_def swap_closure_def
        free_closure_def free_detour_def)
  ultimately show ?thesis by (fastforce simp: static_enable_def toggle_at_def)
qed

end
