(* ===== verification/Static_Backends.thy ===== *)
theory Static_Backends
  imports Detour_Backends Static_Threads
begin

text \<open>
  Static detours on the architectures: from \<^verbatim>\<open>initialize\<close> and \<^verbatim>\<open>enable\<close> to the call of the
  closure, and concrete runs of the theorems on static detours.
\<close>

section \<open>A hooked static detour\<close>

lemma static_initialize_Ok:
  assumes "static_wf s" "\<forall>c. dropc c = Ok ()" "static_initialize dropc arch os target c s = Returns (Ok (), s1)"
  obtains g w1 where "generic_new arch os target (sd_ffi s) (pr_world s) = Some (Ok g, w1)" "static_wf s1"
    "static_abs s1 = (static_abs s)\<lparr>sp_world := w1, sp_detour := Some g, sp_closure := Some c\<rparr>"
proof -
  have "implements (static_initialize dropc arch os target c s) (spec_initialize arch os target c (static_abs s))"
    by (rule static_initialize_implements [OF assms(1,2)])
  then show thesis
    using that assms(3)
    by (auto simp: implements_def spec_initialize_def static_abs_def split: option.splits res.splits prod.splits if_splits)
qed

context detour_backend
begin

lemma static_hooked:
  assumes wf: "static_wf s" and drops: "\<forall>c. dropc c = Ok ()"
    and init: "static_initialize dropc arch os target c s = Returns (Ok (), s1)"
    and enable: "static_enable arch os' s1 = Returns (Ok (), s2)"
    and synced: "w_icache (pr_world s) = w_mem (pr_world s)"
    and place: "\<And>d w1. detour_new arch os (to_ptr target) (to_ptr (sd_ffi s)) (pr_world s) = Some (Ok d, w1) \<Longrightarrow>
      detour_apart d \<and> near (to_ptr target) (detour_entry d (to_ptr (sd_ffi s)))
      \<and> (\<forall>em. d_relay d = Some em \<longrightarrow> landing (em_ptr em) (to_ptr (sd_ffi s)))"
  shows "static_is_enabled s2 = Returns True \<and> static_ffi_detour s2 = Returns (Ok c)
    \<and> runs_to (w_icache (pr_world s2)) (to_ptr target) (to_ptr (sd_ffi s))
    \<and> (\<forall>f. static_call s2 = Returns (Ok f) \<longrightarrow> fp_type f = fp_type (sd_ffi s)
        \<and> (\<exists>tr code. make_trampoline arch (w_mem (pr_world s)) (to_ptr target) (prolog_margin arch (to_ptr target)) = Ok tr
             \<and> emit (tramp_emitter tr) (to_ptr f) = Ok code \<and> code_at (w_icache (pr_world s2)) (to_ptr f) code))"
proof -
  obtain g w1 where new: "generic_new arch os target (sd_ffi s) (pr_world s) = Some (Ok g, w1)"
    and wf1: "static_wf s1"
    and abs1: "static_abs s1 = (static_abs s)\<lparr>sp_world := w1, sp_detour := Some g, sp_closure := Some c\<rparr>"
    using static_initialize_Ok [OF wf drops init] by blast
  obtain r d w2 where t: "detour_toggle arch os' True (gd_detour g) w1 = (r, d, w2)" by (metis prod_cases3)
  let ?g = "g\<lparr>gd_detour := d\<rparr>"
  have "implements (static_enable arch os' s1) (Some (spec_toggle arch os' True (static_abs s1)))"
    unfolding static_enable_def by (rule toggle_at_implements [OF wf1])
  then have r: "r = Ok ()" and wf2: "static_wf s2"
    and abs2: "static_abs s2 = (static_abs s)\<lparr>sp_world := w2, sp_detour := Some ?g, sp_closure := Some c\<rparr>"
    using enable t by (simp_all add: implements_def spec_toggle_def abs1)
  have w2: "pr_world s2 = w2" and ffi: "sd_ffi s2 = sd_ffi s"
    using arg_cong [OF abs2, of sp_world] arg_cong [OF abs2, of sp_ffi] by (simp_all add: static_abs_def)
  note new = new [unfolded generic_new_Ok]
  have on: "detour_enable arch os' (gd_detour g) w1 = (Ok (), d, w2)" using t r by (simp add: detour_enable_def)
  have enabled: "generic_is_enabled ?g"
    using on generic_enable_Ok [of arch os' g w1 ?g w2] by (simp add: generic_enable_def)
  note placed = place [OF conjunct2 [OF new]]
  obtain tr code where run: "runs_to (w_icache w2) (to_ptr target) (to_ptr (sd_ffi s))"
    and tr: "make_trampoline arch (w_mem (pr_world s)) (to_ptr target) (prolog_margin arch (to_ptr target)) = Ok tr"
      "emit (tramp_emitter tr) (em_ptr (d_trampoline (gd_detour g))) = Ok code"
      "code_at (w_icache w2) (em_ptr (d_trampoline (gd_detour g))) code"
    using enabled_detour [OF conjunct2 [OF new] on synced] placed by blast
  have same: "d_trampoline d = d_trampoline (gd_detour g)"
    using detour_toggle_same(3) [of arch os' True "gd_detour g" w1] t by simp
  note reads = static_reads [OF wf2, unfolded abs2 ffi, simplified]
  have call: "static_call s2 = (if em_ptr (d_trampoline (gd_detour g)) = 0 then Returns Panic
      else Returns (Ok (from_ptr (fp_type (sd_ffi s)) (em_ptr (d_trampoline (gd_detour g))))))"
    unfolding reads(2) using same by (simp add: generic_trampoline_def detour_trampoline_def)
  have "fp_type f = fp_type (sd_ffi s) \<and> to_ptr f = em_ptr (d_trampoline (gd_detour g))"
    if "static_call s2 = Returns (Ok f)" for f
    using that unfolding call by (simp add: from_ptr_def to_ptr_def split: if_splits) (metis fn_ptr.select_convs)
  moreover have "static_is_enabled s2 = Returns True" "static_ffi_detour s2 = Returns (Ok c)"
    using reads(1,3) enabled by simp_all
  ultimately show ?thesis using run tr unfolding w2 by metis
qed

end

text \<open>
  C8: a static detour on x86-64, from \<^verbatim>\<open>initialize\<close> through \<^verbatim>\<open>enable\<close>: a call of the target
  arrives at the function the macro generated, that function runs the closure, and \<^verbatim>\<open>call\<close>
  enters the trampoline of the target with the target's type.
\<close>

theorem static_hook_runs_closure:
  fixes target :: "('t, u64) fn_ptr"
  assumes "static_wf s" "\<forall>c. dropc c = Ok ()" "w_icache (pr_world s) = w_mem (pr_world s)"
    and "static_initialize dropc (x86_arch dec) os target c s = Returns (Ok (), s1)"
    and "static_enable (x86_arch dec) os' s1 = Returns (Ok (), s2)"
    and "\<And>d w1. detour_new (x86_arch dec) os (to_ptr target) (to_ptr (sd_ffi s)) (pr_world s) = Some (Ok d, w1)
      \<Longrightarrow> detour_apart d"
  shows "x86_runs_to (w_icache (pr_world s2)) (to_ptr target) (to_ptr (sd_ffi s))
    \<and> static_ffi_detour s2 = Returns (Ok c) \<and> static_is_enabled s2 = Returns True
    \<and> (\<forall>f. static_call s2 = Returns (Ok f) \<longrightarrow> fp_type f = fp_type (sd_ffi s)
        \<and> (\<exists>tr code. x86_trampoline_new dec (w_mem (pr_world s)) (to_ptr target) 5 = Ok tr
             \<and> emit (tramp_emitter tr) (to_ptr f) = Ok code \<and> code_at (w_icache (pr_world s2)) (to_ptr f) code))"
proof -
  have "static_is_enabled s2 = Returns True \<and> static_ffi_detour s2 = Returns (Ok c)
    \<and> x86_runs_to (w_icache (pr_world s2)) (to_ptr target) (to_ptr (sd_ffi s))
    \<and> (\<forall>f. static_call s2 = Returns (Ok f) \<longrightarrow> fp_type f = fp_type (sd_ffi s)
        \<and> (\<exists>tr code. make_trampoline (x86_arch dec) (w_mem (pr_world s)) (to_ptr target)
               (prolog_margin (x86_arch dec) (to_ptr target)) = Ok tr
             \<and> emit (tramp_emitter tr) (to_ptr f) = Ok code \<and> code_at (w_icache (pr_world s2)) (to_ptr f) code))"
    by (rule x86_64.static_hooked [OF assms(1,2,4,5,3)]) (use assms(6) in blast)
  moreover have "make_trampoline (x86_arch dec :: u64 architecture) = x86_trampoline_new dec"
      "prolog_margin (x86_arch dec) (to_ptr target) = 5"
    by (simp_all add: x86_arch_def x86_prolog_margin_def size_of_JumpRel_def)
  ultimately show ?thesis by metis
qed

section \<open>Concrete runs\<close>

text \<open>
  The example of the documentation: \<^verbatim>\<open>static Test: fn() -> i32\<close>, initialised with the function
  \<^verbatim>\<open>return_five\<close> at 0x400020; the macro's function is at 0x400040, and closures are numbers.
\<close>

definition test_type :: "string fn_type" where
  "test_type = \<lparr>fn_unsafe = False, fn_abi = None, fn_args = [], fn_ret = ''i32''\<rparr>"

abbreviation test_fn :: "u64 \<Rightarrow> (string, u64) fn_ptr" where
  "test_fn a \<equiv> from_ptr test_type a"

text \<open>The state after \<^verbatim>\<open>initialize\<close> has stored a detour and a closure in a fresh static.\<close>

definition static_ready ::
  "('t, 'u::len word) fn_ptr \<Rightarrow> ('t, 'u word) generic_detour \<Rightarrow> 'c \<Rightarrow> ('u word, 'p) world \<Rightarrow> ('t, 'u word, 'p, 'c) process" where
  "static_ready ffi g c w = process_new ffi w\<lparr>heap_detours := [0 \<mapsto> g], heap_closures := [1 \<mapsto> c],
     heap_next := 2, sd_detour := Some 0, sd_closure := Some 1\<rparr>"

lemma static_ready_simps [simp]:
  "sd_detour (static_ready ffi g c w) = Some 0" "heap_detours (static_ready ffi g c w) = [0 \<mapsto> g]"
  "pr_world (static_ready ffi g c w) = w" "sd_ffi (static_ready ffi g c w) = ffi"
  by (simp_all add: static_ready_def)

lemma process_new_world [simp]: "process_new ffi w\<lparr>pr_world := w'\<rparr> = process_new ffi w'"
  by (simp add: process_new_def static_new_def static_detour.extend_def process.fields_def)

lemma static_initialize_fresh:
  assumes "generic_new arch os target ffi w = Some (Ok g, w')"
  shows "static_initialize dropc arch os target c (process_new ffi w) = Returns (Ok (), static_ready ffi g c w')"
  using assms
  by (simp add: static_initialize_def box_detour_def cas_detour_def static_set_detour_def swap_closure_def
      free_closure_def static_ready_def)

lemma static_enable_ready:
  assumes "detour_toggle arch os True (gd_detour g) w = (Ok (), d, w')"
  shows "static_enable arch os (static_ready ffi g c w) = Returns (Ok (), static_ready ffi (g\<lparr>gd_detour := d\<rparr>) c w')"
proof -
  have "toggle_at arch os True 0 (static_ready ffi g c w) = Returns (Ok (), (static_ready ffi g c w)
      \<lparr>heap_detours := [0 \<mapsto> g, 0 \<mapsto> g\<lparr>gd_detour := d\<rparr>], pr_world := w'\<rparr>)"
    using toggle_at_live [of "static_ready ffi g c w" 0 g arch os True "Ok ()" d w'] assms by simp
  also have "(static_ready ffi g c w)\<lparr>heap_detours := [0 \<mapsto> g, 0 \<mapsto> g\<lparr>gd_detour := d\<rparr>], pr_world := w'\<rparr>
      = static_ready ffi (g\<lparr>gd_detour := d\<rparr>) c w'"
    by (simp add: static_ready_def process_new_def static_new_def static_detour.extend_def process.fields_def)
  finally show ?thesis by (simp add: static_enable_def)
qed

definition test_detour :: "(string, u64) generic_detour" where
  "test_detour = \<lparr>gd_phantom = test_type, gd_detour = demo_detour return_five_patcher return_five_code\<rparr>"

abbreviation test_arch :: "u64 architecture" where "test_arch \<equiv> x86_arch return_five_dec"

abbreviation test_created :: "(u64, u64 \<times> nat \<times> nat) world" where
  "test_created \<equiv> demo_created test_arch return_five_mem return_five_code"

lemmas test_new = return_five_new [OF return_five_tramp]

lemma test_generic_new:
  "generic_new test_arch demo_os (test_fn 0x400020) (test_fn 0x400040) (demo_world test_arch return_five_mem)
    = Some (Ok test_detour, test_created)"
  by (simp add: generic_new_Ok test_detour_def test_new) (simp add: from_ptr_def)

lemma test_enable:
  "detour_toggle test_arch demo_os True (gd_detour test_detour) test_created
    = (Ok (), (gd_detour test_detour)\<lparr>d_enabled := True\<rparr>, demo_enabled test_arch return_five_patcher test_created)"
  using return_five_enable by (simp add: detour_enable_def test_detour_def)

abbreviation test_hooked :: "(string, u64, u64 \<times> nat \<times> nat, nat) process" where
  "test_hooked \<equiv> static_ready (test_fn 0x400040) (test_detour\<lparr>gd_detour := (gd_detour test_detour)\<lparr>d_enabled := True\<rparr>\<rparr>)
     7 (demo_enabled test_arch return_five_patcher test_created)"

theorem static_hook_runs_closure_witness:
  "x86_runs_to (w_icache (pr_world test_hooked)) 0x400020 0x400040
    \<and> static_ffi_detour test_hooked = Returns (Ok 7) \<and> static_is_enabled test_hooked = Returns True"
proof -
  let ?s = "process_new (test_fn 0x400040) (demo_world test_arch return_five_mem)
    :: (string, u64, u64 \<times> nat \<times> nat, nat) process"
  have init: "static_initialize (\<lambda>_. Ok ()) test_arch demo_os (test_fn 0x400020) 7 ?s
      = Returns (Ok (), static_ready (test_fn 0x400040) test_detour 7 test_created)"
    by (rule static_initialize_fresh [OF test_generic_new])
  have on: "static_enable test_arch demo_os (static_ready (test_fn 0x400040) test_detour 7 test_created)
      = Returns (Ok (), test_hooked)"
    by (rule static_enable_ready [OF test_enable])
  show ?thesis
    using static_hook_runs_closure [OF static_wf_new _ _ init on] return_five_apart test_new by simp
qed

lemma test_hooked_wf: "static_wf test_hooked"
  by (simp add: static_wf_def static_ready_def)

text \<open>The closure is replaced while the hook is enabled.\<close>

theorem static_implements_contract_witness:
  "\<exists>s. static_set_detour (\<lambda>_. Ok ()) 9 test_hooked = Returns (Ok (), s) \<and> static_wf s
    \<and> static_abs s = (static_abs test_hooked)\<lparr>sp_closure := Some 9\<rparr> \<and> static_is_enabled test_hooked = Returns True"
proof -
  have "implements (static_set_detour (\<lambda>_. Ok ()) 9 test_hooked) (Some (Ok (), (static_abs test_hooked)\<lparr>sp_closure := Some 9\<rparr>))
    \<and> static_is_enabled test_hooked = Returns (case sp_detour (static_abs test_hooked) of None \<Rightarrow> False | Some g \<Rightarrow> generic_is_enabled g)"
    using static_implements_contract [OF test_hooked_wf, of "\<lambda>_. Ok ()" test_arch demo_os "test_fn 0" 9] by blast
  then show ?thesis
    by (simp add: implements_Returns) (simp add: static_abs_def generic_is_enabled_def detour_is_enabled_def)
qed

text \<open>One thread initialises the static, and then enables it.\<close>

lemma test_threads:
  "threads_reach (\<lambda>_. Ok ()) test_arch (process_new (test_fn 0x400040) (demo_world test_arch return_five_mem))
     ([Finished (Ok Initialized), Finished (Ok Done)], test_hooked)"
proof -
  let ?s = "process_new (test_fn 0x400040) (demo_world test_arch return_five_mem)
    :: (string, u64, u64 \<times> nat \<times> nat, nat) process"
  let ?ready = "static_ready (test_fn 0x400040) test_detour 7 test_created"
  let ?R = "threads_reach (\<lambda>_. Ok ()) test_arch ?s"
  have "?R ([] @ [Initialize (test_fn 0x400020) 7], ?s)"
    by (rule reach_begins [OF threads_reach.start]) (simp add: call_begins_def)
  moreover have "call_run (\<lambda>_. Ok ()) test_arch demo_os 5 (Initialize (test_fn 0x400020) 7) ?s
      = Some (Finished (Ok Initialized), ?ready)"
    using test_generic_new
    by (simp add: eval_nat_numeral call_stops_def box_detour_def cas_detour_def swap_closure_def free_closure_def
        after_def static_ready_def)
  ultimately have "?R ([] @ [Finished (Ok Initialized)], ?ready)" by (rule reach_alone)
  then have "?R (([] @ [Finished (Ok Initialized)]) @ [Toggle True], ?ready)"
    by (rule reach_begins) (simp add: call_begins_def)
  moreover have "call_run (\<lambda>_. Ok ()) test_arch demo_os 2 (Toggle True) ?ready = Some (Finished (Ok Done), test_hooked)"
    using static_enable_ready [OF test_enable, of "test_fn 0x400040" "7 :: nat"]
    by (simp add: eval_nat_numeral call_stops_def static_enable_def after_def)
  ultimately have "?R (([] @ [Finished (Ok Initialized)]) @ [Finished (Ok Done)], test_hooked)"
    by (rule reach_alone)
  then show ?thesis by simp
qed

theorem static_calls_safe_witness: "\<exists>c. static_ffi_detour test_hooked = Returns (Ok c)"
  using static_calls_safe [OF _ test_threads] by simp

text \<open>Afterwards one thread replaces the closure, and the generated function runs the new one.\<close>

theorem static_calls_implement_contract_witness:
  "\<exists>s. call_outcome (\<lambda>_. Ok ()) test_arch demo_os (SetDetour 9) test_hooked = Returns (Ok Done, s) \<and> static_wf s
    \<and> static_abs s = (static_abs test_hooked)\<lparr>sp_closure := Some 9\<rparr>
    \<and> call_outcome (\<lambda>_. Ok ()) test_arch demo_os Ffi test_hooked = Returns (Ok (Run 7), test_hooked)"
proof -
  have "implements (call_outcome (\<lambda>_. Ok ()) test_arch demo_os (SetDetour 9) test_hooked)
      (Some (Ok Done, (static_abs test_hooked)\<lparr>sp_closure := Some 9\<rparr>))
    \<and> call_outcome (\<lambda>_. Ok ()) test_arch demo_os Ffi test_hooked
        = Returns (case sp_closure (static_abs test_hooked) of None \<Rightarrow> Panic | Some c \<Rightarrow> Ok (Run c), test_hooked)"
    using static_calls_implement_contract [OF _ test_threads, where c = 9 and os = demo_os] by simp
  then show ?thesis
    by (simp add: implements_Returns) (simp add: static_abs_def static_ready_def)
qed

theorem static_initialize_window_witness:
  "\<exists>ks s p. threads_reach (\<lambda>_. Ok ()) test_arch (process_new (test_fn 0x400040) (demo_world test_arch return_five_mem)) (ks, s)
    \<and> InitSwap p 7 \<in> set ks \<and> x86_runs_to (w_icache (pr_world s)) 0x400020 0x400040
    \<and> static_is_enabled s = Returns True \<and> static_ffi_detour (s :: (string, u64, u64 \<times> nat \<times> nat, nat) process) = Returns Panic"
proof -
  let ?g = "test_detour\<lparr>gd_detour := (gd_detour test_detour)\<lparr>d_enabled := True\<rparr>\<rparr>"
  let ?w = "demo_enabled test_arch return_five_patcher test_created"
  have "generic_enable test_arch demo_os test_detour test_created = (Ok (), ?g, ?w)"
    using test_enable by (simp add: generic_toggle_eq)
  from static_initialize_window [OF test_generic_new this, of "\<lambda>_. Ok ()" 7]
  obtain ks p and s :: "(string, u64, u64 \<times> nat \<times> nat, nat) process"
    where "threads_reach (\<lambda>_. Ok ()) test_arch (process_new (test_fn 0x400040) (demo_world test_arch return_five_mem)) (ks, s)"
      "InitSwap p 7 \<in> set ks" "pr_world s = ?w" "static_is_enabled s = Returns True" "static_ffi_detour s = Returns Panic"
    by blast
  moreover have "x86_runs_to (w_icache ?w) 0x400020 0x400040"
    by (rule conjunct1 [OF conjunct2 [OF x86_64.enabled_detour [OF test_new return_five_enable _ return_five_apart]]])
      simp_all
  ultimately show ?thesis by metis
qed

text \<open>The closure 3 panics when it is dropped.\<close>

theorem static_panicking_drop_dangles_witness:
  "let dropc = (\<lambda>c :: nat. if c = 3 then Panic else Ok ())
   in \<exists>s1 s2. static_set_detour dropc 3 (process_new (test_fn 0x400040) (demo_world test_arch return_five_mem)) = Returns (Ok (), s1)
    \<and> static_initialize dropc test_arch demo_os (test_fn 0x400020) 7 s1 = Returns (Panic, s2)
    \<and> static_enable test_arch demo_os s2 = Dangling"
  unfolding Let_def by (rule static_panicking_drop_dangles [OF test_generic_new]) simp

end
