(* ===== verification/Static_Macro.thy ===== *)
theory Static_Macro
  imports Detour_Front
begin

text \<open>
  The macro \<^verbatim>\<open>static_detour!\<close> of \<^verbatim>\<open>src/macros.rs\<close>: its rules as functions on token trees. A
  token tree is an identifier or keyword, punctuation, a literal, a parenthesised or bracketed
  group, or a fragment the compiler has parsed as a whole (a type, an attribute, a path).
\<close>

section \<open>Token trees and rules\<close>

datatype 't tok =
    Ident string
  | Punct string
  | Lit string
  | Ty 't
  | Meta string
  | Path string
  | Paren "'t tok list"
  | Bracket "'t tok list"

text \<open>The rules of a macro are tried in order; an input no rule matches is a compile error.\<close>

primrec first_rule :: "('a \<Rightarrow> 'b option) list \<Rightarrow> 'a \<Rightarrow> 'b option" where
  "first_rule [] x = None"
| "first_rule (r # rs) x = (case r x of None \<Rightarrow> first_rule rs x | Some y \<Rightarrow> Some y)"

text \<open>\<^verbatim>\<open>$($argument_type:ty),*\<close>: types separated by commas.\<close>

fun comma_tail :: "'t list \<Rightarrow> 't tok list \<Rightarrow> 't list option" where
  "comma_tail acc [] = Some acc"
| "comma_tail acc (p # Ty t # rest) = (if p = Punct '','' then comma_tail (acc @ [t]) rest else None)"
| "comma_tail acc ts = None"

fun comma_types :: "'t tok list \<Rightarrow> 't list option" where
  "comma_types [] = Some []"
| "comma_types (Ty t # rest) = comma_tail [t] rest"
| "comma_types ts = None"

section \<open>Parsing one declaration\<close>

text \<open>Each stage takes the groups parsed so far and the remaining input.\<close>

type_synonym 't stage = "'t tok list \<times> 't tok list"

text \<open>1 --- meta attributes\<close>

fun parse_attributes :: "'t tok list \<Rightarrow> 't tok list \<Rightarrow> 't stage option" where
  "parse_attributes input (h # Bracket [Meta m] # rest) =
     (if h = Punct ''#'' then parse_attributes (input @ [Meta m]) rest
      else Some ([Paren input], h # Bracket [Meta m] # rest))"
| "parse_attributes input [] = None"
| "parse_attributes input rest = Some ([Paren input], rest)"

text \<open>2 --- pub modifier (path/scope/yes/no)\<close>

definition parse_access_modifier :: "'t stage \<Rightarrow> 't stage option" where
  "parse_access_modifier = (\<lambda>(input, rest). first_rule
     [\<lambda>rest. (case rest of p # Paren [i, Path vis] # s # rest \<Rightarrow>
        (if p = Ident ''pub'' \<and> i = Ident ''in'' \<and> s = Ident ''static''
         then Some (input @ [Paren [Ident ''pub'', Paren [Ident ''in'', Path vis]]], rest) else None) | _ \<Rightarrow> None),
      \<lambda>rest. (case rest of p # Paren [vis] # s # rest \<Rightarrow>
        (if p = Ident ''pub'' \<and> s = Ident ''static''
         then Some (input @ [Paren [Ident ''pub'', Paren [vis]]], rest) else None) | _ \<Rightarrow> None),
      \<lambda>rest. (case rest of p # s # rest \<Rightarrow>
        (if p = Ident ''pub'' \<and> s = Ident ''static'' then Some (input @ [Paren [Ident ''pub'']], rest) else None) | _ \<Rightarrow> None),
      \<lambda>rest. (case rest of s # rest \<Rightarrow>
        (if s = Ident ''static'' then Some (input @ [Paren []], rest) else None) | _ \<Rightarrow> None)] rest)"

text \<open>3 --- detour name\<close>

definition parse_name :: "'t stage \<Rightarrow> 't stage option" where
  "parse_name = (\<lambda>(input, rest).
     case rest of Ident name # c # rest \<Rightarrow>
       (if c = Punct '':'' then Some (input @ [Paren [Ident name]], rest) else None) | _ \<Rightarrow> None)"

text \<open>4 --- unsafe modifier (yes/no)\<close>

definition parse_unsafe :: "'t stage \<Rightarrow> ('t tok list \<times> 't stage) option" where
  "parse_unsafe = (\<lambda>(input, rest). first_rule
     [\<lambda>rest. (case rest of u # rest \<Rightarrow> (if u = Ident ''unsafe'' then Some ([Ident ''unsafe''], input, rest) else None)
        | _ \<Rightarrow> None),
      \<lambda>rest. Some ([], input, rest)] rest)"

text \<open>5 --- calling convention (extern "XXX"/extern/-)\<close>

definition parse_calling_convention :: "'t tok list \<times> 't stage \<Rightarrow> 't stage option" where
  "parse_calling_convention = (\<lambda>(modifier, input, rest). first_rule
     [\<lambda>rest. (case rest of e # cc # f # rest \<Rightarrow>
        (if e = Ident ''extern'' \<and> f = Ident ''fn''
         then Some (input @ [Paren (modifier @ [Ident ''extern'', cc])], rest) else None) | _ \<Rightarrow> None),
      \<lambda>rest. (case rest of e # f # rest \<Rightarrow>
        (if e = Ident ''extern'' \<and> f = Ident ''fn''
         then Some (input @ [Paren (modifier @ [Ident ''extern''])], rest) else None) | _ \<Rightarrow> None),
      \<lambda>rest. (case rest of f # rest \<Rightarrow>
        (if f = Ident ''fn'' then Some (input @ [Paren modifier], rest) else None) | _ \<Rightarrow> None)] rest)"

text \<open>6 --- argument and return type (return/void); \<open>void\<close> is the type \<^verbatim>\<open>()\<close>\<close>

definition parse_prototype :: "'t \<Rightarrow> 't stage \<Rightarrow> 't stage option" where
  "parse_prototype void = (\<lambda>(input, rest). first_rule
     [\<lambda>rest. (case rest of Paren args # a # Ty ret # s # rest \<Rightarrow>
        (if a = Punct ''->'' \<and> s = Punct '';''
         then map_option (\<lambda>types. (input @ [Paren (map Ty types), Paren [Ty ret]], Punct '';'' # rest)) (comma_types args)
         else None) | _ \<Rightarrow> None),
      \<lambda>rest. (case rest of Paren args # rest \<Rightarrow>
        map_option (\<lambda>types. (input @ [Paren (map Ty types), Paren [Ty void]], rest)) (comma_types args)
        | _ \<Rightarrow> None)] rest)"

text \<open>7 --- semicolon terminator\<close>

definition parse_terminator :: "'t stage \<Rightarrow> 't stage option" where
  "parse_terminator = (\<lambda>(input, rest).
     case rest of s # rest \<Rightarrow> (if s = Punct '';'' then Some (input, rest) else None) | _ \<Rightarrow> None)"

definition parse_declaration :: "'t \<Rightarrow> 't tok list \<Rightarrow> 't stage option" where
  "parse_declaration void ts =
     Option.bind (parse_attributes [] ts) (\<lambda>x.
     Option.bind (parse_access_modifier x) (\<lambda>x.
     Option.bind (parse_name x) (\<lambda>x.
     Option.bind (parse_unsafe x) (\<lambda>x.
     Option.bind (parse_calling_convention x) (\<lambda>x.
     Option.bind (parse_prototype void x) parse_terminator)))))"

section \<open>Generating the static\<close>

text \<open>
  The generated item: \<^verbatim>\<open>static name: StaticDetour<type>\<close> with the function \<^verbatim>\<open>__ffi_detour\<close>, whose
  body passes its arguments to \<^verbatim>\<open>name.__detour()\<close>.
\<close>

record 't static_item =
  si_attributes :: "string list"
  si_visibility :: "'t tok list"
  si_name :: string
  si_type :: "'t tok list"
  si_modifier :: "'t tok list"
  si_arguments :: "(string \<times> 't) list"
  si_return :: 't

definition arg_names :: "string list" where
  "arg_names = [''__arg_0'', ''__arg_1'', ''__arg_2'', ''__arg_3'', ''__arg_4'', ''__arg_5'', ''__arg_6'',
     ''__arg_7'', ''__arg_8'', ''__arg_9'', ''__arg_10'', ''__arg_11'', ''__arg_12'', ''__arg_13'']"

fun argument_names :: "string list \<Rightarrow> 't list \<Rightarrow> string list \<Rightarrow> string list option" where
  "argument_names (hd_name # tl_name) (ty # tys) acc = argument_names tl_name tys (acc @ [hd_name])"
| "argument_names name [] acc = Some acc"
| "argument_names [] (ty # tys) acc = None"

primrec intersperse_commas :: "'t tok list \<Rightarrow> 't tok list" where
  "intersperse_commas [] = []"
| "intersperse_commas (t # ts) = (if ts = [] then [t] else t # Punct '','' # intersperse_commas ts)"

definition create_detour ::
  "string list \<Rightarrow> string list \<Rightarrow> 't tok list \<Rightarrow> string \<Rightarrow> 't tok list \<Rightarrow> 't list \<Rightarrow> 't \<Rightarrow> 't static_item" where
  "create_detour argument_name attribute visibility name modifier argument_type return_type =
     \<lparr>si_attributes = ''allow(non_upper_case_globals)'' # attribute, si_visibility = visibility, si_name = name,
      si_type = modifier @ [Ident ''fn'', Paren (intersperse_commas (map Ty argument_type)), Punct ''->'', Ty return_type],
      si_modifier = modifier, si_arguments = zip argument_name argument_type, si_return = return_type\<rparr>"

fun metas :: "'t tok list \<Rightarrow> string list option" where
  "metas [] = Some []"
| "metas (Meta m # ts) = map_option ((#) m) (metas ts)"
| "metas ts = None"

fun types :: "'t tok list \<Rightarrow> 't list option" where
  "types [] = Some []"
| "types (Ty t # ts) = map_option ((#) t) (types ts)"
| "types ts = None"

text \<open>9 --- aggregate data for the generate function\<close>

definition aggregate :: "'t tok list \<Rightarrow> 't static_item option" where
  "aggregate input =
     (case input of
        [Paren attribute, Paren visibility, Paren [Ident name], Paren modifier, Paren argument_type, Paren [Ty return_type]] \<Rightarrow>
          Option.bind (metas attribute) (\<lambda>attribute.
          Option.bind (types argument_type) (\<lambda>argument_type.
          map_option (\<lambda>argument_name. create_detour argument_name attribute visibility name modifier argument_type return_type)
            (argument_names arg_names argument_type [])))
      | _ \<Rightarrow> None)"

section \<open>The documented syntax\<close>

text \<open>
  A declaration as the documentation of the macro writes it:
  \<^verbatim>\<open>[pub] static NAME: [unsafe] [extern "cc"] fn([argument]...) [-> ret];\<close>
\<close>

datatype 't visibility = Inherited | Pub | PubScope "'t tok" | PubIn string

datatype 't convention = Rust | Extern | ExternAbi "'t tok"

record 't detour_decl =
  dc_attributes :: "string list"
  dc_visibility :: "'t visibility"
  dc_name :: string
  dc_unsafe :: bool
  dc_convention :: "'t convention"
  dc_arguments :: "'t list"
  dc_return :: "'t option"

definition show_attributes :: "string list \<Rightarrow> 't tok list" where
  "show_attributes ms = concat (map (\<lambda>m. [Punct ''#'', Bracket [Meta m]]) ms)"

primrec show_visibility :: "'t visibility \<Rightarrow> 't tok list" where
  "show_visibility Inherited = []"
| "show_visibility Pub = [Ident ''pub'']"
| "show_visibility (PubScope t) = [Ident ''pub'', Paren [t]]"
| "show_visibility (PubIn p) = [Ident ''pub'', Paren [Ident ''in'', Path p]]"

definition show_unsafe :: "bool \<Rightarrow> 't tok list" where
  "show_unsafe u = (if u then [Ident ''unsafe''] else [])"

primrec show_convention :: "'t convention \<Rightarrow> 't tok list" where
  "show_convention Rust = []"
| "show_convention Extern = [Ident ''extern'']"
| "show_convention (ExternAbi cc) = [Ident ''extern'', cc]"

primrec show_return :: "'t option \<Rightarrow> 't tok list" where
  "show_return None = []"
| "show_return (Some t) = [Punct ''->'', Ty t]"

definition show_declaration :: "'t detour_decl \<Rightarrow> 't tok list" where
  "show_declaration d =
     show_attributes (dc_attributes d) @ show_visibility (dc_visibility d) @ [Ident ''static'', Ident (dc_name d), Punct '':'']
     @ show_unsafe (dc_unsafe d) @ show_convention (dc_convention d) @ [Ident ''fn'']
     @ [Paren (intersperse_commas (map Ty (dc_arguments d)))] @ show_return (dc_return d) @ [Punct '';'']"

text \<open>The groups a declaration is parsed into.\<close>

definition groups :: "'t \<Rightarrow> 't detour_decl \<Rightarrow> 't tok list" where
  "groups void d = [Paren (map Meta (dc_attributes d)), Paren (show_visibility (dc_visibility d)), Paren [Ident (dc_name d)],
     Paren (show_unsafe (dc_unsafe d) @ show_convention (dc_convention d)), Paren (map Ty (dc_arguments d)),
     Paren [Ty (case dc_return d of None \<Rightarrow> void | Some t \<Rightarrow> t)]]"

section \<open>Parsing inverts the syntax\<close>

lemma first_rule_Some: "first_rule rs x = Some y \<Longrightarrow> \<exists>r \<in> set rs. r x = Some y"
  by (induction rs) (auto split: option.splits)

lemma parse_attributes_inv:
  "parse_attributes input ts = Some (out, rest) \<Longrightarrow>
     \<exists>ms. ts = show_attributes ms @ rest \<and> out = [Paren (input @ map Meta ms)]"
proof (induction input ts rule: parse_attributes.induct)
  case (1 input h m rest')
  show ?case
  proof (cases "h = Punct ''#''")
    case True
    then obtain ms where "rest' = show_attributes ms @ rest" "out = [Paren ((input @ [Meta m]) @ map Meta ms)]"
      using 1 by auto
    then show ?thesis using True by (intro exI [of _ "m # ms"]) (simp add: show_attributes_def)
  qed (use 1 in \<open>auto simp: show_attributes_def intro!: exI [of _ "[]"]\<close>)
qed (auto simp: show_attributes_def intro!: exI [of _ "[]"])

lemma parse_access_inv:
  assumes "parse_access_modifier (input, ts) = Some (out, rest)"
  shows "\<exists>v. ts = show_visibility v @ Ident ''static'' # rest \<and> out = input @ [Paren (show_visibility v)]"
proof -
  consider p where "ts = [Ident ''pub'', Paren [Ident ''in'', Path p], Ident ''static''] @ rest"
      "out = input @ [Paren [Ident ''pub'', Paren [Ident ''in'', Path p]]]"
    | t where "ts = [Ident ''pub'', Paren [t], Ident ''static''] @ rest" "out = input @ [Paren [Ident ''pub'', Paren [t]]]"
    | "ts = [Ident ''pub'', Ident ''static''] @ rest" "out = input @ [Paren [Ident ''pub'']]"
    | "ts = [Ident ''static''] @ rest" "out = input @ [Paren []]"
    using assms unfolding parse_access_modifier_def
    by (auto dest!: first_rule_Some split: list.splits tok.splits if_splits)
  then show ?thesis
  proof cases
    case (1 p) then show ?thesis by (intro exI [of _ "PubIn p"]) simp
  next
    case (2 t) then show ?thesis by (intro exI [of _ "PubScope t"]) simp
  next
    case 3 then show ?thesis by (intro exI [of _ Pub]) simp
  next
    case 4 then show ?thesis by (intro exI [of _ Inherited]) simp
  qed
qed

lemma parse_name_inv:
  "parse_name (input, ts) = Some (out, rest) \<Longrightarrow> \<exists>n. ts = Ident n # Punct '':'' # rest \<and> out = input @ [Paren [Ident n]]"
  by (auto simp: parse_name_def split: list.splits tok.splits if_splits)

lemma parse_unsafe_inv:
  "parse_unsafe (input, ts) = Some (modifier, out, rest) \<Longrightarrow>
     \<exists>u. ts = show_unsafe u @ rest \<and> modifier = show_unsafe u \<and> out = input"
  by (auto simp: parse_unsafe_def show_unsafe_def split: list.splits if_splits)

lemma parse_convention_inv:
  assumes "parse_calling_convention (modifier, input, ts) = Some (out, rest)"
  shows "\<exists>e. ts = show_convention e @ Ident ''fn'' # rest \<and> out = input @ [Paren (modifier @ show_convention e)]"
proof -
  consider cc where "ts = [Ident ''extern'', cc, Ident ''fn''] @ rest" "out = input @ [Paren (modifier @ [Ident ''extern'', cc])]"
    | "ts = [Ident ''extern'', Ident ''fn''] @ rest" "out = input @ [Paren (modifier @ [Ident ''extern''])]"
    | "ts = [Ident ''fn''] @ rest" "out = input @ [Paren modifier]"
    using assms unfolding parse_calling_convention_def
    by (auto dest!: first_rule_Some split: list.splits if_splits)
  then show ?thesis
  proof cases
    case (1 cc) then show ?thesis by (intro exI [of _ "ExternAbi cc"]) simp
  next
    case 2 then show ?thesis by (intro exI [of _ Extern]) simp
  next
    case 3 then show ?thesis by (intro exI [of _ Rust]) simp
  qed
qed

lemma comma_tail_inv:
  "comma_tail acc ts = Some xs \<Longrightarrow> \<exists>ys. xs = acc @ ys \<and> ts = concat (map (\<lambda>y. [Punct '','', Ty y]) ys)"
proof (induction acc ts rule: comma_tail.induct)
  case (2 acc p t rest)
  then obtain ys where "p = Punct '',''" "xs = (acc @ [t]) @ ys" "rest = concat (map (\<lambda>y. [Punct '','', Ty y]) ys)"
    by (auto split: if_splits)
  then show ?case by (intro exI [of _ "t # ys"]) simp
qed auto

lemma intersperse_concat:
  "intersperse_commas (map Ty (x # xs)) = Ty x # concat (map (\<lambda>y. [Punct '','', Ty y]) xs)"
  by (induction xs arbitrary: x) auto

lemma comma_types_inv: "comma_types ts = Some xs \<Longrightarrow> ts = intersperse_commas (map Ty xs)"
  by (cases ts rule: comma_types.cases) (auto dest!: comma_tail_inv simp: intersperse_concat simp del: list.map(2))

lemma comma_types_show [simp]: "comma_types (intersperse_commas (map Ty xs)) = Some xs"
proof -
  have "comma_tail acc (concat (map (\<lambda>y. [Punct '','', Ty y]) ys)) = Some (acc @ ys)" for acc ys :: "'a list"
    by (induction ys arbitrary: acc) auto
  then show ?thesis by (cases xs) (simp_all add: intersperse_concat del: list.map(2))
qed

lemma parse_prototype_inv:
  assumes "parse_prototype void (input, ts) = Some x" "parse_terminator x = Some (out, rest)"
  shows "\<exists>args ret. ts = Paren (intersperse_commas (map Ty args)) # show_return ret @ Punct '';'' # rest
    \<and> out = input @ [Paren (map Ty args), Paren [Ty (case ret of None \<Rightarrow> void | Some t \<Rightarrow> t)]]"
proof -
  obtain out' rest' where x: "x = (out', rest')" by fastforce
  have t: "rest' = Punct '';'' # rest" "out' = out"
    using assms(2) x by (auto simp: parse_terminator_def split: list.splits if_splits)
  consider args types ret where "ts = [Paren args, Punct ''->'', Ty ret] @ rest'" "comma_types args = Some types"
      "out' = input @ [Paren (map Ty types), Paren [Ty ret]]"
    | args types where "ts = Paren args # rest'" "comma_types args = Some types"
      "out' = input @ [Paren (map Ty types), Paren [Ty void]]"
    using assms(1) [unfolded x parse_prototype_def prod.case]
    by - (drule first_rule_Some, auto split: list.splits tok.splits if_splits)
  then show ?thesis
  proof cases
    case (1 args types ret)
    then show ?thesis using t by (intro exI [of _ types] exI [of _ "Some ret"]) (auto dest: comma_types_inv)
  next
    case (2 args types)
    then show ?thesis using t by (intro exI [of _ types] exI [of _ None]) (auto dest: comma_types_inv)
  qed
qed

lemma parse_declaration_inv:
  assumes "parse_declaration void ts = Some (out, rest)"
  shows "\<exists>d. ts = show_declaration d @ rest \<and> out = groups void d"
proof -
  obtain a b c m e f where stages: "parse_attributes [] ts = Some a" "parse_access_modifier a = Some b"
      "parse_name b = Some c" "parse_unsafe c = Some m" "parse_calling_convention m = Some e"
      "parse_prototype void e = Some f" "parse_terminator f = Some (out, rest)"
    using assms by (auto simp: parse_declaration_def split: bind_splits)
  obtain ms where a: "ts = show_attributes ms @ snd a" "fst a = [Paren (map Meta ms)]"
    using parse_attributes_inv [of "[]" ts "fst a" "snd a"] stages(1) by auto
  obtain v where b: "snd a = show_visibility v @ Ident ''static'' # snd b" "fst b = fst a @ [Paren (show_visibility v)]"
    using parse_access_inv [of "fst a" "snd a" "fst b" "snd b"] stages(2) by auto
  obtain n where c: "snd b = Ident n # Punct '':'' # snd c" "fst c = fst b @ [Paren [Ident n]]"
    using parse_name_inv [of "fst b" "snd b" "fst c" "snd c"] stages(3) by auto
  obtain u where m: "snd c = show_unsafe u @ snd (snd m)" "fst m = show_unsafe u" "fst (snd m) = fst c"
    using parse_unsafe_inv [of "fst c" "snd c" "fst m" "fst (snd m)" "snd (snd m)"] stages(4) by auto
  obtain k where e: "snd (snd m) = show_convention k @ Ident ''fn'' # snd e"
      "fst e = fst (snd m) @ [Paren (fst m @ show_convention k)]"
    using parse_convention_inv [of "fst m" "fst (snd m)" "snd (snd m)" "fst e" "snd e"] stages(5) by auto
  obtain args ret where f: "snd e = Paren (intersperse_commas (map Ty args)) # show_return ret @ Punct '';'' # rest"
      "out = fst e @ [Paren (map Ty args), Paren [Ty (case ret of None \<Rightarrow> void | Some t \<Rightarrow> t)]]"
    using parse_prototype_inv [of void "fst e" "snd e" f out rest] stages(6,7) by auto
  let ?d = "\<lparr>dc_attributes = ms, dc_visibility = v, dc_name = n, dc_unsafe = u, dc_convention = k,
    dc_arguments = args, dc_return = ret\<rparr>"
  have "ts = show_declaration ?d @ rest" "out = groups void ?d"
    using a b c m e f by (simp_all add: show_declaration_def groups_def)
  then show ?thesis by blast
qed

lemma show_declaration_Nil [simp]: "show_declaration d \<noteq> []"
  by (simp add: show_declaration_def)

lemma parse_declaration_length: "parse_declaration void ts = Some (out, rest) \<Longrightarrow> length rest < length ts"
  by (drule parse_declaration_inv) (auto simp: show_declaration_def)

text \<open>The other direction: every declaration is parsed into its groups.\<close>

lemma parse_attributes_show:
  "rest \<noteq> [] \<Longrightarrow> hd rest \<noteq> Punct ''#'' \<Longrightarrow>
     parse_attributes input (show_attributes ms @ rest) = Some ([Paren (input @ map Meta ms)], rest)"
proof (induction ms arbitrary: input)
  case Nil
  then show ?case by (cases "(input, rest)" rule: parse_attributes.cases) (auto simp: show_attributes_def)
next
  case (Cons m ms)
  then show ?case by (simp add: show_attributes_def)
qed

lemma parse_declaration_show:
  "parse_declaration void (show_declaration d @ rest) = Some (groups void d, rest)"
proof -
  let ?tail = "show_return (dc_return d) @ Punct '';'' # rest"
  have a: "parse_attributes [] (show_declaration d @ rest) = Some ([Paren (map Meta (dc_attributes d))],
      show_visibility (dc_visibility d) @ [Ident ''static'', Ident (dc_name d), Punct '':''] @ show_unsafe (dc_unsafe d)
      @ show_convention (dc_convention d) @ [Ident ''fn'', Paren (intersperse_commas (map Ty (dc_arguments d)))] @ ?tail)"
    unfolding show_declaration_def append_assoc
    by (subst parse_attributes_show; cases "dc_visibility d") simp_all
  have b: "parse_access_modifier (input, show_visibility v @ Ident ''static'' # ts)
      = Some (input @ [Paren (show_visibility v)], ts)" for input v and ts :: "'a tok list"
    by (cases v) (auto simp: parse_access_modifier_def split: tok.splits list.splits)
  have c: "parse_name (input, Ident n # Punct '':'' # ts) = Some (input @ [Paren [Ident n]], ts)"
    for input n and ts :: "'a tok list" by (simp add: parse_name_def)
  have d: "parse_unsafe (input, show_unsafe u @ show_convention k @ Ident ''fn'' # ts)
      = Some (show_unsafe u, input, show_convention k @ Ident ''fn'' # ts)" for input u k and ts :: "'a tok list"
    by (cases u; cases k) (simp_all add: parse_unsafe_def show_unsafe_def)
  have e: "parse_calling_convention (mo, input, show_convention k @ Ident ''fn'' # Paren xs # ts)
      = Some (input @ [Paren (mo @ show_convention k)], Paren xs # ts)" for mo input k xs and ts :: "'a tok list"
    by (cases k) (simp_all add: parse_calling_convention_def split: list.splits)
  have f: "Option.bind (parse_prototype void (input, Paren (intersperse_commas (map Ty args)) # show_return ret @ Punct '';'' # rest))
      parse_terminator = Some (input @ [Paren (map Ty args), Paren [Ty (case ret of None \<Rightarrow> void | Some t \<Rightarrow> t)]], rest)"
    for input args ret
    by (cases ret) (simp_all add: parse_prototype_def parse_terminator_def split: list.splits tok.splits)
  show ?thesis
    using a b c d e f by (simp add: parse_declaration_def groups_def)
qed

section \<open>The macro\<close>

text \<open>8 --- additional detours (multiple/single), and the entry point\<close>

function static_detour_macro :: "'t \<Rightarrow> 't tok list \<Rightarrow> 't static_item list option" where
  "static_detour_macro void ts =
     (if ts = [] then None
      else Option.bind (parse_declaration void ts) (\<lambda>(input, rest).
        Option.bind (aggregate input) (\<lambda>item.
          if rest = [] then Some [item]
          else map_option ((#) item) (static_detour_macro void rest))))"
  by pat_completeness auto

termination
  by (relation "measure (\<lambda>(void, ts). length ts)") (auto dest: parse_declaration_length)

declare static_detour_macro.simps [simp del]

text \<open>
  The item a declaration stands for: the attributes behind the one the macro adds, the visibility
  and name as written, the function type of the declaration, and parameters \<^verbatim>\<open>__arg_0\<close>, \<^verbatim>\<open>__arg_1\<close>
  and so on of its argument types.
\<close>

definition arg_name :: "nat \<Rightarrow> string" where
  "arg_name k = ''__arg_'' @ (if k < 10 then [char_of (48 + k)] else [char_of (48 + k div 10), char_of (48 + k mod 10)])"

definition return_of :: "'t \<Rightarrow> 't detour_decl \<Rightarrow> 't" where
  "return_of void d = (case dc_return d of None \<Rightarrow> void | Some t \<Rightarrow> t)"

definition generated :: "'t \<Rightarrow> 't detour_decl \<Rightarrow> 't static_item" where
  "generated void d =
     \<lparr>si_attributes = ''allow(non_upper_case_globals)'' # dc_attributes d,
      si_visibility = show_visibility (dc_visibility d),
      si_name = dc_name d,
      si_type = show_unsafe (dc_unsafe d) @ show_convention (dc_convention d)
        @ [Ident ''fn'', Paren (intersperse_commas (map Ty (dc_arguments d))), Punct ''->'', Ty (return_of void d)],
      si_modifier = show_unsafe (dc_unsafe d) @ show_convention (dc_convention d),
      si_arguments = map (\<lambda>k. (arg_name k, dc_arguments d ! k)) [0..<length (dc_arguments d)],
      si_return = return_of void d\<rparr>"

lemma arg_names_nth:
  assumes "k < 14"
  shows "arg_names ! k = arg_name k"
proof -
  have names: "arg_names = map arg_name [0..<14]" by (simp add: arg_names_def arg_name_def upt_rec char_of_def bit_simps)
  have "map arg_name [0..<14] ! k = arg_name k" using assms by (subst nth_map) simp_all
  then show ?thesis by (simp only: names)
qed

lemma zip_arg_names:
  "length ts \<le> 14 \<Longrightarrow> zip (take (length ts) arg_names) ts = map (\<lambda>k. (arg_name k, ts ! k)) [0..<length ts]"
  by (intro nth_equalityI) (simp_all add: arg_names_nth, simp_all add: arg_names_def)

lemma create_detour_generated:
  assumes "length (dc_arguments d) \<le> 14"
  shows "create_detour (take (length (dc_arguments d)) arg_names) (dc_attributes d) (show_visibility (dc_visibility d))
     (dc_name d) (show_unsafe (dc_unsafe d) @ show_convention (dc_convention d)) (dc_arguments d) (return_of void d)
    = generated void d"
  by (simp add: create_detour_def generated_def zip_arg_names [OF assms])

lemma metas_map [simp]: "metas (map Meta ms) = Some ms"
  by (induction ms) auto

lemma types_map [simp]: "types (map Ty ts) = Some ts"
  by (induction ts) auto

lemma argument_names_eq:
  "argument_names names tys acc = (if length tys \<le> length names then Some (acc @ take (length tys) names) else None)"
  by (induction names tys acc rule: argument_names.induct) auto

lemma aggregate_groups:
  "aggregate (groups void d) = (if length (dc_arguments d) \<le> 14 then Some (generated void d) else None)"
  using create_detour_generated [of d void]
  by (simp add: aggregate_def groups_def return_of_def argument_names_eq) (simp add: arg_names_def)

lemma static_detour_macro_show:
  "static_detour_macro void (show_declaration d @ rest) =
     (if length (dc_arguments d) \<le> 14
      then if rest = [] then Some [generated void d] else map_option ((#) (generated void d)) (static_detour_macro void rest)
      else None)"
  by (subst static_detour_macro.simps) (simp add: parse_declaration_show aggregate_groups)

lemma static_detour_macro_accepts:
  "ds \<noteq> [] \<Longrightarrow> \<forall>d \<in> set ds. length (dc_arguments d) \<le> 14 \<Longrightarrow>
     static_detour_macro void (concat (map show_declaration ds)) = Some (map (generated void) ds)"
proof (induction ds)
  case (Cons d ds)
  then show ?case
    using static_detour_macro_show [of void d "concat (map show_declaration ds)"] by (cases ds) simp_all
qed simp

lemma static_detour_macro_Some:
  "static_detour_macro void ts = Some items \<Longrightarrow> \<exists>input rest. ts \<noteq> [] \<and> parse_declaration void ts = Some (input, rest)"
  using static_detour_macro.simps [of void ts] by (cases "parse_declaration void ts") (auto split: if_splits)

lemma static_detour_macro_inv:
  "static_detour_macro void ts = Some items \<Longrightarrow>
     \<exists>ds. ds \<noteq> [] \<and> ts = concat (map show_declaration ds) \<and> (\<forall>d \<in> set ds. length (dc_arguments d) \<le> 14)
       \<and> items = map (generated void) ds"
proof (induction void ts arbitrary: items rule: static_detour_macro.induct)
  case (1 void ts)
  obtain input rest where ts: "ts \<noteq> []" "parse_declaration void ts = Some (input, rest)"
    using static_detour_macro_Some [OF 1(2)] by blast
  from parse_declaration_inv [OF ts(2)] obtain d where d: "ts = show_declaration d @ rest" "input = groups void d"
    by (elim exE conjE)
  have few: "length (dc_arguments d) \<le> 14"
    using 1(2) unfolding d(1) static_detour_macro_show by (auto split: if_splits)
  show ?case
  proof (cases "rest = []")
    case True
    then show ?thesis
      using 1(2) few unfolding d(1) static_detour_macro_show by (intro exI [of _ "[d]"]) simp
  next
    case False
    then obtain items' where items: "static_detour_macro void rest = Some items'" "items = generated void d # items'"
      using 1(2) few unfolding d(1) static_detour_macro_show by auto
    have "aggregate input = Some (generated void d)" using d few by (simp add: aggregate_groups)
    from 1(1) [OF ts refl this False items(1)] obtain ds where "ds \<noteq> []" "rest = concat (map show_declaration ds)"
        "\<forall>d \<in> set ds. length (dc_arguments d) \<le> 14" "items' = map (generated void) ds" by blast
    then show ?thesis using d items few by (intro exI [of _ "d # ds"]) simp
  qed
qed

text \<open>
  C17: \<^verbatim>\<open>static_detour!\<close> accepts exactly the documented syntax, for functions of at most fourteen
  arguments, and generates one static per declaration, in order.
\<close>

theorem static_detour_syntax:
  "static_detour_macro void ts = Some items \<longleftrightarrow>
     (\<exists>ds. ds \<noteq> [] \<and> ts = concat (map show_declaration ds) \<and> (\<forall>d \<in> set ds. length (dc_arguments d) \<le> 14)
       \<and> items = map (generated void) ds)"
proof
  assume "static_detour_macro void ts = Some items"
  then show "\<exists>ds. ds \<noteq> [] \<and> ts = concat (map show_declaration ds) \<and> (\<forall>d \<in> set ds. length (dc_arguments d) \<le> 14)
       \<and> items = map (generated void) ds" by (rule static_detour_macro_inv)
qed (auto simp: static_detour_macro_accepts)

text \<open>\<^verbatim>\<open>pub static PubFoo: unsafe extern "C" fn(i32) -> i32; static Foo: fn();\<close>\<close>

theorem static_detour_syntax_witness:
  "static_detour_macro ''()''
     [Ident ''pub'', Ident ''static'', Ident ''PubFoo'', Punct '':'', Ident ''unsafe'', Ident ''extern'', Lit ''C'',
      Ident ''fn'', Paren [Ty ''i32''], Punct ''->'', Ty ''i32'', Punct '';'',
      Ident ''static'', Ident ''Foo'', Punct '':'', Ident ''fn'', Paren [], Punct '';''] =
   Some [\<lparr>si_attributes = [''allow(non_upper_case_globals)''], si_visibility = [Ident ''pub''], si_name = ''PubFoo'',
      si_type = [Ident ''unsafe'', Ident ''extern'', Lit ''C'', Ident ''fn'', Paren [Ty ''i32''], Punct ''->'', Ty ''i32''],
      si_modifier = [Ident ''unsafe'', Ident ''extern'', Lit ''C''], si_arguments = [(''__arg_0'', ''i32'')], si_return = ''i32''\<rparr>,
    \<lparr>si_attributes = [''allow(non_upper_case_globals)''], si_visibility = [], si_name = ''Foo'',
      si_type = [Ident ''fn'', Paren [], Punct ''->'', Ty ''()''], si_modifier = [], si_arguments = [], si_return = ''()''\<rparr>]"
proof -
  let ?ds = "[\<lparr>dc_attributes = [], dc_visibility = Pub, dc_name = ''PubFoo'', dc_unsafe = True, dc_convention = ExternAbi (Lit ''C''),
      dc_arguments = [''i32''], dc_return = Some ''i32''\<rparr>,
    \<lparr>dc_attributes = [], dc_visibility = Inherited, dc_name = ''Foo'', dc_unsafe = False, dc_convention = Rust,
      dc_arguments = [], dc_return = None\<rparr>]"
  show ?thesis
    by (rule static_detour_syntax [THEN iffD2], rule exI [of _ ?ds])
      (simp add: show_declaration_def show_attributes_def show_unsafe_def generated_def return_of_def arg_name_def char_of_def bit_simps)
qed

end
