(* ===== verification/Messagebox_Example.thy ===== *)
theory Messagebox_Example
  imports Static_Backends Static_Macro
begin

text \<open>
  \<^verbatim>\<open>examples/messageboxw_detour.rs\<close>: a library for 64-bit Windows that detours \<^verbatim>\<open>MessageBoxW\<close> when it
  is attached to a process. The functions of \<^verbatim>\<open>kernel32\<close> are parameters.
\<close>

section \<open>The static detour\<close>

definition FnMessageBoxW :: "string fn_type" where
  "FnMessageBoxW = \<lparr>fn_unsafe = True, fn_abi = Some ''system'',
     fn_args = [''HWND'', ''LPCWSTR'', ''LPCWSTR'', ''UINT''], fn_ret = ''c_int''\<rparr>"

definition MessageBoxWHook :: "string static_item list option" where
  "MessageBoxWHook = static_detour_macro ''()''
     [Ident ''static'', Ident ''MessageBoxWHook'', Punct '':'', Ident ''unsafe'', Ident ''extern'', Lit ''system'', Ident ''fn'',
      Paren [Ty ''HWND'', Punct '','', Ty ''LPCWSTR'', Punct '','', Ty ''LPCWSTR'', Punct '','', Ty ''UINT''],
      Punct ''->'', Ty ''c_int'', Punct '';'']"

section \<open>The library\<close>

text \<open>
  The functions of Windows: a module handle from its name, and an address from a handle and a name,
  which are zero when there is none. Both names end with a zero.
\<close>

type_synonym u16 = "16 word"

record winapi =
  GetModuleHandleW :: "u16 list \<Rightarrow> u64"
  GetProcAddress :: "u64 \<Rightarrow> u8 list \<Rightarrow> u64"

text \<open>The code units of a string below U+0100, of which a character is one code point.\<close>

definition encode_utf16 :: "string \<Rightarrow> u16 list" where
  "encode_utf16 = map of_char"

definition get_module_symbol_address :: "winapi \<Rightarrow> string \<Rightarrow> string \<Rightarrow> u64 option res" where
  "get_module_symbol_address api module symbol =
     (let module = encode_utf16 module @ [0] in
      if CHR 0x00 \<in> set symbol then Panic
      else
        (let symbol = map of_char symbol @ [0];
             handle = GetModuleHandleW api module;
             n = GetProcAddress api handle symbol in
         Ok (if n = 0 then None else Some n)))"

text \<open>The only value of the type of the function that is stored as the closure; dropping it does nothing.\<close>

datatype hook_closure = Messageboxw_detour

definition example_main ::
  "winapi \<Rightarrow> u64 architecture \<Rightarrow> (u64, 'p) os \<Rightarrow> (string, u64, 'p, hook_closure) process
     \<Rightarrow> (unit res \<times> (string, u64, 'p, hook_closure) process) outcome" where
  "example_main api arch os s =
     (case get_module_symbol_address api ''user32.dll'' ''MessageBoxW'' of
        Ok (Some address) \<Rightarrow>
          (let target = from_ptr FnMessageBoxW address in
           case static_initialize (\<lambda>_. Ok ()) arch os target Messageboxw_detour s of
             Returns (Ok _, s) \<Rightarrow> static_enable arch os s
           | failed \<Rightarrow> failed)
      | _ \<Rightarrow> Returns (Panic, s))"

text \<open>A string argument is an address of the caller, or the buffer of a vector.\<close>

datatype lpcwstr = AtAddress u64 | OfVec "u16 list"

text \<open>The function that is called, with its arguments.\<close>

definition messageboxw_detour ::
  "(string, u64, 'p, hook_closure) process \<Rightarrow> u64 \<Rightarrow> lpcwstr \<Rightarrow> lpcwstr \<Rightarrow> u32
     \<Rightarrow> ((string, u64) fn_ptr res \<times> u64 \<times> lpcwstr \<times> lpcwstr \<times> u32) outcome" where
  "messageboxw_detour s hwnd text caption u_type =
     (let replaced_caption = encode_utf16 (''Detoured!'' @ [CHR 0x00]) in
      case static_call s of
        Returns f \<Rightarrow> Returns (f, hwnd, text, OfVec replaced_caption, u_type)
      | Diverges \<Rightarrow> Diverges
      | Dangling \<Rightarrow> Dangling)"

definition DLL_PROCESS_ATTACH :: u32 where
  "DLL_PROCESS_ATTACH = 1"

text \<open>A panic cannot leave the function, and aborts the process.\<close>

definition DllMain ::
  "winapi \<Rightarrow> u64 architecture \<Rightarrow> (u64, 'p) os \<Rightarrow> u32 \<Rightarrow> (string, u64, 'p, hook_closure) process
     \<Rightarrow> (u32 res \<times> (string, u64, 'p, hook_closure) process) outcome" where
  "DllMain api arch os call_reason s =
     (if call_reason = DLL_PROCESS_ATTACH then
        (case example_main api arch os s of
           Returns (Ok _, s) \<Rightarrow> Returns (Ok 1, s)
         | Returns (Err _, s) \<Rightarrow> Returns (Ok 0, s)
         | Returns (Panic, s) \<Rightarrow> Returns (Panic, s)
         | Diverges \<Rightarrow> Diverges
         | Dangling \<Rightarrow> Dangling)
      else Returns (Ok 1, s))"

section \<open>What it does\<close>

text \<open>The static has the type of \<^verbatim>\<open>MessageBoxW\<close>.\<close>

lemma MessageBoxWHook_type:
  "\<exists>item. MessageBoxWHook = Some [item] \<and> si_name item = ''MessageBoxWHook'' \<and> map snd (si_arguments item) = fn_args FnMessageBoxW
     \<and> si_return item = fn_ret FnMessageBoxW \<and> si_modifier item = [Ident ''unsafe'', Ident ''extern'', Lit ''system'']"
proof -
  let ?d = "\<lparr>dc_attributes = [], dc_visibility = Inherited, dc_name = ''MessageBoxWHook'', dc_unsafe = True,
    dc_convention = ExternAbi (Lit ''system''), dc_arguments = [''HWND'', ''LPCWSTR'', ''LPCWSTR'', ''UINT''], dc_return = Some ''c_int''\<rparr>"
  have "MessageBoxWHook = Some [generated ''()'' ?d]"
    using static_detour_macro_accepts [of "[?d]" "''()''"]
    by (simp add: MessageBoxWHook_def show_declaration_def show_attributes_def show_unsafe_def)
  then show ?thesis
    by (intro exI [of _ "generated ''()'' ?d"])
      (simp add: generated_def return_of_def arg_name_def char_of_def bit_simps arg_names_def FnMessageBoxW_def show_unsafe_def)
qed

lemma get_module_symbol_address_Ok:
  "CHR 0x00 \<notin> set symbol \<Longrightarrow> get_module_symbol_address api module symbol = Ok (Some a) \<longleftrightarrow>
     a \<noteq> 0 \<and> GetProcAddress api (GetModuleHandleW api (encode_utf16 module @ [0])) (map of_char symbol @ [0]) = a"
  by (auto simp: get_module_symbol_address_def Let_def)

lemma example_main_Ok:
  assumes "example_main api arch os s = Returns (Ok (), s2)"
  obtains address s1 where "get_module_symbol_address api ''user32.dll'' ''MessageBoxW'' = Ok (Some address)"
    "static_initialize (\<lambda>_. Ok ()) arch os (from_ptr FnMessageBoxW address) Messageboxw_detour s = Returns (Ok (), s1)"
    "static_enable arch os s1 = Returns (Ok (), s2)"
  using assms by (auto simp: example_main_def Let_def split: res.splits option.splits outcome.splits prod.splits)

text \<open>Detached from the process, the library does not remove its hook.\<close>

lemma dll_detach_keeps_hook: "call_reason \<noteq> DLL_PROCESS_ATTACH \<Longrightarrow> DllMain api arch os call_reason s = Returns (Ok 1, s)"
  by (simp add: DllMain_def)

text \<open>
  C23: the example. When attaching the library succeeds, every call of the process's \<^verbatim>\<open>MessageBoxW\<close>
  arrives at the function the macro generated, that function runs \<^verbatim>\<open>messageboxw_detour\<close>, and this calls
  the trampoline of \<^verbatim>\<open>MessageBoxW\<close> with the arguments it got, but for the caption.
\<close>

theorem dll_attach_detours_messageboxw:
  assumes "DllMain api (x86_arch dec) os DLL_PROCESS_ATTACH s = Returns (Ok 1, s2)"
    and "static_wf s" "w_icache (pr_world s) = w_mem (pr_world s)" "fp_type (sd_ffi s) = FnMessageBoxW"
    and "address = GetProcAddress api (GetModuleHandleW api (encode_utf16 ''user32.dll'' @ [0])) (map of_char ''MessageBoxW'' @ [0])"
    and "\<And>d w1. detour_new (x86_arch dec) os address (to_ptr (sd_ffi s)) (pr_world s) = Some (Ok d, w1) \<Longrightarrow> detour_apart d"
  shows "address \<noteq> 0 \<and> x86_runs_to (w_icache (pr_world s2)) address (to_ptr (sd_ffi s))
    \<and> static_ffi_detour s2 = Returns (Ok Messageboxw_detour)
    \<and> (\<forall>hwnd text caption u_type f args. messageboxw_detour s2 hwnd text caption u_type = Returns (Ok f, args) \<longrightarrow>
        args = (hwnd, text, OfVec [0x44, 0x65, 0x74, 0x6F, 0x75, 0x72, 0x65, 0x64, 0x21, 0], u_type) \<and> fp_type f = FnMessageBoxW
        \<and> (\<exists>tr code. x86_trampoline_new dec (w_mem (pr_world s)) address 5 = Ok tr
             \<and> emit (tramp_emitter tr) (to_ptr f) = Ok code \<and> code_at (w_icache (pr_world s2)) (to_ptr f) code))"
proof -
  let ?T = "from_ptr FnMessageBoxW address"
  have main: "example_main api (x86_arch dec) os s = Returns (Ok (), s2)"
    using assms(1) by (auto simp: DllMain_def split: outcome.splits prod.splits res.splits)
  obtain a s1 where a: "get_module_symbol_address api ''user32.dll'' ''MessageBoxW'' = Ok (Some a)"
    "static_initialize (\<lambda>_. Ok ()) (x86_arch dec) os (from_ptr FnMessageBoxW a) Messageboxw_detour s = Returns (Ok (), s1)"
    and on: "static_enable (x86_arch dec) os s1 = Returns (Ok (), s2)"
    using main by (rule example_main_Ok)
  have "CHR 0x00 \<notin> set ''MessageBoxW''" by simp
  from get_module_symbol_address_Ok [OF this] a(1) assms(5) have "a = address" "address \<noteq> 0" by metis+
  with a(2) have init: "static_initialize (\<lambda>_. Ok ()) (x86_arch dec) os ?T Messageboxw_detour s = Returns (Ok (), s1)" by simp
  have hooked: "static_is_enabled s2 = Returns True \<and> static_ffi_detour s2 = Returns (Ok Messageboxw_detour)
    \<and> x86_runs_to (w_icache (pr_world s2)) (to_ptr ?T) (to_ptr (sd_ffi s))
    \<and> (\<forall>f. static_call s2 = Returns (Ok f) \<longrightarrow> fp_type f = fp_type (sd_ffi s)
        \<and> (\<exists>tr code. make_trampoline (x86_arch dec) (w_mem (pr_world s)) (to_ptr ?T)
               (prolog_margin (x86_arch dec) (to_ptr ?T)) = Ok tr
             \<and> emit (tramp_emitter tr) (to_ptr f) = Ok code \<and> code_at (w_icache (pr_world s2)) (to_ptr f) code))"
    by (rule x86_64.static_hooked [OF assms(2) _ init on assms(3)]) (use assms(6) in auto)
  have "static_call s2 = Returns (Ok f) \<and> args = (h, t, OfVec [0x44, 0x65, 0x74, 0x6F, 0x75, 0x72, 0x65, 0x64, 0x21, 0], u)"
    if "messageboxw_detour s2 h t c u = Returns (Ok f, args)" for h t c u f args
    using that by (auto simp: messageboxw_detour_def encode_utf16_def of_char_def Let_def split: outcome.splits)
  moreover have "make_trampoline (x86_arch dec :: u64 architecture) = x86_trampoline_new dec"
      "prolog_margin (x86_arch dec) (to_ptr ?T) = 5"
    by (simp_all add: x86_arch_def x86_prolog_margin_def size_of_JumpRel_def)
  ultimately show ?thesis using hooked \<open>address \<noteq> 0\<close> assms(4) by simp
qed

text \<open>
  A process in which \<^verbatim>\<open>MessageBoxW\<close> is the function at 0x400020, and the function of the macro at
  0x400040.
\<close>

definition example_api :: winapi where
  "example_api = \<lparr>GetModuleHandleW = (\<lambda>name. if name = encode_utf16 ''user32.dll'' @ [0] then 0x400000 else 0),
     GetProcAddress = (\<lambda>handle name. if handle = 0x400000 \<and> name = map of_char ''MessageBoxW'' @ [0] then 0x400020 else 0)\<rparr>"

abbreviation example_fn :: "u64 \<Rightarrow> (string, u64) fn_ptr" where
  "example_fn \<equiv> from_ptr FnMessageBoxW"

abbreviation example_process :: "(string, u64, u64 \<times> nat \<times> nat, hook_closure) process" where
  "example_process \<equiv> process_new (example_fn 0x400040) (demo_world test_arch return_five_mem)"

lemma example_attached:
  "\<exists>s2. DllMain example_api test_arch demo_os DLL_PROCESS_ATTACH example_process = Returns (Ok 1, s2)"
proof -
  let ?g = "\<lparr>gd_phantom = FnMessageBoxW, gd_detour = demo_detour return_five_patcher return_five_code\<rparr>"
  have "generic_new test_arch demo_os (example_fn 0x400020) (example_fn 0x400040) (demo_world test_arch return_five_mem)
      = Some (Ok ?g, test_created)"
    by (simp add: generic_new_Ok test_new) (simp add: from_ptr_def)
  then have init: "static_initialize (\<lambda>_. Ok ()) test_arch demo_os (example_fn 0x400020) Messageboxw_detour example_process
      = Returns (Ok (), static_ready (example_fn 0x400040) ?g Messageboxw_detour test_created)"
    by (rule static_initialize_fresh)
  have on: "detour_toggle test_arch demo_os True (gd_detour ?g) test_created
      = (Ok (), (gd_detour ?g)\<lparr>d_enabled := True\<rparr>, demo_enabled test_arch return_five_patcher test_created)"
    using test_enable by (simp add: test_detour_def)
  have "\<exists>s2. example_main example_api test_arch demo_os example_process = Returns (Ok (), s2)"
    by (simp add: example_main_def get_module_symbol_address_def example_api_def init static_enable_ready [OF on])
  then show ?thesis by (auto simp: DllMain_def)
qed

theorem dll_attach_detours_messageboxw_witness:
  "\<exists>s2. DllMain example_api test_arch demo_os DLL_PROCESS_ATTACH example_process = Returns (Ok 1, s2)
    \<and> x86_runs_to (w_icache (pr_world s2)) 0x400020 0x400040
    \<and> static_ffi_detour s2 = Returns (Ok Messageboxw_detour)"
proof -
  obtain s2 where s2: "DllMain example_api test_arch demo_os DLL_PROCESS_ATTACH example_process = Returns (Ok 1, s2)"
    using example_attached by blast
  have "0x400020 = GetProcAddress example_api (GetModuleHandleW example_api (encode_utf16 ''user32.dll'' @ [0]))
      (map of_char ''MessageBoxW'' @ [0])"
    by (simp add: example_api_def)
  from dll_attach_detours_messageboxw [OF s2 static_wf_new _ _ this] s2 return_five_apart test_new show ?thesis
    by (auto simp: from_ptr_def to_ptr_def)
qed

end
