(* ===== verification/Detour_Tests.thy ===== *)
theory Detour_Tests
  imports Detour_Front Detour_Example
begin

text \<open>
  The helper \<^verbatim>\<open>detour_test\<close> that the unit tests of \<^verbatim>\<open>src/arch/x86/mod.rs\<close>, \<^verbatim>\<open>src/arch/aarch64/mod.rs\<close>
  and \<^verbatim>\<open>src/arch/riscv/mod.rs\<close> share: it hooks a function, calls it in every state of the hook,
  and asserts the results. \<open>call m f\<close> is what a call of the function at \<open>f\<close> returns on the
  processor of the architecture, when it returns. A failed assertion is a panic, the value of a
  test that does not come to its end is \<open>None\<close>.
\<close>

section \<open>The test\<close>

definition assert_returns ::
  "('u::len mem \<Rightarrow> 'u word \<Rightarrow> u32 option) \<Rightarrow> 'u word \<Rightarrow> u32 \<Rightarrow> 'd \<times> ('u word, 'p) world
     \<Rightarrow> (unit res \<times> 'd \<times> ('u word, 'p) world) option" where
  "assert_returns call f v s =
     map_option (\<lambda>x. (if x = v then Ok () else Panic, s)) (call (w_icache (snd s)) f)"

text \<open>The operator \<^verbatim>\<open>?\<close>, and the unwinding of a panic, between two statements.\<close>

definition and_then :: "(unit res \<times> 's) option \<Rightarrow> ('s \<Rightarrow> (unit res \<times> 's) option) \<Rightarrow> (unit res \<times> 's) option" where
  "and_then m k = Option.bind m (\<lambda>(r, s). case r of Ok _ \<Rightarrow> k s | _ \<Rightarrow> Some (r, s))"

definition detour_test_body ::
  "('u::len word) architecture \<Rightarrow> ('u word, 'p) os \<Rightarrow> ('u mem \<Rightarrow> 'u word \<Rightarrow> u32 option) \<Rightarrow> 'u word \<Rightarrow> u32
     \<Rightarrow> 'u word raw_detour \<times> ('u word, 'p) world \<Rightarrow> (unit res \<times> 'u word raw_detour \<times> ('u word, 'p) world) option" where
  "detour_test_body arch os call target result s =
     and_then (assert_returns call target result s) (\<lambda>(hook, w).
     and_then (Some (raw_enable arch os hook w)) (\<lambda>s.
     and_then (assert_returns call target 10 s) (\<lambda>(hook, w).
       case raw_trampoline hook of
         Ok original \<Rightarrow>
           and_then (assert_returns call original result (hook, w)) (\<lambda>(hook, w).
           and_then (Some (raw_disable arch os hook w)) (\<lambda>s.
             assert_returns call target result s))
       | Err e \<Rightarrow> Some (Err e, hook, w)
       | Panic \<Rightarrow> Some (Panic, hook, w))))"

text \<open>At the end of its scope, also on an early return or a panic, the hook is dropped.\<close>

definition end_of_scope ::
  "('u::len word) architecture \<Rightarrow> ('u word, 'p) os \<Rightarrow> unit res \<times> 'u word raw_detour \<times> ('u word, 'p) world
     \<Rightarrow> unit res \<times> ('u word, 'p) world" where
  "end_of_scope arch os rs =
     (case rs of (r, hook, w) \<Rightarrow>
        (case detour_drop arch os (raw_inner hook) w of
           (Ok _, w) \<Rightarrow> (r, w)
         | (_, w) \<Rightarrow> (Panic, w)))"

definition detour_test ::
  "('u::len word) architecture \<Rightarrow> ('u word, 'p) os \<Rightarrow> ('u mem \<Rightarrow> 'u word \<Rightarrow> u32 option) \<Rightarrow> 'u word
     \<Rightarrow> 'u word \<Rightarrow> u32 \<Rightarrow> ('u word, 'p) world \<Rightarrow> (unit res \<times> ('u word, 'p) world) option" where
  "detour_test arch os call ret10 target result w =
     Option.bind (raw_new arch os target ret10 w) (\<lambda>(r, w).
       case r of
         Ok hook \<Rightarrow> map_option (end_of_scope arch os) (detour_test_body arch os call target result (hook, w))
       | Err e \<Rightarrow> Some (Err e, w)
       | Panic \<Rightarrow> Some (Panic, w))"

lemma and_then_simps [simp]:
  "and_then None k = None" "and_then (Some (Ok (), s)) k = k s"
  "and_then (Some (Err e, s)) k = Some (Err e, s)" "and_then (Some (Panic, s)) k = Some (Panic, s)"
  by (simp_all add: and_then_def)

text \<open>An error of \<^verbatim>\<open>RawDetour::new\<close> is the error of the test.\<close>

lemma detour_test_refused:
  "detour_new arch os target ret10 w = Some (Err e, w1) \<Longrightarrow>
     detour_test arch os call ret10 target result w = Some (Err e, w1)"
  by (simp add: detour_test_def raw_new_def)

section \<open>When the test passes\<close>

lemma detour_test_passes:
  fixes w1 :: "('u::len word, 'p) world"
  assumes new: "detour_new arch os target ret10 w = Some (Ok d, w1)"
    and ok: "area_ok w1 d" "icache_ok arch w1" "\<not> d_enabled d"
    and en: "detour_enable arch os d w1 = (Ok (), d2, w2)"
    and prot: "os_protect os (area_ptr (d_patcher d)) (area_len (d_patcher d)) = None"
    and "em_ptr (d_trampoline d) \<noteq> 0" and drop: "drop_fields os d w1 = (Ok (), w4)"
    and "call (w_icache w1) target = Some result" "call (w_icache w2) target = Some 10"
    and "call (w_icache w2) (em_ptr (d_trampoline d)) = Some result"
  shows "detour_test arch os call ret10 target result w = Some (Ok (), w4)"
proof -
  have wf: "patcher_wf (d_patcher d)" using ok(1) by (simp add: area_ok_def)
  have d2: "d2 = d\<lparr>d_enabled := True\<rparr>" and w2: "\<not> w_poisoned w2" "\<not> w_poisoned w1"
    using en ok(3) prot by (auto simp: detour_enable_def detour_toggle_wf [OF wf] split: if_splits)
  obtain d3 w3 where dis: "detour_disable arch os d2 w2 = (Ok (), d3, w3)"
    using prot w2 wf unfolding d2
    by (simp add: detour_disable_def detour_toggle_wf)
  have same: "d3 = d" "w3 = w1"
    using toggled_back [OF ok en dis] by simp_all
  have drop': "detour_drop arch os d w1 = (Ok (), w4)"
    using drop ok(3) w2 wf by (simp add: detour_drop_def detour_disable_def detour_toggle_wf)
  have body: "detour_test_body arch os call target result (RawDetour d, w1) = Some (Ok (), RawDetour d, w1)"
    using en dis assms(7,9-11)
    by (simp add: detour_test_body_def assert_returns_def raw_enable_def raw_disable_def raw_trampoline_def
        detour_trampoline_def same d2)
  show ?thesis
    by (simp add: detour_test_def raw_new_def new body end_of_scope_def drop')
qed

section \<open>Refusing to hook a function to itself\<close>

text \<open>\<^verbatim>\<open>assert_matches!\<close> on \<^verbatim>\<open>unwrap_err\<close>, which panics when there is no error.\<close>

definition same_detour_and_target ::
  "('u::len word) architecture \<Rightarrow> ('u word, 'p) os \<Rightarrow> 'u word \<Rightarrow> ('u word, 'p) world \<Rightarrow> unit res option" where
  "same_detour_and_target arch os identity w =
     map_option (\<lambda>(r, w). case r of Err SameAddress \<Rightarrow> Ok () | _ \<Rightarrow> Panic) (raw_new arch os identity identity w)"

lemma same_detour_and_target_passes: "same_detour_and_target arch os identity w = Some (Ok ())"
  by (simp add: same_detour_and_target_def raw_new_def detour_new_def)

section \<open>Calling a function\<close>

text \<open>
  A processor is the step of one instruction. It runs until it meets bytes that are no
  instruction; \<open>start m f\<close> is the state of a call of \<open>f\<close>, and \<open>result\<close> what a call that has
  returned left in the result register. A call that never returns has no value.
\<close>

partial_function (option) exec :: "('s \<Rightarrow> 's option) \<Rightarrow> 's \<Rightarrow> 's option" where
  "exec step s = (case step s of None \<Rightarrow> Some s | Some t \<Rightarrow> exec step t)"

definition call_fn :: "('s \<Rightarrow> 's option) \<Rightarrow> ('m \<Rightarrow> 'a \<Rightarrow> 's) \<Rightarrow> ('s \<Rightarrow> u32 option) \<Rightarrow> 'm \<Rightarrow> 'a \<Rightarrow> u32 option" where
  "call_fn step start result m f = Option.bind (exec step (start m f)) result"

text \<open>The same within \<open>n\<close> steps.\<close>

primrec exec_within :: "('s \<Rightarrow> 's option) \<Rightarrow> nat \<Rightarrow> 's \<Rightarrow> 's option" where
  "exec_within step 0 s = None"
| "exec_within step (Suc n) s = (case step s of None \<Rightarrow> Some s | Some t \<Rightarrow> exec_within step n t)"

definition call_within ::
  "('s \<Rightarrow> 's option) \<Rightarrow> ('m \<Rightarrow> 'a \<Rightarrow> 's) \<Rightarrow> ('s \<Rightarrow> u32 option) \<Rightarrow> nat \<Rightarrow> 'm \<Rightarrow> 'a \<Rightarrow> u32 option" where
  "call_within step start result n m f = Option.bind (exec_within step n (start m f)) result"

lemma exec_within_numeral [simp]:
  "exec_within step (numeral k) s = (case step s of None \<Rightarrow> Some s | Some t \<Rightarrow> exec_within step (pred_numeral k) t)"
  by (simp add: numeral_eq_Suc)

lemma exec_within_exec: "exec_within step n s = Some t \<Longrightarrow> exec step s = Some t"
proof (induction n arbitrary: s)
  case (Suc n)
  then show ?case by (subst exec.simps) (simp split: option.splits)
qed simp

lemma call_within_call: "call_within step start result n m f = Some v \<Longrightarrow> call_fn step start result m f = Some v"
  unfolding call_within_def call_fn_def bind_eq_Some_conv by (blast intro: exec_within_exec)

section \<open>Code as a list of words\<close>

definition words :: "u32 list \<Rightarrow> u8 list" where
  "words ws = concat (map u32_le ws)"

lemma words_simps: "words [] = []" "words (w # ws) = u32_le w @ words ws"
  by (simp_all add: words_def)

lemma length_words: "length (words ws) = 4 * length ws"
  by (induction ws) (simp_all add: words_simps)

lemma code_at_words: "code_at m a (words ws) \<Longrightarrow> i < length ws \<Longrightarrow> fetch32 m (a + 4 * of_nat i) = ws ! i"
proof (induction ws arbitrary: a i)
  case (Cons w ws)
  show ?case
  proof (cases i)
    case (Suc j)
    have "fetch32 m ((a + 4) + 4 * of_nat j) = ws ! j"
      using Cons Suc by (intro Cons.IH) (simp_all add: words_simps)
    moreover have "a + 4 * of_nat i = (a + 4) + 4 * of_nat j" using Suc by (simp add: algebra_simps)
    ultimately show ?thesis unfolding Suc by (simp only: nth_Cons_Suc)
  qed (use Cons in \<open>simp add: words_simps code_at_u32\<close>)
qed simp

lemma word_nat_inverse: "of_nat (unat x) = (x :: 'u::len word)"
  by simp

lemma fetch32_words:
  fixes a x :: "'u::len word"
  assumes "unat (x - a) mod 4 = 0" "unat (x - a) < 4 * length ws" "4 * length ws \<le> 2 ^ LENGTH('u)"
  shows "fetch32 (write_bytes m a (words ws)) x = ws ! (unat (x - a) div 4)"
proof -
  let ?i = "unat (x - a) div 4"
  have "code_at (write_bytes m a (words ws)) a (words ws)"
    using assms(3) by (intro code_at_write_bytes) (simp add: length_words)
  moreover have "?i < length ws" using assms(2) by simp
  ultimately have "fetch32 (write_bytes m a (words ws)) (a + 4 * of_nat ?i) = ws ! ?i"
    by (rule code_at_words)
  moreover have "4 * ?i = unat (x - a)" using assms(1) by presburger
  then have "4 * of_nat ?i = x - a" by (metis of_nat_mult of_nat_numeral word_nat_inverse)
  ultimately show ?thesis by simp
qed

lemma fetch32_outside:
  fixes a x :: "'u::len word"
  assumes "length bs \<le> unat (x - a)" "unat (x - a) + 3 < 2 ^ LENGTH('u)"
  shows "fetch32 (write_bytes m a bs) x = fetch32 m x"
proof -
  have "write_bytes m a bs (x + of_nat k) = m (x + of_nat k)" if "k \<le> 3" for k
  proof (rule write_bytes_outside)
    have "unat (x + of_nat k - a) = unat ((x - a) + of_nat k)" by (simp add: algebra_simps)
    also have "\<dots> = unat (x - a) + k"
      using assms(2) that by (simp add: unat_word_ariths unsigned_of_nat take_bit_eq_mod)
    finally show "length bs \<le> unat (x + of_nat k - a)" using assms(1) by simp
  qed
  from this [of 0] this [of 1] this [of 2] this [of 3] show ?thesis
    by (simp add: fetch32_def)
qed

lemma fetch32_zero: "fetch32 (\<lambda>_. 0) x = 0"
  by (simp add: fetch32_def u32_of_le_def)

section \<open>The test in the process of the examples\<close>

lemma demo_created_icache:
  fixes m :: "'u::len mem"
  assumes "length code \<le> 2 ^ LENGTH('u)"
  shows "w_icache (demo_created arch m code) = write_bytes m 0x500000 code"
proof -
  let ?w = "(demo_world arch m)\<lparr>w_alloc :=
    \<lparr>max_distance = word_of_int (detour_range arch), pools = [(0x500000, length code, length code)]\<rparr>\<rparr>"
  have "w_mem ?w = m" "w_icache ?w = m" "icache_ok arch ?w" by (simp_all add: icache_ok_def)
  then show ?thesis using icache_after_flush [where arch = arch and w = ?w and code = code and n = "length code" and a = "0x500000"] assms
    by (simp add: demo_created_def)
qed

lemma demo_drop:
  fixes m :: "u64 \<Rightarrow> u8"
  assumes "0 < length code" "length code < 0x1000"
  shows "\<exists>al. drop_fields demo_os (demo_detour p code) (demo_created arch m code)
    = (Ok (), (demo_created arch m code)\<lparr>w_alloc := al\<rparr>)"
proof -
  have "(0x500000 :: u64) < 0x500000 + of_nat (length code)"
    using assms by (simp add: word_less_nat_alt unat_word_ariths unsigned_of_nat take_bit_eq_mod)
  then show ?thesis
    by (simp add: drop_fields_def drop_memory_def demo_detour_def executable_memory_drop_def
        proximity_release_def demo_created_def demo_os_def bump_ops_def pool_holds_def in_range_def iter_position_def) blast
qed

lemma demo_detour_test:
  fixes target :: u64
  assumes new: "detour_new arch demo_os target ret10 (demo_world arch m) = Some (Ok (demo_detour p code), demo_created arch m code)"
    and p: "patcher_wf p" "area_len p \<le> 0x1000" "area_ptr p < 0x4FF000"
      "original_prolog p = read_bytes m (area_ptr p) (area_len p)"
    and len: "0 < length code" "length code < 0x1000"
    and calls: "call (write_bytes m 0x500000 code) target = Some result"
      "call (write_bytes (write_bytes m 0x500000 code) (area_ptr p) (detour_prolog p)) target = Some 10"
      "call (write_bytes (write_bytes m 0x500000 code) (area_ptr p) (detour_prolog p)) 0x500000 = Some result"
  shows "\<exists>al. detour_test arch demo_os call ret10 target result (demo_world arch m)
    = Some (Ok (), (demo_created arch m code)\<lparr>w_alloc := al\<rparr>)"
proof -
  let ?d = "demo_detour p code" and ?w = "demo_created arch m code"
  have wic: "w_icache ?w = write_bytes m 0x500000 code"
    by (rule demo_created_icache) (use len in simp)
  have ok: "icache_ok arch ?w" by (simp add: icache_ok_def wic)
  have apart: "detour_apart ?d" by (rule demo_apart) (use p len in simp_all)
  then have "write_bytes m 0x500000 code x = m x" if "in_area p x" for x
    using that by (auto simp: detour_apart_def chunk_apart_def d_chunks_def demo_detour_def in_chunk_def
        not_less [symmetric] intro!: write_bytes_outside)
  then have keep: "code_at (write_bytes m 0x500000 code) (area_ptr p) (original_prolog p)"
    using p by (subst code_at_cong [where m = m]) (simp_all add: in_area_def)
  then have area: "area_ok ?w ?d"
    using p by (simp add: area_ok_def wic area_code_def) (simp add: demo_detour_def)
  obtain al where al: "drop_fields demo_os ?d ?w = (Ok (), ?w\<lparr>w_alloc := al\<rparr>)"
    using demo_drop [OF len] by blast
  have w2: "w_icache (demo_enabled arch p ?w) = write_bytes (write_bytes m 0x500000 code) (area_ptr p) (detour_prolog p)"
    using icache_after_flush [OF ok, where code = "detour_prolog p" and n = "area_len p" and a = "area_ptr p"] p
    by (simp add: demo_enabled_def wic patcher_wf_def)
  have "detour_test arch demo_os call ret10 target result (demo_world arch m) = Some (Ok (), ?w\<lparr>w_alloc := al\<rparr>)"
  proof (rule detour_test_passes [OF new area ok _ demo_enable [OF p(1)]])
    show "drop_fields demo_os ?d ?w = (Ok (), ?w\<lparr>w_alloc := al\<rparr>)" by (rule al)
  qed (use calls in \<open>simp_all add: wic w2\<close>, simp_all add: demo_detour_def demo_os_def)
  then show ?thesis by blast
qed

text \<open>
  What \<^verbatim>\<open>RawDetour::new\<close> computes before it allocates: the patcher, and the code of the trampoline
  at the address the process of the examples gives it.
\<close>

definition demo_build :: "('u::len word) architecture \<Rightarrow> 'u mem \<Rightarrow> 'u word \<Rightarrow> 'u word \<Rightarrow> ('u word patcher \<times> u8 list) res" where
  "demo_build arch m target detour =
     res_bind (make_trampoline arch m target (prolog_margin arch target)) (\<lambda>tr.
       res_bind (make_patcher arch demo_query m target detour (tramp_prolog_size tr)) (\<lambda>p.
         res_map (Pair p) (emit (tramp_emitter tr) 0x500000)))"

definition demo_near :: "u64 architecture \<Rightarrow> u64 \<Rightarrow> u64 \<Rightarrow> bool" where
  "demo_near arch target detour \<longleftrightarrow> relay_builder arch target detour = Ok None
     \<and> target \<noteq> detour \<and> 0 < target \<and> target < 0x500000 \<and> detour < 0x500000
     \<and> (let r = proximity_range (thread_allocator_new (word_of_int (detour_range arch)) :: u64 bump_allocator) target
        in in_range r target \<and> in_range r 0x500000)"

lemma demo_build_new:
  fixes target :: u64
  assumes "demo_build arch m target detour = Ok (p, code)" "demo_near arch target detour" "length code < 0x1000"
  shows "detour_new arch demo_os target detour (demo_world arch m) = Some (Ok (demo_detour p code), demo_created arch m code)"
proof -
  obtain tr where "make_trampoline arch m target (prolog_margin arch target) = Ok tr"
    "make_patcher arch demo_query m target detour (tramp_prolog_size tr) = Ok p"
    "emit (tramp_emitter tr) 0x500000 = Ok code"
    using assms(1) by (auto simp: demo_build_def res_bind_Ok_iff res_map_Ok_iff)
  then show ?thesis using assms(2,3) by (intro demo_new) (simp_all add: demo_near_def Let_def)
qed

lemma demo_unit_test:
  fixes target :: u64
  assumes build: "demo_build arch m target ret10 = Ok (p, code)" "demo_near arch target ret10"
    and p: "patcher_wf p" "area_len p \<le> 0x1000" "area_ptr p < 0x4FF000"
      "original_prolog p = read_bytes m (area_ptr p) (area_len p)" "0 < length code" "length code < 0x1000"
    and calls: "call (write_bytes m 0x500000 code) target = Some result"
      "call (write_bytes (write_bytes m 0x500000 code) (area_ptr p) (detour_prolog p)) target = Some 10"
      "call (write_bytes (write_bytes m 0x500000 code) (area_ptr p) (detour_prolog p)) 0x500000 = Some result"
  shows "map_option fst (detour_test arch demo_os call ret10 target result (demo_world arch m)) = Some (Ok ())"
  using demo_detour_test [where call = call, OF demo_build_new [OF build p(6)] p calls] by auto

text \<open>A prolog or a patch area that is refused.\<close>

lemma demo_build_refused:
  fixes target :: u64
  assumes "res_bind (make_trampoline arch m target (prolog_margin arch target)) (\<lambda>tr.
      make_patcher arch demo_query m target ret10 (tramp_prolog_size tr)) = Err e"
    and "demo_near arch target ret10"
  shows "detour_new arch demo_os target ret10 (demo_world arch m) = Some (Err e, demo_world arch m)"
proof -
  have near: "relay_builder arch target ret10 = Ok None" "target \<noteq> ret10" using assms(2) by (simp_all add: demo_near_def)
  have exec: "both_executable demo_os (demo_world arch m) target ret10 = Ok True"
    using assms(2) by (simp add: demo_near_def both_executable_def demo_os_def is_executable_address_def demo_query_def)
  have "detour_new_locked arch demo_os target ret10 (demo_world arch m) = Some (Err e, demo_world arch m)"
    using assms(1) near(1) exec
    by (auto simp: detour_new_locked_def detour_finish_def unwind_def drop_memory_def demo_os_def
        res_bind_def split: res.splits)
  then show ?thesis using near by (simp add: detour_new_def poison_def)
qed

end
