(* ===== verification/Detour_Stacked.thy ===== *)
theory Detour_Stacked
  imports Detour_Tests Detour_Backends
begin

text \<open>
  Two detours of one function, the test \<^verbatim>\<open>detours_share_target\<close> of \<^verbatim>\<open>src/lib.rs\<close>,
  \<^verbatim>\<open>src/arch/aarch64/mod.rs\<close> and \<^verbatim>\<open>src/arch/riscv/mod.rs\<close>: the second detour finds the code of the
  first at the target, and its trampoline has to relocate that.
\<close>

section \<open>Hooks that can be relocated\<close>

text \<open>
  What stacking asks of an architecture: a trampoline built from the code of a hook, wherever it
  is placed, leads where the hook leads.
\<close>

locale stackable_backend = detour_backend arch runs_to near landing
  for arch :: "('u::len word) architecture"
    and runs_to :: "'u mem \<Rightarrow> 'u word \<Rightarrow> 'u word \<Rightarrow> bool"
    and near :: "'u word \<Rightarrow> 'u word \<Rightarrow> bool"
    and landing :: "'u word \<Rightarrow> 'u word \<Rightarrow> bool" +
  assumes hook_relocated: "make_patcher arch query m target entry n = Ok p \<Longrightarrow> area_ptr p = target \<Longrightarrow>
      near target entry \<Longrightarrow> \<not> in_area p entry \<Longrightarrow> code_at m1 target (detour_prolog p) \<Longrightarrow>
      make_trampoline arch m1 target (prolog_margin arch target) = Ok tr \<Longrightarrow>
      emit (tramp_emitter tr) base = Ok code \<Longrightarrow> code_at m2 base code \<Longrightarrow> runs_to m2 base entry"
begin

text \<open>The code at the area of a detour that was created and enabled.\<close>

lemma enabled_code:
  assumes new: "detour_new arch os target detour w = Some (Ok d, w1)"
    and enable: "detour_enable arch os2 d w1 = (Ok (), d2, w2)"
    and synced: "w_icache w = w_mem w" and apart: "detour_apart d"
  shows "d2 = d\<lparr>d_enabled := True\<rparr> \<and> code_at (w_mem w2) (area_ptr (d_patcher d)) (detour_prolog (d_patcher d))
    \<and> (\<exists>query m n. make_patcher arch query m target (detour_entry d detour) n = Ok (d_patcher d))"
proof (rule detour_new_Ok [OF new])
  fix tramp w0
  assume p: "make_patcher arch (os_query os (pools (w_alloc w0))) (w_mem w0) target (detour_entry d detour)
       (tramp_prolog_size tramp) = Ok (d_patcher d)"
  have ok: "icache_ok arch w" using synced by (simp add: icache_ok_def)
  have "area_ok w1 d"
    using apart synced by (intro new_area_ok [OF new ok]) (simp_all add: area_fetched_def detour_apart_def)
  then have "area_ok w2 d2 \<and> d2 = d\<lparr>d_enabled := True\<rparr>"
    using detour_toggle_area_ok [of w1 d arch os2 True "Ok ()" d2 w2] detour_new_frame [OF new ok] enable
    by (auto simp: detour_enable_def)
  then show ?thesis using p by (auto simp: area_ok_def area_code_def)
qed

lemma stacked:
  assumes new1: "detour_new arch os1 target detour1 w = Some (Ok d1, w1)"
    and en1: "detour_enable arch os2 d1 w1 = (Ok (), e1, w2)"
    and new2: "detour_new arch os3 target detour2 w2 = Some (Ok d2, w3)"
    and en2: "detour_enable arch os4 d2 w3 = (Ok (), e2, w4)"
    and synced: "w_icache w = w_mem w" and apart: "detour_apart d1" "detour_apart d2"
    and near: "near target (detour_entry d1 detour1)" "near target (detour_entry d2 detour2)"
    and lands: "\<And>em. d_relay d1 = Some em \<Longrightarrow> landing (em_ptr em) detour1"
      "\<And>em. d_relay d2 = Some em \<Longrightarrow> landing (em_ptr em) detour2"
    and at: "area_ptr (d_patcher d1) = target" "\<not> in_area (d_patcher d1) (detour_entry d1 detour1)"
  shows "runs_to (w_icache w2) target detour1 \<and> runs_to (w_icache w4) target detour2
    \<and> runs_to (w_icache w4) (em_ptr (d_trampoline d2)) (detour_entry d1 detour1)"
proof -
  note first = enabled_detour [OF new1 en1 synced apart(1) near(1) lands(1)]
  have sync2: "w_icache w2 = w_mem w2" using first by simp
  note second = enabled_detour [OF new2 en2 sync2 apart(2) near(2) lands(2)]
  obtain query m n where p: "make_patcher arch query m target (detour_entry d1 detour1) n = Ok (d_patcher d1)"
    and hook: "code_at (w_mem w2) target (detour_prolog (d_patcher d1))"
    using enabled_code [OF new1 en1 synced apart(1)] at(1) by auto
  from second obtain tr code where
    "make_trampoline arch (w_mem w2) target (prolog_margin arch target) = Ok tr"
    "emit (tramp_emitter tr) (em_ptr (d_trampoline d2)) = Ok code"
    "code_at (w_icache w4) (em_ptr (d_trampoline d2)) code" by blast
  then have "runs_to (w_icache w4) (em_ptr (d_trampoline d2)) (detour_entry d1 detour1)"
    by (rule hook_relocated [OF p at(1) near(1) at(2) hook])
  then show ?thesis using first second by blast
qed

end

section \<open>The hooks of the architectures\<close>

lemma a64_b_relocated:
  assumes new: "a64_patcher_new dbg m target entry n = Ok p" and near: "a64_near target entry"
    and out: "\<not> in_area p entry" and hook: "code_at m1 target (detour_prolog p)"
    and tr: "a64_trampoline_new m1 target 4 = Ok tr"
  shows "tramp_emitter tr = add_thunk emitter_new (a64_jmp_abs entry)"
proof -
  let ?d = "entry - target"
  have area: "area_ptr p = target" "area_len p = 4" "detour_prolog p = u32_le (b_word ?d)"
    using new by (auto simp: a64_patcher_new_Ok a64_patch_area_Ok a64_branch_bytes_def Let_def b_word_def
        split: if_splits)
  have fetch: "fetch32 m1 target = b_word ?d" using hook area by (simp add: code_at_u32)
  have imm: "a64_imm26 (b_word ?d) = ?d"
    using near by (intro b_word_imm) (simp_all add: a64_near_def a64_relay_builder_def Let_def is_within_range_def
        a64_DETOUR_RANGE_def split: if_splits)
  have "\<not> in_range (prolog_range (builder_new target 4)) entry"
  proof
    assume "in_range (prolog_range (builder_new target 4)) entry"
    then have "in_range (prolog_range (builder_new target 4)) (target + ?d)" by simp
    moreover have "take_bit 2 ?d = 0" using near by (simp add: a64_near_def)
    ultimately have "?d = 0" by (rule prolog_self [rotated])
    then show False using out area by (simp add: in_area_def)
  qed
  then have "a64_process (builder_new target 4) (b_word ?d) target
    = Ok (a64_jmp_abs entry, 16, (builder_new target 4)\<lparr>finished := True\<rparr>)"
    using imm by (simp add: a64_process_def Let_def b_word_opcode a64_imm_code is_in_branch_def builder_new_def)
  then have "a64_build_loop m1 (builder_new target 4) emitter_new
    = Ok ((builder_new target 4)\<lparr>finished := True, total_bytes := 4\<rparr>, add_thunk emitter_new (a64_jmp_abs entry))"
    by (subst a64_build_loop.simps, simp add: fetch Let_def is_in_branch_def builder_new_def,
        subst a64_build_loop.simps, simp)
  then show ?thesis using tr by (auto simp: a64_trampoline_new_def a64_build_def)
qed

lemma rv_jalr_t1_process:
  "riscv_process b (jalr_t1 lo) pc = Ok (VecThunk (u32_le (jalr_t1 lo)), 4, b\<lparr>finished := \<not> is_in_branch b pc\<rparr>)"
proof -
  have "jalr_t1 lo AND 0x7F = 0x67" "jalr_t1 lo AND 3 = 3" "drop_bit 7 (jalr_t1 lo) AND 0x1F = 0"
    using jalr_imm_fields [of lo] and_3_of_and_7F [of "jalr_t1 lo"] by (simp_all add: rv_rd_def)
  then show ?thesis by (simp add: riscv_process_def Let_def)
qed

lemma riscv_hook_trampoline:
  assumes "code_at m target (u32_le (auipc_t1 x) @ u32_le (jalr_t1 lo))" "riscv_trampoline_new m target 8 = Ok tr"
  shows "thunks (tramp_emitter tr) = [li_abs 6 (target + scast (hi_part x)), VecThunk (u32_le (jalr_t1 lo))]"
proof -
  let ?b = "builder_new target 8"
  have fetch: "fetch32 m target = auipc_t1 x" "fetch32 m (target + 4) = jalr_t1 lo"
    using assms(1) by (auto intro!: code_at_u32)
  have "rv_plain (auipc_t1 x)" by (simp add: rv_plain_def auipc_t1_fields)
  from riscv_process_straight [OF this]
  obtain sz where 1: "riscv_process ?b (auipc_t1 x) target = Ok (li_abs 6 (target + scast (hi_part x)), sz, ?b)"
    by (auto simp: auipc_t1_fields)
  have free: "\<not> is_in_branch (?b\<lparr>total_bytes := n\<rparr>) a" "\<not> is_in_branch ?b a" for n a
    by (simp_all add: is_in_branch_def)
  have "riscv_build_loop m ?b emitter_new = Ok (?b\<lparr>total_bytes := 8, finished := True\<rparr>,
      \<lparr>thunks = [li_abs 6 (target + scast (hi_part x)), VecThunk (u32_le (jalr_t1 lo))]\<rparr>)"
    by (subst riscv_build_loop.simps, simp add: fetch 1 free Let_def,
        subst riscv_build_loop.simps, simp add: fetch rv_jalr_t1_process free Let_def,
        subst riscv_build_loop.simps, simp add: add_thunk_def emitter_new_def)
  then show ?thesis using assms(2) by (auto simp: riscv_trampoline_new_def riscv_build_def)
qed

lemma riscv_hook_relocated:
  fixes target entry base :: "'u::len word"
  assumes xlen: "rv_xlen TYPE('u)" and new: "riscv_patcher_new dbg m target entry n = Ok p"
    and near: "riscv_near target entry" and hook: "code_at m1 target (detour_prolog p)"
    and tr: "riscv_trampoline_new m1 target 8 = Ok tr"
    and code: "emit (tramp_emitter tr) base = Ok code" "code_at m2 base code"
  shows "rv_runs_to m2 base entry"
  unfolding rv_runs_to_def
proof (intro allI impI)
  fix s :: "'u word rv_cpu"
  assume s: "rv_mem s = m2 \<and> rv_pc s = base"
  define x where "x = (ucast (entry - target) + 0x800 :: u32)"
  let ?v = "target + scast (hi_part x)"
  have "detour_prolog p = u32_le (auipc_t1 x) @ u32_le (jalr_t1 (lo_part x))"
    using new riscv_branch_bytes_Ok by (auto simp: riscv_patcher_new_Ok riscv_patch_area_Ok x_def)
  then have "thunks (tramp_emitter tr) = [li_abs 6 ?v, VecThunk (u32_le (jalr_t1 (lo_part x)))]"
    using hook tr by (intro riscv_hook_trampoline) simp_all
  then obtain c1 where c: "code = c1 @ u32_le (jalr_t1 (lo_part x))" "thunk_generate (li_abs 6 ?v) base = Ok c1"
    using code(1) by (auto simp: emit_def split: if_splits)
  have at: "code_at m2 base c1" "fetch32 m2 (base + of_nat (length c1)) = jalr_t1 (lo_part x)"
    using code(2) c(1) by (auto intro: code_at_u32)
  let ?t = "s\<lparr>rv_pc := base + of_nat (length c1), rv_regs := (rv_regs s)(6 := ?v)\<rparr>"
  have 1: "rv_run (Suc (Suc 0)) s = Some ?t"
    using xlen s c(2) at(1) by (intro li_abs_runs [of _ 6]) simp_all
  have "scast (hi_part x) + scast (lo_part x) + 0x800 = (scast x :: 'u word)"
    using xlen by (intro scast_parts) (auto simp: rv_xlen_def)
  then have "?v + scast (lo_part x) = target + scast x - 0x800" by (simp add: algebra_simps)
  then have "(?v + scast (lo_part x)) AND NOT 1 = (target + scast x - 0x800) AND NOT 1" by (simp only:)
  also have "\<dots> = entry" unfolding x_def by (rule riscv_branch_dest [OF near])
  finally have "rv_step ?t = Some (?t\<lparr>rv_pc := entry\<rparr>)"
    using rv_step_jalr_any [of ?t x] at(2) s by simp
  with 1 have "rv_run (Suc (Suc 0) + Suc 0) s = Some (s\<lparr>rv_pc := entry, rv_regs := (rv_regs s)(6 := ?v)\<rparr>)"
    unfolding rv_run_add by simp
  then show "\<exists>n v. rv_run n s = Some (s\<lparr>rv_pc := entry, rv_regs := (rv_regs s)(6 := v)\<rparr>)" by blast
qed

text \<open>The disassembler, on code that begins with a jump \<^verbatim>\<open>E9\<close>.\<close>

definition decodes_jump :: "decoder \<Rightarrow> bool" where
  "decodes_jump dec \<longleftrightarrow> (\<forall>slice a. 5 \<le> length slice \<and> slice ! 0 = 0xE9 \<longrightarrow>
     (\<exists>i rest. dec 64 slice a = i # rest \<and> ip i = a \<and> insn_len i = 5 \<and> \<not> is_invalid i \<and> mnemonic i = Jmp
        \<and> rip_operand_target i = None \<and> relative_branch_target i =
            Some (a + 5 + scast (u32_of_le (slice ! 1) (slice ! 2) (slice ! 3) (slice ! 4)))))"

lemma not_in_prolog_range:
  assumes "\<not> unat (x - target) < k" "k < 2 ^ LENGTH('u)"
  shows "\<not> in_range (prolog_range (builder_new (target :: 'u::len word) k)) x"
proof
  assume "in_range (prolog_range (builder_new target k)) x"
  then have "target \<le> x" "x < target + of_nat k" by (simp_all add: in_range_def prolog_range_def)
  then have "unat (x - target) < k"
    using assms(2) by unat_arith (auto simp: unat_of_nat_small split: if_splits)
  then show False using assms(1) by simp
qed

lemma x86_hook_relocated:
  fixes target entry base :: u64
  assumes dec: "decodes_jump dec" and new: "x86_patcher_new query m target entry n = Ok p"
    and area: "area_ptr p = target" and out: "\<not> in_area p entry" and hook: "code_at m1 target (detour_prolog p)"
    and tr: "x86_trampoline_new dec m1 target 5 = Ok tr"
  shows "tramp_emitter tr = add_thunk emitter_new (x86_jmp entry)"
proof -
  obtain jump where jump: "thunk_generate (jmp_rel32 entry) target = Ok jump"
    and p: "area_len p = 5" "detour_prolog p = jump"
    using area by (rule_tac x86_hook_code [OF new]) auto
  then obtain rel where rel: "calculate_displacement target entry 5 = Ok rel" "jump = 0xE9 # u32_le rel"
    by (auto simp: jmp_rel32_def relative32_def fixed_thunk_new_def size_of_JumpRel_def)
  have dest: "target + 5 + scast rel = entry"
    using calculate_displacement_lands [OF _ rel(1)] by simp
  let ?slice = "read_bytes m1 target 20" and ?b = "builder_new target 5"
  have bytes: "?slice ! 0 = 0xE9" "u32_of_le (?slice ! 1) (?slice ! 2) (?slice ! 3) (?slice ! 4) = rel"
    using hook p(2) rel(2) by (simp_all add: u32_le_def add.assoc)
  then obtain i rest where i: "dec 64 ?slice target = i # rest" "ip i = target" "insn_len i = 5" "\<not> is_invalid i"
      "mnemonic i = Jmp" "rip_operand_target i = None" "relative_branch_target i = Some entry"
    using dec [unfolded decodes_jump_def, rule_format, of ?slice target] dest by auto
  have "\<not> in_range (prolog_range ?b) entry"
    using out area p(1) by (intro not_in_prolog_range) (simp_all add: in_area_def)
  then have "process_instruction (?b\<lparr>total_bytes := 5\<rparr>) i bs
    = Ok (x86_jmp entry, ?b\<lparr>total_bytes := 5, finished := True\<rparr>)" for bs
    using i by (simp add: process_instruction_def handle_relative_branch_def is_call_def is_loop_def
        is_unconditional_jump_def is_instruction_in_branch_def prolog_range_def builder_new_def)
  then show ?thesis
    using tr i by (auto simp: x86_trampoline_new_def x86_build_def Let_def is_instruction_in_branch_def builder_new_def)
qed

section \<open>Interpretations\<close>

interpretation a64_stack: stackable_backend "a64_arch dbg" a64_runs_to a64_near "\<lambda>_ _. True" for dbg
proof (rule stackable_backend.intro [OF a64.detour_backend_axioms], rule stackable_backend_axioms.intro)
  fix query m target entry n p m1 tr base code m2
  assume "make_patcher (a64_arch dbg) query m target entry n = Ok p" "a64_near target entry" "\<not> in_area p entry"
    and "code_at m1 target (detour_prolog p)"
    and "make_trampoline (a64_arch dbg) m1 target (prolog_margin (a64_arch dbg) target) = Ok tr"
    and code: "emit (tramp_emitter tr) base = Ok code" "code_at m2 base code"
  then have "tramp_emitter tr = add_thunk emitter_new (a64_jmp_abs entry)"
    using a64_b_relocated by (simp add: a64_arch_def a64_prolog_margin_def)
  then show "a64_runs_to m2 base entry" using a64_jmp.relay_lands code by simp
qed

lemma x86_stackable:
  assumes "decodes_jump dec"
  shows "stackable_backend (x86_arch dec :: u64 architecture) x86_runs_to (\<lambda>_ _. True) (\<lambda>_ _. True)"
proof (rule stackable_backend.intro [OF x86_64.detour_backend_axioms], rule stackable_backend_axioms.intro)
  fix query m target entry n p m1 tr base code m2
  assume "make_patcher (x86_arch dec :: u64 architecture) query m target entry n = Ok p" "area_ptr p = target"
    and "\<not> in_area p entry" "code_at m1 target (detour_prolog p)"
    and "make_trampoline (x86_arch dec) m1 target (prolog_margin (x86_arch dec) target) = Ok tr"
    and code: "emit (tramp_emitter tr) base = Ok code" "code_at m2 base code"
  then have "tramp_emitter tr = add_thunk emitter_new (x86_jmp entry)"
    using x86_hook_relocated [OF assms] by (simp add: x86_arch_def x86_prolog_margin_def size_of_JumpRel_def)
  then show "x86_runs_to m2 base entry"
    using x86_jmp.relay_lands [of entry base code m2] code by (simp add: x86_usize_def)
qed

lemma riscv_stackable:
  assumes "rv_xlen TYPE('u::len)"
  shows "stackable_backend (riscv_arch dbg :: ('u word) architecture) rv_runs_to riscv_near (\<lambda>_ detour. \<not> bit detour 0)"
proof (rule stackable_backend.intro [OF riscv_backend [OF assms]], rule stackable_backend_axioms.intro)
  fix query m target entry n p m1 tr base code m2
  assume "make_patcher (riscv_arch dbg :: ('u word) architecture) query m target entry n = Ok p" "riscv_near target entry"
    and "code_at m1 target (detour_prolog p)"
    and "make_trampoline (riscv_arch dbg) m1 target (prolog_margin (riscv_arch dbg) target) = Ok tr"
    and "emit (tramp_emitter tr) base = Ok code" "code_at m2 base code"
  then show "rv_runs_to m2 base entry"
    using riscv_hook_relocated [OF assms] by (simp add: riscv_arch_def riscv_prolog_margin_def)
qed

interpretation riscv64_stack: stackable_backend "riscv_arch dbg :: u64 architecture" rv_runs_to riscv_near
    "\<lambda>_ detour. \<not> bit detour 0" for dbg
  by (rule riscv_stackable) (simp add: rv_xlen_def)

interpretation riscv32_stack: stackable_backend "riscv_arch dbg :: u32 architecture" rv_runs_to riscv_near
    "\<lambda>_ detour. \<not> bit detour 0" for dbg
  by (rule riscv_stackable) (simp add: rv_xlen_def)

section \<open>Disabling in the order of creation\<close>

text \<open>
  What the second detour takes for the original code is the hook of the first. If the first is
  disabled before the second, disabling the second puts that hook back.
\<close>

context detour_backend begin

lemma disabled_out_of_order:
  fixes w2 :: "('u word, 'p) world"
  assumes new1: "detour_new arch os1 target1 detour1 w = Some (Ok d1, w1)"
    and en1: "detour_enable arch os2 d1 w1 = (Ok (), e1, w2)"
    and new2: "detour_new arch os3 target2 detour2 w2 = Some (Ok d2, w3)"
    and en2: "detour_enable arch os4 d2 w3 = (Ok (), e2, w4)"
    and dis1: "detour_disable arch os5 e1 w4 = (Ok (), f1, w5)"
    and dis2: "detour_disable arch os6 e2 w5 = (Ok (), f2, w6)"
    and synced: "w_icache w = w_mem w" "w_icache w2 = w_mem w2" and apart: "detour_apart d1" "detour_apart d2"
    and same: "area_ptr (d_patcher d2) = area_ptr (d_patcher d1)" "area_len (d_patcher d2) = area_len (d_patcher d1)"
  shows "\<not> d_enabled f1 \<and> \<not> d_enabled f2
    \<and> code_at (w_mem w6) (area_ptr (d_patcher d1)) (detour_prolog (d_patcher d1))"
proof -
  let ?p1 = "d_patcher d1" and ?p2 = "d_patcher d2"
  have ok: "icache_ok arch w" "icache_ok arch w2" using synced by (simp_all add: icache_ok_def)
  have "area_ok w1 d1"
    using apart(1) synced(1) by (intro new_area_ok [OF new1 ok(1)]) (simp_all add: area_fetched_def detour_apart_def)
  then have "area_ok w2 e1 \<and> e1 = d1\<lparr>d_enabled := True\<rparr>"
    using detour_toggle_area_ok [of w1 d1 arch os2 True "Ok ()" e1 w2] detour_new_frame [OF new1 ok(1)] en1
    by (auto simp: detour_enable_def)
  then have hook: "code_at (w_mem w2) (area_ptr ?p1) (detour_prolog ?p1)" and wf1: "patcher_wf ?p1"
    and e1: "e1 = d1\<lparr>d_enabled := True\<rparr>" and small: "area_len ?p1 \<le> 2 ^ LENGTH('u)"
    by (auto simp: area_ok_def area_code_def)
  have a2: "area_ok w3 d2"
    using apart(2) synced(2) by (intro new_area_ok [OF new2 ok(2)]) (simp_all add: area_fetched_def detour_apart_def)
  have new2': "\<not> d_enabled d2" "changes_only (d_chunks d2) w2 w3"
    using detour_new_frame [OF new2 ok(2)] by auto
  then have "area_spared ?p1 w2 w3"
    using apart(2) same by (auto simp: detour_apart_def chunk_apart_def in_area_def dest!: changes_only_spares [of _ _ _ ?p2])
      (auto simp: area_spared_def in_area_def)
  then have "code_at (w_mem w3) (area_ptr ?p1) (detour_prolog ?p1)"
    using hook small wf1 by (subst code_at_cong [of _ _ _ "w_mem w2"]) (auto simp: area_spared_def in_area_def patcher_wf_def)
  moreover have "code_at (w_mem w3) (area_ptr ?p2) (original_prolog ?p2)" and wf2: "patcher_wf ?p2"
    using a2 new2'(1) by (auto simp: area_ok_def area_code_def)
  ultimately have orig: "original_prolog ?p2 = detour_prolog ?p1"
    using same wf1 by (simp add: code_at_iff_read patcher_wf_def)
  have e2: "d_patcher e2 = ?p2" "d_patcher f1 = ?p1"
    using en2 dis1 e1 detour_toggle_same(1) unfolding detour_enable_def detour_disable_def
    by (metis fst_conv snd_conv, metis fst_conv snd_conv detour.select_convs(3) detour.surjective detour.update_convs(4))
  have "f1 = e1\<lparr>d_enabled := False\<rparr>"
    using dis1 wf1 e1 by (auto simp: detour_disable_def detour_toggle_wf split: if_splits option.splits)
  moreover have "d_enabled e2"
    using en2 wf2 new2'(1) by (auto simp: detour_enable_def detour_toggle_wf split: if_splits option.splits)
  then have "\<not> d_enabled f2 \<and> w_mem w6 = write_bytes (w_mem w5) (area_ptr ?p2) (original_prolog ?p2)"
    using dis2 wf2 e2 by (auto simp: detour_disable_def detour_toggle_wf area_code_def split: if_splits option.splits)
  ultimately show ?thesis
    using orig same small wf1 by (simp add: patcher_wf_def)
qed

end

section \<open>Two detours in one pool\<close>

lemma pooled_apart:
  assumes "area_ptr p = 0x400020" "area_len p \<le> 0x100" "length code \<le> 0x100" "0x500000 \<le> a" "a < 0x501000"
  shows "detour_apart (pooled_detour p a code)"
proof -
  have "unat (a - 0x400020) = unat a - 0x400020"
    using assms by (simp add: unat_sub word_le_nat_alt)
  moreover have "0x500000 \<le> unat a" "unat a < 0x501000" using assms by (simp_all add: word_le_nat_alt word_less_nat_alt)
  ultimately have "\<not> (unat (x - a) < length code \<and> unat (x - 0x400020) < area_len p)" for x
    using assms(2,3) by (intro ranges_apart) simp_all
  then show ?thesis
    using assms(1-3) by (auto simp: detour_apart_def d_chunks_def pooled_detour_def chunk_apart_def in_chunk_def in_area_def)
qed

text \<open>Dropping two enabled detours of one pool, the second first.\<close>

lemma pooled_drops:
  assumes "patcher_wf p1" "patcher_wf p2" "0x500000 \<le> a1" "a1 < 0x501000" "0x500000 \<le> a2" "a2 < 0x501000"
  shows "\<exists>w5 w6. detour_drop arch demo_os ((pooled_detour p2 a2 c2)\<lparr>d_enabled := True\<rparr>) (pooled_world arch m used) = (Ok (), w5)
     \<and> detour_drop arch demo_os ((pooled_detour p1 a1 c1)\<lparr>d_enabled := True\<rparr>) w5 = (Ok (), w6)"
proof -
  have "detour_drop arch demo_os ((pooled_detour p a c)\<lparr>d_enabled := True\<rparr>) (pooled_world arch m used)
      = (Ok (), pooled_world arch (write_bytes m (area_ptr p) (original_prolog p)) used)"
    if "patcher_wf p" "0x500000 \<le> a" "a < 0x501000" for p a c m
    using that by (subst pooled_drop) (simp_all add: pooled_detour_def)
  with assms show ?thesis by simp
qed

lemma pooled_enable:
  "patcher_wf p \<Longrightarrow> detour_enable arch demo_os (pooled_detour p a c) (pooled_world arch m used)
     = (Ok (), (pooled_detour p a c)\<lparr>d_enabled := True\<rparr>, pooled_world arch (write_bytes m (area_ptr p) (detour_prolog p)) used)"
  by (simp add: detour_enable_def pooled_toggle pooled_detour_def area_code_def)

section \<open>The test\<close>

text \<open>
  \<open>call m f args\<close> is what a call of the function at \<open>f\<close> returns. Hooks are dropped in the reverse
  order of their creation, also when the test ends early.
\<close>

type_synonym 'a binary_call = "('a \<Rightarrow> u8) \<Rightarrow> 'a \<Rightarrow> u32 \<times> u32 \<Rightarrow> u32 option"

definition assert_call ::
  "('u::len word) binary_call \<Rightarrow> 'u word \<Rightarrow> u32 \<times> u32 \<Rightarrow> u32 \<Rightarrow> 'd \<times> ('u word, 'p) world
     \<Rightarrow> (unit res \<times> 'd \<times> ('u word, 'p) world) option" where
  "assert_call call f args v s =
     map_option (\<lambda>x. (if x = v then Ok () else Panic, s)) (call (w_icache (snd s)) f args)"

definition drop_hook ::
  "('u::len word) architecture \<Rightarrow> ('u word, 'p) os \<Rightarrow> ('d \<Rightarrow> 'u word detour) \<Rightarrow> unit res \<times> 'd \<times> ('u word, 'p) world
     \<Rightarrow> unit res \<times> ('u word, 'p) world" where
  "drop_hook arch os inner rs =
     (case rs of (r, hook, w) \<Rightarrow>
        (case detour_drop arch os (inner hook) w of
           (Ok _, w) \<Rightarrow> (r, w)
         | (_, w) \<Rightarrow> (Panic, w)))"

text \<open>\<^verbatim>\<open>let hook = ...?; ...\<close>: the rest of the scope, then the drop of the hook.\<close>

definition with_hook ::
  "('u::len word) architecture \<Rightarrow> ('u word, 'p) os \<Rightarrow> ('d \<Rightarrow> 'u word detour) \<Rightarrow> ('d res \<times> ('u word, 'p) world) option
     \<Rightarrow> ('d \<times> ('u word, 'p) world \<Rightarrow> (unit res \<times> 'd \<times> ('u word, 'p) world) option)
     \<Rightarrow> (unit res \<times> ('u word, 'p) world) option" where
  "with_hook arch os inner created rest =
     Option.bind created (\<lambda>(r, w).
       case r of
         Ok hook \<Rightarrow> map_option (drop_hook arch os inner) (rest (hook, w))
       | Err e \<Rightarrow> Some (Err e, w)
       | Panic \<Rightarrow> Some (Panic, w))"

definition detours_share_target ::
  "('u::len word) architecture \<Rightarrow> ('u word, 'p) os \<Rightarrow> ('u word) binary_call \<Rightarrow> ('t, 'u word) fn_ptr \<Rightarrow> ('t, 'u word) fn_ptr
     \<Rightarrow> ('t, 'u word) fn_ptr \<Rightarrow> ('u word, 'p) world \<Rightarrow> (unit res \<times> ('u word, 'p) world) option" where
  "detours_share_target arch os call add_fn sub_fn div_fn w =
     with_hook arch os gd_detour (generic_new arch os add_fn sub_fn w) (\<lambda>(hook1, w).
       and_then (Some (generic_enable arch os hook1 w)) (\<lambda>s.
       and_then (assert_call call (to_ptr add_fn) (5, 5) 0 s) (\<lambda>(hook1, w).
         map_option (\<lambda>(r, w). (r, hook1, w))
           (with_hook arch os gd_detour (generic_new arch os add_fn div_fn w) (\<lambda>(hook2, w).
             and_then (Some (generic_enable arch os hook2 w)) (\<lambda>(hook2, w).
               case generic_call hook2 of
                 Ok f \<Rightarrow>
                   and_then (assert_call call (to_ptr f) (5, 5) 0 (hook2, w)) (\<lambda>s.
                     assert_call call (to_ptr add_fn) (10, 5) 2 s)
               | Err e \<Rightarrow> Some (Err e, hook2, w)
               | Panic \<Rightarrow> Some (Panic, hook2, w)))))))"

text \<open>The same on raw detours, as the tests of the architectures have it.\<close>

definition raw_detours_share_target ::
  "('u::len word) architecture \<Rightarrow> ('u word, 'p) os \<Rightarrow> ('u word) binary_call \<Rightarrow> 'u word \<Rightarrow> 'u word \<Rightarrow> 'u word
     \<Rightarrow> ('u word, 'p) world \<Rightarrow> (unit res \<times> ('u word, 'p) world) option" where
  "raw_detours_share_target arch os call add_fn sub_fn div_fn w =
     with_hook arch os raw_inner (raw_new arch os add_fn sub_fn w) (\<lambda>(hook1, w).
       and_then (Some (raw_enable arch os hook1 w)) (\<lambda>s.
       and_then (assert_call call add_fn (5, 5) 0 s) (\<lambda>(hook1, w).
         map_option (\<lambda>(r, w). (r, hook1, w))
           (with_hook arch os raw_inner (raw_new arch os add_fn div_fn w) (\<lambda>(hook2, w).
             and_then (Some (raw_enable arch os hook2 w)) (\<lambda>(hook2, w).
               case raw_trampoline hook2 of
                 Ok f \<Rightarrow>
                   and_then (assert_call call f (5, 5) 0 (hook2, w)) (\<lambda>s.
                     assert_call call add_fn (10, 5) 2 s)
               | Err e \<Rightarrow> Some (Err e, hook2, w)
               | Panic \<Rightarrow> Some (Panic, hook2, w)))))))"

text \<open>A safe \<^verbatim>\<open>extern "C"\<close> function of two integers, and its division, which rounds to zero.\<close>

definition share_fn :: "u64 \<Rightarrow> (unit, u64) fn_ptr" where
  "share_fn = from_ptr \<lparr>fn_unsafe = False, fn_abi = Some ''C'', fn_args = [(), ()], fn_ret = ()\<rparr>"

lemma to_ptr_share_fn [simp]: "to_ptr (share_fn a) = a"
  by (simp add: share_fn_def)

definition trunc_div :: "u32 \<Rightarrow> u32 \<Rightarrow> u32" where
  "trunc_div a b = (let x = sint a; y = sint b in word_of_int (sgn x * sgn y * (\<bar>x\<bar> div \<bar>y\<bar>)))"

section \<open>The calling convention\<close>

text \<open>
  \<open>returns m f args v\<close>: a call of the function at \<open>f\<close> returns \<open>v\<close>, whatever the registers hold that a
  jump of the library may use.
\<close>

locale hooked_calls = stackable_backend arch runs_to near landing
  for arch :: "('u::len word) architecture"
    and runs_to :: "'u mem \<Rightarrow> 'u word \<Rightarrow> 'u word \<Rightarrow> bool"
    and near :: "'u word \<Rightarrow> 'u word \<Rightarrow> bool"
    and landing :: "'u word \<Rightarrow> 'u word \<Rightarrow> bool" +
  fixes call :: "('u word) binary_call"
    and returns :: "'u mem \<Rightarrow> 'u word \<Rightarrow> u32 \<times> u32 \<Rightarrow> u32 \<Rightarrow> bool"
  assumes returns_call: "returns m f args v \<Longrightarrow> call m f args = Some v"
    and returns_hop: "runs_to m a f \<Longrightarrow> returns m f args v \<Longrightarrow> returns m a args v"
begin

lemma share_target_passes:
  assumes new1: "detour_new arch os (to_ptr add_fn) (to_ptr sub_fn) w = Some (Ok d1, w1)"
    and en1: "detour_enable arch os d1 w1 = (Ok (), e1, w2)"
    and new2: "detour_new arch os (to_ptr add_fn) (to_ptr div_fn) w2 = Some (Ok d2, w3)"
    and en2: "detour_enable arch os d2 w3 = (Ok (), e2, w4)"
    and synced: "w_icache w = w_mem w" and apart: "detour_apart d1" "detour_apart d2"
    and near: "near (to_ptr add_fn) (to_ptr sub_fn)" "near (to_ptr add_fn) (detour_entry d2 (to_ptr div_fn))"
    and lands: "\<And>em. d_relay d2 = Some em \<Longrightarrow> landing (em_ptr em) (to_ptr div_fn)"
    and at: "d_relay d1 = None" "area_ptr (d_patcher d1) = to_ptr add_fn" "\<not> in_area (d_patcher d1) (to_ptr sub_fn)"
    and nonnull: "em_ptr (d_trampoline d2) \<noteq> 0"
    and sub_fn: "returns (w_icache w2) (to_ptr sub_fn) (5, 5) 0" "returns (w_icache w4) (to_ptr sub_fn) (5, 5) 0"
    and div_fn: "returns (w_icache w4) (to_ptr div_fn) (10, 5) 2"
    and drops: "detour_drop arch os e2 w4 = (Ok (), w5)" "detour_drop arch os e1 w5 = (Ok (), w6)"
  shows "runs_to (w_icache w2) (to_ptr add_fn) (to_ptr sub_fn)" "runs_to (w_icache w4) (to_ptr add_fn) (to_ptr div_fn)"
      "runs_to (w_icache w4) (em_ptr (d_trampoline d2)) (to_ptr sub_fn)"
    and "detours_share_target arch os call add_fn sub_fn div_fn w = Some (Ok (), w6)"
    and "raw_detours_share_target arch os call (to_ptr add_fn) (to_ptr sub_fn) (to_ptr div_fn) w = Some (Ok (), w6)"
proof -
  have entry: "detour_entry d1 (to_ptr sub_fn) = to_ptr sub_fn" using at(1) by (simp add: detour_entry_def)
  have runs: "runs_to (w_icache w2) (to_ptr add_fn) (to_ptr sub_fn) \<and> runs_to (w_icache w4) (to_ptr add_fn) (to_ptr div_fn)
    \<and> runs_to (w_icache w4) (em_ptr (d_trampoline d2)) (to_ptr sub_fn)"
    using stacked [OF new1 en1 new2 en2 synced apart _ near(2) _ lands at(2)] near(1) at(1,3) entry by simp
  have e2: "d_trampoline e2 = d_trampoline d2"
    using en2 unfolding detour_enable_def by (metis detour_toggle_same(3) fst_conv snd_conv)
  have calls: "call (w_icache w2) (to_ptr add_fn) (5, 5) = Some 0" "call (w_icache w4) (to_ptr add_fn) (10, 5) = Some 2"
    "call (w_icache w4) (em_ptr (d_trampoline e2)) (5, 5) = Some 0"
    using runs sub_fn div_fn e2 by (auto intro: returns_call returns_hop)
  show "runs_to (w_icache w2) (to_ptr add_fn) (to_ptr sub_fn)" "runs_to (w_icache w4) (to_ptr add_fn) (to_ptr div_fn)"
    "runs_to (w_icache w4) (em_ptr (d_trampoline d2)) (to_ptr sub_fn)"
    using runs by blast+
  show "detours_share_target arch os call add_fn sub_fn div_fn w = Some (Ok (), w6)"
    using calls drops nonnull e2
    by (simp add: detours_share_target_def with_hook_def generic_new_def new1 generic_enable_def en1 assert_call_def
        new2 en2 generic_call_def generic_trampoline_def detour_trampoline_def drop_hook_def)
  show "raw_detours_share_target arch os call (to_ptr add_fn) (to_ptr sub_fn) (to_ptr div_fn) w = Some (Ok (), w6)"
    using calls drops nonnull e2
    by (simp add: raw_detours_share_target_def with_hook_def raw_new_def new1 raw_enable_def en1 assert_call_def
        new2 en2 raw_trampoline_def detour_trampoline_def drop_hook_def)
qed

end

end
