(* ===== verification/X86_Tests.thy ===== *)
theory X86_Tests
  imports Detour_Tests Detour_Backends
begin

text \<open>
  The unit tests of \<^verbatim>\<open>src/arch/x86/mod.rs\<close>, run on the model of an x86-64 process: each test
  function is the code the assembler makes of it, with the instructions the disassembler reads
  from it, and \<^verbatim>\<open>ret10\<close> is what a compiler makes of returning 10.
\<close>

section \<open>Calling a function\<close>

text \<open>The processor, with the instructions of the test functions and the register they use.\<close>

record 'a x86_test_cpu =
  core :: "'a x86_cpu"
  eax :: u32

definition x86_test_step :: "u64 x86_test_cpu \<Rightarrow> u64 x86_test_cpu option" where
  "x86_test_step t =
     (let s = core t; m = memory s; pc = rip s; b0 = m pc; b1 = m (pc + 1) in
      if b0 = 0x31 \<and> b1 = 0xC0 then
        Some \<lparr>core = s\<lparr>rip := pc + 2, flags := \<lparr>OF = False, CF = False, ZF = True, SF = False, PF = True\<rparr>\<rparr>, eax = 0\<rparr>
      else if b0 = 0x89 \<and> b1 = 0xFF then Some (t\<lparr>core := s\<lparr>rip := pc + 2\<rparr>\<rparr>)
      else if b0 = 0x8A \<and> b1 = 0x05 then
        Some \<lparr>core = s\<lparr>rip := pc + 6\<rparr>,
              eax = (eax t AND NOT 0xFF) OR ucast (m (pc + 6 + scast (fetch32 m (pc + 2))))\<rparr>
      else if b0 = 0xB8 then Some \<lparr>core = s\<lparr>rip := pc + 5\<rparr>, eax = fetch32 m (pc + 1)\<rparr>
      else if b0 = 0xC3 then Some (t\<lparr>core := s\<lparr>rip := fetch64 m (rsp s), rsp := rsp s + 8\<rparr>\<rparr>)
      else map_option (\<lambda>s. t\<lparr>core := s\<rparr>) (x86_step s))"

text \<open>
  The stack of a function is empty memory, so it returns to address 0, where no instruction is;
  its result is in \<^verbatim>\<open>eax\<close>.
\<close>

definition x86_start :: "64 mem \<Rightarrow> u64 \<Rightarrow> u64 x86_test_cpu" where
  "x86_start m f = \<lparr>core = \<lparr>rip = f, rsp = 0x7F0000,
     flags = \<lparr>OF = False, CF = False, ZF = False, SF = False, PF = False\<rparr>, memory = m\<rparr>, eax = 0\<rparr>"

definition x86_result :: "u64 x86_test_cpu \<Rightarrow> u32 option" where
  "x86_result t = (if rip (core t) = 0 then Some (eax t) else None)"

definition x86_call_fn :: "64 mem \<Rightarrow> u64 \<Rightarrow> u32 option" where
  "x86_call_fn = call_fn x86_test_step x86_start x86_result"

abbreviation x86_call_within :: "nat \<Rightarrow> 64 mem \<Rightarrow> u64 \<Rightarrow> u32 option" where
  "x86_call_within \<equiv> call_within x86_test_step x86_start x86_result"

section \<open>The tests\<close>

text \<open>The code of the test at 0x400020 and \<^verbatim>\<open>ret10\<close> at 0x400820.\<close>

definition x86_ret10 :: "u8 list" where
  "x86_ret10 = [0xB8, 10, 0, 0, 0, 0xC3]"

definition x86_image :: "u8 list \<Rightarrow> u64 \<Rightarrow> u8" where
  "x86_image code = write_bytes (write_bytes (\<lambda>_. 0) 0x400820 x86_ret10) 0x400020 code"

text \<open>What the disassembler says of an instruction without a branch target or memory operand, of
  a branch, and of a load relative to \<^verbatim>\<open>RIP\<close>.\<close>

definition insn_plain :: "u64 \<Rightarrow> nat \<Rightarrow> mnemonic \<Rightarrow> instruction" where
  "insn_plain a n k = \<lparr>ip = a, insn_len = n, next_ip = a + of_nat n, is_invalid = False, mnemonic = k,
     op_kinds = [OtherOpKind 0], near_branch_target = 0, memory_base = OtherRegister 0, memory_displacement64 = 0\<rparr>"

definition insn_branch :: "u64 \<Rightarrow> nat \<Rightarrow> mnemonic \<Rightarrow> u64 \<Rightarrow> instruction" where
  "insn_branch a n k dest = (insn_plain a n k)\<lparr>op_kinds := [NearBranch64], near_branch_target := dest\<rparr>"

definition insn_rip :: "u64 \<Rightarrow> nat \<Rightarrow> u64 \<Rightarrow> instruction" where
  "insn_rip a n operand = (insn_plain a n (OtherMnemonic 0))
     \<lparr>op_kinds := [OtherOpKind 0, OpMemory], memory_base := RIP, memory_displacement64 := operand\<rparr>"

definition x86_test_arch :: "instruction list \<Rightarrow> u64 architecture" where
  "x86_test_arch insns = x86_arch (\<lambda>_ _ _. insns)"

definition x86_unit_test :: "instruction list \<Rightarrow> u8 list \<Rightarrow> u64 \<Rightarrow> u32 \<Rightarrow> unit res option" where
  "x86_unit_test insns code target result = map_option fst
     (detour_test (x86_test_arch insns) demo_os x86_call_fn 0x400820 target result
       (demo_world (x86_test_arch insns) (x86_image code)))"

definition x86_detour_relative_branch :: "unit res option" where
  "x86_detour_relative_branch =
     (let branch_ret5 = [0x31, 0xC0, 0x74, 7, 0xB8, 2, 0, 0, 0, 0xEB, 5, 0xB8, 5, 0, 0, 0, 0xC3]
        \<comment> \<open>\<^verbatim>\<open>xor eax, eax; je ret5; mov eax, 2; jmp done; ret5: mov eax, 5; done: ret\<close>\<close>;
          insns = [insn_plain 0x400020 2 (OtherMnemonic 1), insn_branch 0x400022 2 (OtherMnemonic 2) 0x40002B,
            insn_plain 0x400024 5 (OtherMnemonic 0), insn_branch 0x400029 2 Jmp 0x400030,
            insn_plain 0x40002B 5 (OtherMnemonic 0), insn_plain 0x400030 1 Ret]
      in x86_unit_test insns branch_ret5 0x400020 5)"

definition x86_detour_hotpatch :: "unit res option" where
  "x86_detour_hotpatch =
     (let hotpatch_ret0 = [0x90, 0x90, 0x90, 0x90, 0x90, 0x31, 0xC0, 0xC3, 0xB8, 5, 0, 0, 0]
        \<comment> \<open>five times \<^verbatim>\<open>nop\<close>, \<^verbatim>\<open>xor eax, eax; ret; mov eax, 5\<close>\<close>;
          insns = [insn_plain 0x400025 2 (OtherMnemonic 1), insn_plain 0x400027 1 Ret,
            insn_plain 0x400028 5 (OtherMnemonic 0)]
      in x86_unit_test insns hotpatch_ret0 (0x400020 + 5) 0)"

definition x86_detour_padding_after :: "unit res option" where
  "x86_detour_padding_after =
     (let padding_after_ret0 = [0x89, 0xFF, 0x31, 0xC0, 0xC3, 0x90, 0x90]
        \<comment> \<open>\<^verbatim>\<open>mov edi, edi; xor eax, eax; ret; nop; nop\<close>\<close>;
          insns = [insn_plain 0x400022 2 (OtherMnemonic 1), insn_plain 0x400024 1 Ret,
            insn_plain 0x400025 1 (OtherMnemonic 3), insn_plain 0x400026 1 (OtherMnemonic 3)]
      in x86_unit_test insns padding_after_ret0 (0x400020 + 2) 0)"

text \<open>\<^verbatim>\<open>assert_matches!\<close> on \<^verbatim>\<open>unwrap_err\<close>, which panics when there is no error.\<close>

definition x86_detour_external_loop :: "unit res option" where
  "x86_detour_external_loop =
     (let external_loop = [0xE2, 3, 0x90, 0x90, 0x90] \<comment> \<open>\<^verbatim>\<open>loop dest; nop; nop; nop; dest:\<close>\<close>;
          insns = [insn_branch 0x400020 2 Loop 0x400025, insn_plain 0x400022 1 (OtherMnemonic 3),
            insn_plain 0x400023 1 (OtherMnemonic 3), insn_plain 0x400024 1 (OtherMnemonic 3)];
          arch = x86_test_arch insns
      in map_option (\<lambda>(r, w). case r of Err UnsupportedInstruction \<Rightarrow> Ok () | _ \<Rightarrow> Panic)
           (raw_new arch demo_os 0x400020 0x400820 (demo_world arch (x86_image external_loop))))"

definition x86_detour_rip_relative_pos :: "unit res option" where
  "x86_detour_rip_relative_pos =
     (let rip_relative_ret195 = [0x31, 0xC0, 0x8A, 0x05, 3, 0, 0, 0, 0x90, 0x90, 0x90, 0xC3]
        \<comment> \<open>\<^verbatim>\<open>xor eax, eax; mov al, [rip+0x3]; nop; nop; nop; ret\<close>\<close>;
          insns = [insn_plain 0x400020 2 (OtherMnemonic 1), insn_rip 0x400022 6 0x40002B,
            insn_plain 0x400028 1 (OtherMnemonic 3), insn_plain 0x400029 1 (OtherMnemonic 3),
            insn_plain 0x40002A 1 (OtherMnemonic 3), insn_plain 0x40002B 1 Ret]
      in x86_unit_test insns rip_relative_ret195 0x400020 195)"

definition x86_detour_rip_relative_neg :: "unit res option" where
  "x86_detour_rip_relative_neg =
     (let rip_relative_prolog_ret49 = [0x31, 0xC0, 0x8A, 0x05, 0xF8, 0xFF, 0xFF, 0xFF, 0xC3]
        \<comment> \<open>\<^verbatim>\<open>xor eax, eax; mov al, [rip-0x8]; ret\<close>\<close>;
          insns = [insn_plain 0x400020 2 (OtherMnemonic 1), insn_rip 0x400022 6 0x400020,
            insn_plain 0x400028 1 Ret]
      in x86_unit_test insns rip_relative_prolog_ret49 0x400020 49)"

section \<open>Running the tests\<close>

text \<open>The rules that build a hook, those that read code, and those that run it.\<close>

lemmas x86_build_simps = demo_build_def x86_test_arch_def x86_arch_def x86_trampoline_new_def x86_build_def
  x86_prolog_margin_def size_of_JumpRel_def builder_new_def process_instruction_def rip_operand_target_def
  relative_branch_target_def handle_relative_branch_def handle_rip_relative_instruction_def is_return_def
  is_call_def is_loop_def is_unconditional_jump_def is_instruction_in_branch_def prolog_range_def in_range_def
  add_thunk_def emitter_new_def insn_plain_def insn_branch_def insn_rip_def emit_def Let_def upt_rec

lemmas x86_thunk_simps = x86_jmp_def x86_jcc_def target_x86_64_def x64_jmp_abs_def x64_jcc_abs_def
  unsafe_thunk_new_def rip_thunk_code_def is_within_range_def x86_DETOUR_RANGE_def u64_le_def u32_le_def

lemmas x86_hook_simps = x86_patcher_new_Ok x86_patch_area_Ok emit_hook_5 emit_hook_7 jmp_rel32_def relative32_def
  fixed_thunk_new_def calculate_displacement_def clone_from_slice_def x86_is_patchable_def x86_is_code_padding_def
  is_executable_address_def demo_query_def size_of_JumpRel_def Let_def

lemma unat_minus_1: "unat (- 1 :: u64) = 0xFFFFFFFFFFFFFFFF"
  by (simp add: unsigned_minus_1_eq_mask mask_eq_exp_minus_1)

lemmas x86_read_simps = unat_minus_1 x86_image_def x86_ret10_def write_bytes_def read_bytes_def upt_rec

lemmas x86_simps = call_within_def x86_result_def x86_start_def x86_test_step_def x86_step_def Let_def
  x86_cond_def x86_base_cond_def fetch32_def fetch64_def u32_of_le_def u64_of_u32_def

definition x86_test_patcher :: "64 mem \<Rightarrow> u64 \<Rightarrow> nat \<Rightarrow> u8 list \<Rightarrow> u64 patcher" where
  "x86_test_patcher m a n hook = \<lparr>area_ptr = a, area_len = n, original_prolog = read_bytes m a n, detour_prolog = hook\<rparr>"

lemma x86_demo_near:
  "target \<in> {0x400020, 0x400022, 0x400025} \<Longrightarrow> demo_near (x86_test_arch insns) target 0x400820"
  by (auto simp: demo_near_def x86_test_arch_def x86_arch_def x86_relay_builder_def Let_def is_within_range_def
      x86_DETOUR_RANGE_def proximity_range_def thread_allocator_new_def saturating_sub_def saturating_add_def in_range_def)

lemma x86_test_passes:
  fixes prog code hook :: "u8 list" and target area :: u64
  defines "created \<equiv> write_bytes (x86_image prog) 0x500000 code"
  defines "enabled \<equiv> write_bytes created area hook"
  assumes "demo_build (x86_test_arch insns) (x86_image prog) target 0x400820
      = Ok (x86_test_patcher (x86_image prog) area n hook, code)"
    and "target \<in> {0x400020, 0x400022, 0x400025}" "area < 0x4FF000" "length hook = n" "n \<le> 0x1000"
    and "0 < length code" "length code < 0x1000"
    and "x86_call_within 12 created target = Some result" "x86_call_within 12 enabled target = Some 10"
      "x86_call_within 12 enabled 0x500000 = Some result"
  shows "x86_unit_test insns prog target result = Some (Ok ())"
  unfolding x86_unit_test_def
  by (rule demo_unit_test [OF assms(3) x86_demo_near [OF assms(4)]])
    (use assms in \<open>simp_all add: x86_test_patcher_def patcher_wf_def x86_call_fn_def call_within_call\<close>)

lemma x86_relative_branch_passes: "x86_detour_relative_branch = Some (Ok ())"
  unfolding x86_detour_relative_branch_def Let_def
proof (rule x86_test_passes)
  let ?m = "x86_image [0x31, 0xC0, 0x74, 7, 0xB8, 2, 0, 0, 0, 0xEB, 5, 0xB8, 5, 0, 0, 0, 0xC3]"
  let ?c = "write_bytes ?m 0x500000 [0x31, 0xC0, 0x75, 0x0E, 0xFF, 0x25, 0, 0, 0, 0, 0x2B, 0, 0x40, 0, 0, 0, 0, 0, 0xB8, 2, 0, 0, 0, 0xFF, 0x25, 0, 0, 0, 0, 0x29, 0, 0x40, 0, 0, 0, 0, 0]"
  let ?e = "write_bytes ?c 0x400020 [0xE9, 0xFB, 7, 0, 0]"
  have "read_bytes ?m 0x400020 20 = [0x31, 0xC0, 0x74, 7, 0xB8, 2, 0, 0, 0, 0xEB, 5, 0xB8, 5, 0, 0, 0, 0xC3, 0, 0, 0]"
    by (simp add: x86_read_simps)
  moreover have "x86_patcher_new demo_query ?m 0x400020 0x400820 9 = Ok (x86_test_patcher ?m 0x400020 5 [0xE9, 0xFB, 7, 0, 0])"
    by (simp add: x86_hook_simps x86_test_patcher_def x86_thunk_simps x86_read_simps)
  ultimately show "demo_build (x86_test_arch [insn_plain 0x400020 2 (OtherMnemonic 1), insn_branch 0x400022 2 (OtherMnemonic 2) 0x40002B, insn_plain 0x400024 5 (OtherMnemonic 0), insn_branch 0x400029 2 Jmp 0x400030, insn_plain 0x40002B 5 (OtherMnemonic 0), insn_plain 0x400030 1 Ret]) ?m 0x400020 0x400820
      = Ok (x86_test_patcher ?m 0x400020 5 [0xE9, 0xFB, 7, 0, 0], [0x31, 0xC0, 0x75, 0x0E, 0xFF, 0x25, 0, 0, 0, 0, 0x2B, 0, 0x40, 0, 0, 0, 0, 0, 0xB8, 2, 0, 0, 0, 0xFF, 0x25, 0, 0, 0, 0, 0x29, 0, 0x40, 0, 0, 0, 0, 0])"
    by (simp add: x86_build_simps x86_thunk_simps numeral_3_eq_3)
  have "code_at ?c 0x400020 [0x31, 0xC0, 0x74, 7, 0xB8, 2, 0, 0, 0, 0xEB, 5, 0xB8, 5, 0, 0, 0, 0xC3]"
    "code_at ?c 0x7F0000 [0, 0, 0, 0, 0, 0, 0, 0]" "code_at ?c 0 [0, 0]"
    by (simp_all add: x86_read_simps)
  then show "x86_call_within 12 ?c 0x400020 = Some 5" by (simp add: x86_simps)
  have "code_at ?e 0x400020 [0xE9, 0xFB, 7, 0, 0, 2, 0, 0, 0, 0xEB, 5, 0xB8, 5, 0, 0, 0, 0xC3]"
    "code_at ?e 0x400820 [0xB8, 0x0A, 0, 0, 0, 0xC3]"
    "code_at ?e 0x500000 [0x31, 0xC0, 0x75, 0x0E, 0xFF, 0x25, 0, 0, 0, 0, 0x2B, 0, 0x40, 0, 0, 0, 0, 0, 0xB8, 2, 0, 0, 0, 0xFF, 0x25, 0, 0, 0, 0, 0x29, 0, 0x40, 0, 0, 0, 0, 0]"
    "code_at ?e 0x7F0000 [0, 0, 0, 0, 0, 0, 0, 0]" "code_at ?e 0 [0, 0]"
    by (simp_all add: x86_read_simps)
  then have "x86_call_within 12 ?e 0x400020 = Some 10 \<and> x86_call_within 12 ?e 0x500000 = Some 5"
    by (simp add: x86_simps)
  then show "x86_call_within 12 ?e 0x400020 = Some 10" "x86_call_within 12 ?e 0x500000 = Some 5"
    by simp_all
qed simp_all

lemma x86_hotpatch_passes: "x86_detour_hotpatch = Some (Ok ())"
  unfolding x86_detour_hotpatch_def Let_def
proof (rule x86_test_passes)
  let ?m = "x86_image [0x90, 0x90, 0x90, 0x90, 0x90, 0x31, 0xC0, 0xC3, 0xB8, 5, 0, 0, 0]"
  let ?c = "write_bytes ?m 0x500000 [0x31, 0xC0, 0xC3]"
  let ?e = "write_bytes ?c 0x400020 [0xE9, 0xFB, 7, 0, 0, 0xEB, 0xF9]"
  have "read_bytes ?m 0x400025 20 = [0x31, 0xC0, 0xC3, 0xB8, 5, 0, 0, 0, 0, 0, 0, 0, 0, 0, 0, 0, 0, 0, 0, 0]"
    by (simp add: x86_read_simps)
  moreover have "x86_patcher_new demo_query ?m 0x400025 0x400820 3 = Ok (x86_test_patcher ?m 0x400020 7 [0xE9, 0xFB, 7, 0, 0, 0xEB, 0xF9])"
    by (simp add: x86_hook_simps x86_test_patcher_def x86_thunk_simps x86_read_simps)
  ultimately show "demo_build (x86_test_arch [insn_plain 0x400025 2 (OtherMnemonic 1), insn_plain 0x400027 1 Ret, insn_plain 0x400028 5 (OtherMnemonic 0)]) ?m (0x400020 + 5) 0x400820
      = Ok (x86_test_patcher ?m 0x400020 7 [0xE9, 0xFB, 7, 0, 0, 0xEB, 0xF9], [0x31, 0xC0, 0xC3])"
    by (simp add: x86_build_simps x86_thunk_simps numeral_3_eq_3)
  have "code_at ?c 0x400025 [0x31, 0xC0, 0xC3, 0xB8, 5, 0, 0, 0]" "code_at ?c 0x7F0000 [0, 0, 0, 0, 0, 0, 0, 0]"
    "code_at ?c 0 [0, 0]"
    by (simp_all add: x86_read_simps)
  then show "x86_call_within 12 ?c (0x400020 + 5) = Some 0" by (simp add: x86_simps)
  have "code_at ?e 0x400020 [0xE9, 0xFB, 7, 0, 0, 0xEB, 0xF9, 0xC3, 0xB8, 5, 0, 0, 0]"
    "code_at ?e 0x400820 [0xB8, 0x0A, 0, 0, 0, 0xC3]" "code_at ?e 0x500000 [0x31, 0xC0, 0xC3]"
    "code_at ?e 0x7F0000 [0, 0, 0, 0, 0, 0, 0, 0]" "code_at ?e 0 [0, 0]"
    by (simp_all add: x86_read_simps)
  then have "x86_call_within 12 ?e 0x400025 = Some 10 \<and> x86_call_within 12 ?e 0x500000 = Some 0"
    by (simp add: x86_simps)
  then show "x86_call_within 12 ?e (0x400020 + 5) = Some 10" "x86_call_within 12 ?e 0x500000 = Some 0"
    by simp_all
qed simp_all

lemma x86_padding_after_passes: "x86_detour_padding_after = Some (Ok ())"
  unfolding x86_detour_padding_after_def Let_def
proof (rule x86_test_passes)
  let ?m = "x86_image [0x89, 0xFF, 0x31, 0xC0, 0xC3, 0x90, 0x90]"
  let ?c = "write_bytes ?m 0x500000 [0x31, 0xC0, 0xC3]"
  let ?e = "write_bytes ?c 0x400022 [0xE9, 0xF9, 7, 0, 0]"
  have "read_bytes ?m 0x400022 20 = [0x31, 0xC0, 0xC3, 0x90, 0x90, 0, 0, 0, 0, 0, 0, 0, 0, 0, 0, 0, 0, 0, 0, 0]"
    by (simp add: x86_read_simps)
  moreover have "x86_patcher_new demo_query ?m 0x400022 0x400820 3 = Ok (x86_test_patcher ?m 0x400022 5 [0xE9, 0xF9, 7, 0, 0])"
    by (simp add: x86_hook_simps x86_test_patcher_def x86_thunk_simps x86_read_simps)
  ultimately show "demo_build (x86_test_arch [insn_plain 0x400022 2 (OtherMnemonic 1), insn_plain 0x400024 1 Ret, insn_plain 0x400025 1 (OtherMnemonic 3), insn_plain 0x400026 1 (OtherMnemonic 3)]) ?m (0x400020 + 2) 0x400820
      = Ok (x86_test_patcher ?m 0x400022 5 [0xE9, 0xF9, 7, 0, 0], [0x31, 0xC0, 0xC3])"
    by (simp add: x86_build_simps x86_thunk_simps numeral_3_eq_3)
  have "code_at ?c 0x400022 [0x31, 0xC0, 0xC3, 0x90, 0x90]" "code_at ?c 0x7F0000 [0, 0, 0, 0, 0, 0, 0, 0]"
    "code_at ?c 0 [0, 0]"
    by (simp_all add: x86_read_simps)
  then show "x86_call_within 12 ?c (0x400020 + 2) = Some 0" by (simp add: x86_simps)
  have "code_at ?e 0x400020 [0x89, 0xFF, 0xE9, 0xF9, 7, 0, 0]" "code_at ?e 0x400820 [0xB8, 0x0A, 0, 0, 0, 0xC3]"
    "code_at ?e 0x500000 [0x31, 0xC0, 0xC3]" "code_at ?e 0x7F0000 [0, 0, 0, 0, 0, 0, 0, 0]"
    "code_at ?e 0 [0, 0]"
    by (simp_all add: x86_read_simps)
  then have "x86_call_within 12 ?e 0x400022 = Some 10 \<and> x86_call_within 12 ?e 0x500000 = Some 0"
    by (simp add: x86_simps)
  then show "x86_call_within 12 ?e (0x400020 + 2) = Some 10" "x86_call_within 12 ?e 0x500000 = Some 0"
    by simp_all
qed simp_all

lemma x86_rip_relative_pos_passes: "x86_detour_rip_relative_pos = Some (Ok ())"
  unfolding x86_detour_rip_relative_pos_def Let_def
proof (rule x86_test_passes)
  let ?m = "x86_image [0x31, 0xC0, 0x8A, 5, 3, 0, 0, 0, 0x90, 0x90, 0x90, 0xC3]"
  let ?c = "write_bytes ?m 0x500000 [0x31, 0xC0, 0x8A, 5, 0x23, 0, 0xF0, 0xFF, 0xFF, 0x25, 0, 0, 0, 0, 0x28, 0, 0x40, 0, 0, 0, 0, 0]"
  let ?e = "write_bytes ?c 0x400020 [0xE9, 0xFB, 7, 0, 0]"
  have "read_bytes ?m 0x400020 20 = [0x31, 0xC0, 0x8A, 5, 3, 0, 0, 0, 0x90, 0x90, 0x90, 0xC3, 0, 0, 0, 0, 0, 0, 0, 0]"
    by (simp add: x86_read_simps)
  moreover have "x86_patcher_new demo_query ?m 0x400020 0x400820 8 = Ok (x86_test_patcher ?m 0x400020 5 [0xE9, 0xFB, 7, 0, 0])"
    by (simp add: x86_hook_simps x86_test_patcher_def x86_thunk_simps x86_read_simps)
  ultimately show "demo_build (x86_test_arch [insn_plain 0x400020 2 (OtherMnemonic 1), insn_rip 0x400022 6 0x40002B, insn_plain 0x400028 1 (OtherMnemonic 3), insn_plain 0x400029 1 (OtherMnemonic 3), insn_plain 0x40002A 1 (OtherMnemonic 3), insn_plain 0x40002B 1 Ret]) ?m 0x400020 0x400820
      = Ok (x86_test_patcher ?m 0x400020 5 [0xE9, 0xFB, 7, 0, 0], [0x31, 0xC0, 0x8A, 5, 0x23, 0, 0xF0, 0xFF, 0xFF, 0x25, 0, 0, 0, 0, 0x28, 0, 0x40, 0, 0, 0, 0, 0])"
    by (simp add: x86_build_simps x86_thunk_simps numeral_3_eq_3)
  have "code_at ?c 0x400020 [0x31, 0xC0, 0x8A, 5, 3, 0, 0, 0, 0x90, 0x90, 0x90, 0xC3]"
    "code_at ?c 0x7F0000 [0, 0, 0, 0, 0, 0, 0, 0]" "code_at ?c 0 [0, 0]"
    by (simp_all add: x86_read_simps)
  then show "x86_call_within 12 ?c 0x400020 = Some 195" by (simp add: x86_simps)
  have "code_at ?e 0x400020 [0xE9, 0xFB, 7, 0, 0, 0, 0, 0, 0x90, 0x90, 0x90, 0xC3]"
    "code_at ?e 0x400820 [0xB8, 0x0A, 0, 0, 0, 0xC3]"
    "code_at ?e 0x500000 [0x31, 0xC0, 0x8A, 5, 0x23, 0, 0xF0, 0xFF, 0xFF, 0x25, 0, 0, 0, 0, 0x28, 0, 0x40, 0, 0, 0, 0, 0]"
    "code_at ?e 0x7F0000 [0, 0, 0, 0, 0, 0, 0, 0]" "code_at ?e 0 [0, 0]"
    by (simp_all add: x86_read_simps)
  then have "x86_call_within 12 ?e 0x400020 = Some 10 \<and> x86_call_within 12 ?e 0x500000 = Some 195"
    by (simp add: x86_simps)
  then show "x86_call_within 12 ?e 0x400020 = Some 10" "x86_call_within 12 ?e 0x500000 = Some 195"
    by simp_all
qed simp_all

lemma x86_rip_relative_neg_passes: "x86_detour_rip_relative_neg = Some (Ok ())"
  unfolding x86_detour_rip_relative_neg_def Let_def
proof (rule x86_test_passes)
  let ?m = "x86_image [0x31, 0xC0, 0x8A, 5, 0xF8, 0xFF, 0xFF, 0xFF, 0xC3]"
  let ?c = "write_bytes ?m 0x500000 [0x31, 0xC0, 0x8A, 5, 0xF8, 0xFF, 0xFF, 0xFF, 0xFF, 0x25, 0, 0, 0, 0, 0x28, 0, 0x40, 0, 0, 0, 0, 0]"
  let ?e = "write_bytes ?c 0x400020 [0xE9, 0xFB, 7, 0, 0]"
  have "read_bytes ?m 0x400020 20 = [0x31, 0xC0, 0x8A, 5, 0xF8, 0xFF, 0xFF, 0xFF, 0xC3, 0, 0, 0, 0, 0, 0, 0, 0, 0, 0, 0]"
    by (simp add: x86_read_simps)
  moreover have "x86_patcher_new demo_query ?m 0x400020 0x400820 8 = Ok (x86_test_patcher ?m 0x400020 5 [0xE9, 0xFB, 7, 0, 0])"
    by (simp add: x86_hook_simps x86_test_patcher_def x86_thunk_simps x86_read_simps)
  ultimately show "demo_build (x86_test_arch [insn_plain 0x400020 2 (OtherMnemonic 1), insn_rip 0x400022 6 0x400020, insn_plain 0x400028 1 Ret]) ?m 0x400020 0x400820
      = Ok (x86_test_patcher ?m 0x400020 5 [0xE9, 0xFB, 7, 0, 0], [0x31, 0xC0, 0x8A, 5, 0xF8, 0xFF, 0xFF, 0xFF, 0xFF, 0x25, 0, 0, 0, 0, 0x28, 0, 0x40, 0, 0, 0, 0, 0])"
    by (simp add: x86_build_simps x86_thunk_simps numeral_3_eq_3)
  have "code_at ?c 0x400020 [0x31, 0xC0, 0x8A, 5, 0xF8, 0xFF, 0xFF, 0xFF, 0xC3]"
    "code_at ?c 0x7F0000 [0, 0, 0, 0, 0, 0, 0, 0]" "code_at ?c 0 [0, 0]"
    by (simp_all add: x86_read_simps)
  then show "x86_call_within 12 ?c 0x400020 = Some 49" by (simp add: x86_simps)
  have "code_at ?e 0x400020 [0xE9, 0xFB, 7, 0, 0, 0xFF, 0xFF, 0xFF, 0xC3]"
    "code_at ?e 0x400820 [0xB8, 0x0A, 0, 0, 0, 0xC3]"
    "code_at ?e 0x500000 [0x31, 0xC0, 0x8A, 5, 0xF8, 0xFF, 0xFF, 0xFF, 0xFF, 0x25, 0, 0, 0, 0, 0x28, 0, 0x40, 0, 0, 0, 0, 0]"
    "code_at ?e 0x7F0000 [0, 0, 0, 0, 0, 0, 0, 0]" "code_at ?e 0 [0, 0]"
    by (simp_all add: x86_read_simps)
  then have "x86_call_within 12 ?e 0x400020 = Some 10 \<and> x86_call_within 12 ?e 0x500000 = Some 49"
    by (simp add: x86_simps)
  then show "x86_call_within 12 ?e 0x400020 = Some 10" "x86_call_within 12 ?e 0x500000 = Some 49"
    by simp_all
qed simp_all

lemma x86_external_loop_passes: "x86_detour_external_loop = Some (Ok ())"
proof -
  let ?m = "x86_image [0xE2, 3, 0x90, 0x90, 0x90]"
  let ?arch = "x86_test_arch [insn_branch 0x400020 2 Loop 0x400025, insn_plain 0x400022 1 (OtherMnemonic 3),
    insn_plain 0x400023 1 (OtherMnemonic 3), insn_plain 0x400024 1 (OtherMnemonic 3)]"
  have "read_bytes ?m 0x400020 20 = [0xE2, 3, 0x90, 0x90, 0x90, 0, 0, 0, 0, 0, 0, 0, 0, 0, 0, 0, 0, 0, 0, 0]"
    by (simp add: x86_read_simps)
  then have "res_bind (make_trampoline ?arch ?m 0x400020 (prolog_margin ?arch 0x400020)) (\<lambda>tr.
      make_patcher ?arch demo_query ?m 0x400020 0x400820 (tramp_prolog_size tr)) = Err UnsupportedInstruction"
    by (simp add: x86_build_simps)
  from demo_build_refused [OF this x86_demo_near] show ?thesis
    by (simp add: x86_detour_external_loop_def raw_new_def Let_def)
qed

text \<open>
  The hook of the example in the documentation of \<^verbatim>\<open>src/lib.rs\<close>: the function at 0x400020, its
  detour at 0x400040. (The documentation shows the displacement as 0x16.)
\<close>

lemma documented_hook: "emit (x86_hook_template (0x400040 :: u64) 5) 0x400020 = Ok [0xE9, 0x1B, 0, 0, 0]"
  by (simp add: x86_hook_simps calculate_displacement_cases is_within_range_def x86_DETOUR_RANGE_def u32_le_def)

text \<open>
  The unit tests of the x86-64 back end pass. A function with a branch, one with room for a
  hot patch, one with padding behind it, and two that read their own code relative to \<^verbatim>\<open>RIP\<close> each
  return their value before, through the trampoline while hooked, and after; hooked they return
  10. A loop that leaves the prolog is refused.
\<close>

theorem x86_unit_tests:
  "x86_detour_relative_branch = Some (Ok ()) \<and> x86_detour_hotpatch = Some (Ok ())
    \<and> x86_detour_padding_after = Some (Ok ()) \<and> x86_detour_external_loop = Some (Ok ())
    \<and> x86_detour_rip_relative_pos = Some (Ok ()) \<and> x86_detour_rip_relative_neg = Some (Ok ())"
  by (simp add: x86_relative_branch_passes x86_hotpatch_passes x86_padding_after_passes x86_external_loop_passes
      x86_rip_relative_pos_passes x86_rip_relative_neg_passes)

end
