(* ===== verification/X86_Stacked.thy ===== *)
theory X86_Stacked
  imports Detour_Stacked X86_Tests
begin

text \<open>
  The test \<^verbatim>\<open>detours_share_target\<close> of \<^verbatim>\<open>src/lib.rs\<close> on x86-64: the calls of its functions on the
  processor, the contract \<open>hooked_calls\<close> for a disassembler that reads jumps, and a run of the test.
\<close>

section \<open>Calls with two arguments\<close>

text \<open>
  The processor with the registers of the test functions; none of them reads the flags. A division
  by zero, or one whose quotient does not fit, is an exception.
\<close>

record x86_call_cpu =
  machine :: "u64 x86_cpu"
  reg_eax :: u32
  reg_edi :: u32
  reg_esi :: u32
  reg_edx :: u32

definition x86_idiv :: "u32 \<Rightarrow> u32 \<Rightarrow> u32 \<Rightarrow> (u32 \<times> u32) option" where
  "x86_idiv hi lo b =
     (let x = sint (word_cat hi lo :: u64); y = sint b; q = sgn x * sgn y * (\<bar>x\<bar> div \<bar>y\<bar>) in
      if y = 0 \<or> q < - (2 ^ 31) \<or> 2 ^ 31 \<le> q then None else Some (word_of_int q, word_of_int (x - q * y)))"

definition x86_call_step :: "x86_call_cpu \<Rightarrow> x86_call_cpu option" where
  "x86_call_step t =
     (let s = machine t; m = memory s; pc = rip s; b0 = m pc; b1 = m (pc + 1) in
      case x86_step s of
        Some s \<Rightarrow> Some (t\<lparr>machine := s\<rparr>)
      | None \<Rightarrow>
          if b0 = 0x89 \<and> b1 = 0xF8 then Some (t\<lparr>machine := s\<lparr>rip := pc + 2\<rparr>, reg_eax := reg_edi t\<rparr>)
          else if b0 = 0x01 \<and> b1 = 0xF0 then Some (t\<lparr>machine := s\<lparr>rip := pc + 2\<rparr>, reg_eax := reg_eax t + reg_esi t\<rparr>)
          else if b0 = 0x29 \<and> b1 = 0xF0 then Some (t\<lparr>machine := s\<lparr>rip := pc + 2\<rparr>, reg_eax := reg_eax t - reg_esi t\<rparr>)
          else if b0 = 0x99 then
            Some (t\<lparr>machine := s\<lparr>rip := pc + 1\<rparr>, reg_edx := (if sint (reg_eax t) < 0 then - 1 else 0)\<rparr>)
          else if b0 = 0xF7 \<and> b1 = 0xFE then
            map_option (\<lambda>(q, r). t\<lparr>machine := s\<lparr>rip := pc + 2\<rparr>, reg_eax := q, reg_edx := r\<rparr>)
              (x86_idiv (reg_edx t) (reg_eax t) (reg_esi t))
          else if b0 = 0xC3 then Some (t\<lparr>machine := s\<lparr>rip := fetch64 m (rsp s), rsp := rsp s + 8\<rparr>\<rparr>)
          else None)"

text \<open>Arguments in \<^verbatim>\<open>edi\<close> and \<^verbatim>\<open>esi\<close>, and a stack as in the other tests.\<close>

definition x86_start2 :: "u32 \<times> u32 \<Rightarrow> 64 mem \<Rightarrow> u64 \<Rightarrow> x86_call_cpu" where
  "x86_start2 args m f = \<lparr>machine = \<lparr>rip = f, rsp = 0x7F0000,
     flags = \<lparr>OF = False, CF = False, ZF = False, SF = False, PF = False\<rparr>, memory = m\<rparr>,
     reg_eax = 0, reg_edi = fst args, reg_esi = snd args, reg_edx = 0\<rparr>"

definition x86_result2 :: "x86_call_cpu \<Rightarrow> u32 option" where
  "x86_result2 t = (if rip (machine t) = 0 then Some (reg_eax t) else None)"

definition x86_call2 :: "u64 binary_call" where
  "x86_call2 m f args = call_fn x86_call_step (x86_start2 args) x86_result2 m f"

definition x86_returns :: "64 mem \<Rightarrow> u64 \<Rightarrow> u32 \<times> u32 \<Rightarrow> u32 \<Rightarrow> bool" where
  "x86_returns m f args v \<longleftrightarrow> x86_call2 m f args = Some v"

lemma exec_x86_run: "x86_run n (machine t) = Some s \<Longrightarrow> exec x86_call_step t = exec x86_call_step (t\<lparr>machine := s\<rparr>)"
proof (induction n arbitrary: t)
  case 0
  then show ?case by (cases t) auto
next
  case (Suc n)
  then obtain u where u: "x86_step (machine t) = Some u" "x86_run n u = Some s" by (auto split: option.splits)
  then have "exec x86_call_step (t\<lparr>machine := u\<rparr>) = exec x86_call_step (t\<lparr>machine := s\<rparr>)"
    using Suc.IH [of "t\<lparr>machine := u\<rparr>"] by simp
  moreover have "x86_call_step t = Some (t\<lparr>machine := u\<rparr>)" using u(1) by (simp add: x86_call_step_def Let_def)
  ultimately show ?case by (subst exec.simps) simp
qed

lemma x86_returns_hop:
  assumes "x86_runs_to m a f" "x86_returns m f args v"
  shows "x86_returns m a args v"
proof -
  let ?t = "x86_start2 args m a"
  have "memory (machine ?t) = m \<and> rip (machine ?t) = a" by (simp add: x86_start2_def)
  then obtain n where "x86_run n (machine ?t) = Some ((machine ?t)\<lparr>rip := f\<rparr>)"
    using assms(1) unfolding x86_runs_to_def by blast
  moreover have "?t\<lparr>machine := (machine ?t)\<lparr>rip := f\<rparr>\<rparr> = x86_start2 args m f"
    by (simp add: x86_start2_def)
  ultimately show ?thesis
    using assms(2) exec_x86_run [of n ?t] by (simp add: x86_returns_def x86_call2_def call_fn_def)
qed

lemma x86_calls:
  assumes "decodes_jump dec"
  shows "hooked_calls (x86_arch dec) x86_runs_to (\<lambda>_ _. True) (\<lambda>_ _. True) x86_call2 x86_returns"
  using x86_stackable [OF assms] x86_returns_hop
  by (intro hooked_calls.intro hooked_calls_axioms.intro) (simp_all add: x86_returns_def)

section \<open>The functions of the test\<close>

text \<open>
  \<^verbatim>\<open>add\<close> at 0x400020 (\<^verbatim>\<open>mov eax, edi; add eax, esi; ret\<close>), \<^verbatim>\<open>sub\<close> at 0x400820 (\<^verbatim>\<open>mov eax, edi; sub eax, esi;
  ret\<close>) and \<^verbatim>\<open>div\<close> at 0x401020 (\<^verbatim>\<open>mov eax, edi; cdq; idiv esi; ret\<close>).
\<close>

definition x86_share_image :: "64 mem" where
  "x86_share_image = write_bytes (write_bytes (write_bytes (\<lambda>_. 0) 0x401020 [0x89, 0xF8, 0x99, 0xF7, 0xFE, 0xC3])
     0x400820 [0x89, 0xF8, 0x29, 0xF0, 0xC3]) 0x400020 [0x89, 0xF8, 0x01, 0xF0, 0xC3]"

text \<open>What the disassembler says of \<^verbatim>\<open>add\<close>, and of \<^verbatim>\<open>add\<close> behind a hook.\<close>

definition share_decoder :: decoder where
  "share_decoder bits code a =
     (if code ! 0 = 0xE9
      then [insn_branch a 5 Jmp (a + 5 + scast (u32_of_le (code ! 1) (code ! 2) (code ! 3) (code ! 4)))]
      else [insn_plain a 2 (OtherMnemonic 0), insn_plain (a + 2) 2 (OtherMnemonic 1), insn_plain (a + 4) 1 Ret])"

abbreviation x86_share_arch :: "u64 architecture" where
  "x86_share_arch \<equiv> x86_arch share_decoder"

lemma share_decodes_jump: "decodes_jump share_decoder"
  by (auto simp: decodes_jump_def share_decoder_def insn_branch_def insn_plain_def rip_operand_target_def
      relative_branch_target_def)

text \<open>The memory after each of the four operations.\<close>

definition x86_share_mem1 :: "64 mem" where
  "x86_share_mem1 = write_bytes x86_share_image 0x500000 [0x89, 0xF8, 0x01, 0xF0, 0xC3]"

definition x86_share_mem2 :: "64 mem" where
  "x86_share_mem2 = write_bytes x86_share_mem1 0x400020 [0xE9, 0xFB, 0x07, 0, 0]"

definition x86_share_mem3 :: "64 mem" where
  "x86_share_mem3 = write_bytes x86_share_mem2 0x500005 [0xFF, 0x25, 0, 0, 0, 0, 0x20, 0x08, 0x40, 0, 0, 0, 0, 0]"

definition x86_share_mem4 :: "64 mem" where
  "x86_share_mem4 = write_bytes x86_share_mem3 0x400020 [0xE9, 0xFB, 0x0F, 0, 0]"

lemmas x86_share_mems = x86_share_image_def x86_share_mem1_def x86_share_mem2_def x86_share_mem3_def x86_share_mem4_def

definition x86_share_hook1 :: "u64 detour" where
  "x86_share_hook1 = pooled_detour (x86_test_patcher x86_share_image 0x400020 5 [0xE9, 0xFB, 0x07, 0, 0]) 0x500000
     [0x89, 0xF8, 0x01, 0xF0, 0xC3]"

definition x86_share_hook2 :: "u64 detour" where
  "x86_share_hook2 = pooled_detour (x86_test_patcher x86_share_mem2 0x400020 5 [0xE9, 0xFB, 0x0F, 0, 0]) 0x500005
     [0xFF, 0x25, 0, 0, 0, 0, 0x20, 0x08, 0x40, 0, 0, 0, 0, 0]"

lemmas x86_share_hooks = x86_share_hook1_def x86_share_hook2_def x86_test_patcher_def patcher_wf_def

lemma x86_share_enable:
  "detour_enable x86_share_arch demo_os x86_share_hook1 (pooled_world x86_share_arch x86_share_mem1 5)
     = (Ok (), x86_share_hook1\<lparr>d_enabled := True\<rparr>, pooled_world x86_share_arch x86_share_mem2 5)"
  "detour_enable x86_share_arch demo_os x86_share_hook2 (pooled_world x86_share_arch x86_share_mem3 19)
     = (Ok (), x86_share_hook2\<lparr>d_enabled := True\<rparr>, pooled_world x86_share_arch x86_share_mem4 19)"
  by (simp_all add: x86_share_hooks pooled_enable x86_share_mem2_def x86_share_mem4_def)

lemma x86_share_apart: "detour_apart x86_share_hook1" "detour_apart x86_share_hook2"
  unfolding x86_share_hook1_def x86_share_hook2_def by (rule pooled_apart; simp add: x86_test_patcher_def)+

lemma x86_share_new:
  assumes "x86_trampoline_new share_decoder m 0x400020 5 = Ok tr" "tramp_prolog_size tr = 5" "emit (tramp_emitter tr) a = Ok code"
    and "x86_patcher_new demo_query m 0x400020 detour 5 = Ok (x86_test_patcher m 0x400020 5 hook)"
    and "used' = used + length code" "used' \<le> 0x1000" "a = 0x500000 + of_nat used" "detour = 0x400820 \<or> detour = 0x401020"
  shows "detour_new x86_share_arch demo_os 0x400020 detour (pooled_world x86_share_arch m used)
    = Some (Ok (pooled_detour (x86_test_patcher m 0x400020 5 hook) a code),
        pooled_world x86_share_arch (write_bytes m a code) used')"
  unfolding assms(5)
  by (rule pooled_new [where tr = tr])
    (use assms in \<open>auto simp: x86_arch_def x86_prolog_margin_def size_of_JumpRel_def x86_relay_builder_def Let_def
      is_within_range_def x86_DETOUR_RANGE_def in_range_def proximity_range_def thread_allocator_new_def
      saturating_sub_def saturating_add_def\<close>)

lemma x86_share_new1:
  "detour_new x86_share_arch demo_os 0x400020 0x400820 (pooled_world x86_share_arch x86_share_image 0)
    = Some (Ok x86_share_hook1, pooled_world x86_share_arch x86_share_mem1 5)"
proof -
  let ?m = x86_share_image
  have "read_bytes ?m 0x400020 20 = [0x89, 0xF8, 0x01, 0xF0, 0xC3, 0, 0, 0, 0, 0, 0, 0, 0, 0, 0, 0, 0, 0, 0, 0]"
    by (simp add: x86_share_mems x86_read_simps)
  then obtain tr where "x86_trampoline_new share_decoder ?m 0x400020 5 = Ok tr" "tramp_prolog_size tr = 5"
    "emit (tramp_emitter tr) 0x500000 = Ok [0x89, 0xF8, 0x01, 0xF0, 0xC3]"
    by (simp add: x86_build_simps x86_thunk_simps share_decoder_def numeral_3_eq_3)
  moreover have "x86_patcher_new demo_query ?m 0x400020 0x400820 5 = Ok (x86_test_patcher ?m 0x400020 5 [0xE9, 0xFB, 0x07, 0, 0])"
    by (simp add: x86_hook_simps x86_test_patcher_def x86_thunk_simps x86_read_simps)
  ultimately show ?thesis
    unfolding x86_share_hook1_def x86_share_mem1_def by (rule x86_share_new) simp_all
qed

lemma x86_share_new2:
  "detour_new x86_share_arch demo_os 0x400020 0x401020 (pooled_world x86_share_arch x86_share_mem2 5)
    = Some (Ok x86_share_hook2, pooled_world x86_share_arch x86_share_mem3 19)"
proof -
  let ?m = x86_share_mem2 and ?code = "[0xFF, 0x25, 0, 0, 0, 0, 0x20, 0x08, 0x40, 0, 0, 0, 0, 0]"
  have "read_bytes ?m 0x400020 20 = [0xE9, 0xFB, 0x07, 0, 0, 0, 0, 0, 0, 0, 0, 0, 0, 0, 0, 0, 0, 0, 0, 0]"
    by (simp add: x86_share_mems x86_read_simps)
  then obtain tr where "x86_trampoline_new share_decoder ?m 0x400020 5 = Ok tr" "tramp_prolog_size tr = 5"
    "emit (tramp_emitter tr) 0x500005 = Ok ?code"
    by (simp add: x86_build_simps x86_thunk_simps share_decoder_def u32_of_le_def)
  moreover have "x86_patcher_new demo_query ?m 0x400020 0x401020 5 = Ok (x86_test_patcher ?m 0x400020 5 [0xE9, 0xFB, 0x0F, 0, 0])"
    by (simp add: x86_hook_simps x86_test_patcher_def x86_thunk_simps x86_read_simps)
  ultimately show ?thesis
    unfolding x86_share_hook2_def x86_share_mem3_def by (rule x86_share_new) simp_all
qed

lemma x86_share_returns:
  "x86_returns x86_share_mem2 0x400820 (5, 5) 0" "x86_returns x86_share_mem4 0x400820 (5, 5) 0"
  "x86_returns x86_share_mem4 0x401020 (10, 5) 2"
proof -
  note run = call_within_def x86_result2_def x86_start2_def x86_call_step_def x86_step_def Let_def fetch32_def fetch64_def
    u32_of_le_def u64_of_u32_def x86_idiv_def
  have "code_at x86_share_mem2 0x400820 [0x89, 0xF8, 0x29, 0xF0, 0xC3]"
    "code_at x86_share_mem2 0x7F0000 [0, 0, 0, 0, 0, 0, 0, 0]" "code_at x86_share_mem2 0 [0, 0]"
    by (simp_all add: x86_share_mems x86_read_simps)
  then have "call_within x86_call_step (x86_start2 (5, 5)) x86_result2 5 x86_share_mem2 0x400820 = Some 0"
    by (simp add: run)
  then show "x86_returns x86_share_mem2 0x400820 (5, 5) 0"
    unfolding x86_returns_def x86_call2_def by (rule call_within_call)
  have sub_div: "code_at x86_share_mem4 0x400820 [0x89, 0xF8, 0x29, 0xF0, 0xC3]"
    "code_at x86_share_mem4 0x401020 [0x89, 0xF8, 0x99, 0xF7, 0xFE, 0xC3]"
    "code_at x86_share_mem4 0x7F0000 [0, 0, 0, 0, 0, 0, 0, 0]" "code_at x86_share_mem4 0 [0, 0]"
    by (simp_all add: x86_share_mems x86_read_simps)
  then have "call_within x86_call_step (x86_start2 (5, 5)) x86_result2 5 x86_share_mem4 0x400820 = Some 0"
    by (simp add: run)
  then show "x86_returns x86_share_mem4 0x400820 (5, 5) 0"
    unfolding x86_returns_def x86_call2_def by (rule call_within_call)
  from sub_div have "call_within x86_call_step (x86_start2 (10, 5)) x86_result2 5 x86_share_mem4 0x401020 = Some 2"
    by (simp add: run)
  then show "x86_returns x86_share_mem4 0x401020 (10, 5) 2"
    unfolding x86_returns_def x86_call2_def by (rule call_within_call)
qed

section \<open>The test passes\<close>

text \<open>
  C20: two detours of one function on x86-64, as the test has them. With the first enabled, a call of
  the function arrives at the first detour; with both enabled, it arrives at the second, and the
  trampoline of the second at the first; the test, which calls them and drops both, passes with
  both front ends.
\<close>

theorem x86_detours_share_target:
  assumes "decodes_jump dec"
    and "detour_new (x86_arch dec) os (to_ptr add_fn) (to_ptr sub_fn) w = Some (Ok d1, w1)"
    and "detour_enable (x86_arch dec) os d1 w1 = (Ok (), e1, w2)"
    and "detour_new (x86_arch dec) os (to_ptr add_fn) (to_ptr div_fn) w2 = Some (Ok d2, w3)"
    and "detour_enable (x86_arch dec) os d2 w3 = (Ok (), e2, w4)"
    and "w_icache w = w_mem w" "detour_apart d1" "detour_apart d2"
    and "d_relay d1 = None" "area_ptr (d_patcher d1) = to_ptr add_fn" "\<not> in_area (d_patcher d1) (to_ptr sub_fn)"
    and "em_ptr (d_trampoline d2) \<noteq> 0"
    and "x86_returns (w_icache w2) (to_ptr sub_fn) (5, 5) 0" "x86_returns (w_icache w4) (to_ptr sub_fn) (5, 5) 0"
    and "x86_returns (w_icache w4) (to_ptr div_fn) (10, 5) 2"
    and "detour_drop (x86_arch dec) os e2 w4 = (Ok (), w5)" "detour_drop (x86_arch dec) os e1 w5 = (Ok (), w6)"
  shows "x86_runs_to (w_icache w2) (to_ptr add_fn) (to_ptr sub_fn) \<and> x86_runs_to (w_icache w4) (to_ptr add_fn) (to_ptr div_fn)
    \<and> x86_runs_to (w_icache w4) (em_ptr (d_trampoline d2)) (to_ptr sub_fn)
    \<and> detours_share_target (x86_arch dec) os x86_call2 add_fn sub_fn div_fn w = Some (Ok (), w6)
    \<and> raw_detours_share_target (x86_arch dec) os x86_call2 (to_ptr add_fn) (to_ptr sub_fn) (to_ptr div_fn) w = Some (Ok (), w6)"
  using hooked_calls.share_target_passes [OF x86_calls [OF assms(1)] assms(2-8) TrueI TrueI TrueI assms(9-17)] by simp

theorem x86_detours_share_target_witness:
  "x86_runs_to x86_share_mem2 0x400020 0x400820 \<and> x86_runs_to x86_share_mem4 0x400020 0x401020
     \<and> x86_runs_to x86_share_mem4 (em_ptr (d_trampoline x86_share_hook2)) 0x400820
     \<and> (\<exists>w6. detours_share_target x86_share_arch demo_os x86_call2 (share_fn 0x400020) (share_fn 0x400820) (share_fn 0x401020)
        (pooled_world x86_share_arch x86_share_image 0) = Some (Ok (), w6)
     \<and> raw_detours_share_target x86_share_arch demo_os x86_call2 0x400020 0x400820 0x401020
        (pooled_world x86_share_arch x86_share_image 0) = Some (Ok (), w6))"
proof -
  let ?w = "pooled_world x86_share_arch" and ?e1 = "x86_share_hook1\<lparr>d_enabled := True\<rparr>" and ?e2 = "x86_share_hook2\<lparr>d_enabled := True\<rparr>"
  have "\<exists>w5 w6. detour_drop x86_share_arch demo_os ?e2 (?w x86_share_mem4 19) = (Ok (), w5)
     \<and> detour_drop x86_share_arch demo_os ?e1 w5 = (Ok (), w6)"
    unfolding x86_share_hook1_def x86_share_hook2_def by (rule pooled_drops) (simp_all add: x86_share_hooks)
  then obtain w5 w6 where drops: "detour_drop x86_share_arch demo_os ?e2 (?w x86_share_mem4 19) = (Ok (), w5)"
    "detour_drop x86_share_arch demo_os ?e1 w5 = (Ok (), w6)"
    by blast
  have at: "d_relay x86_share_hook1 = None" "area_ptr (d_patcher x86_share_hook1) = 0x400020"
      "\<not> in_area (d_patcher x86_share_hook1) 0x400820" "em_ptr (d_trampoline x86_share_hook2) \<noteq> 0"
    by (simp_all add: x86_share_hooks pooled_detour_def in_area_def)
  have new: "detour_new x86_share_arch demo_os (to_ptr (share_fn 0x400020)) (to_ptr (share_fn 0x400820)) (?w x86_share_image 0)
      = Some (Ok x86_share_hook1, ?w x86_share_mem1 5)"
    "detour_new x86_share_arch demo_os (to_ptr (share_fn 0x400020)) (to_ptr (share_fn 0x401020)) (?w x86_share_mem2 5)
      = Some (Ok x86_share_hook2, ?w x86_share_mem3 19)"
    by (simp_all add: x86_share_new1 x86_share_new2)
  have "x86_runs_to (w_icache (?w x86_share_mem2 5)) (to_ptr (share_fn 0x400020)) (to_ptr (share_fn 0x400820))
    \<and> x86_runs_to (w_icache (?w x86_share_mem4 19)) (to_ptr (share_fn 0x400020)) (to_ptr (share_fn 0x401020))
    \<and> x86_runs_to (w_icache (?w x86_share_mem4 19)) (em_ptr (d_trampoline x86_share_hook2)) (to_ptr (share_fn 0x400820))
    \<and> detours_share_target x86_share_arch demo_os x86_call2 (share_fn 0x400020) (share_fn 0x400820) (share_fn 0x401020)
        (?w x86_share_image 0) = Some (Ok (), w6)
    \<and> raw_detours_share_target x86_share_arch demo_os x86_call2 (to_ptr (share_fn 0x400020)) (to_ptr (share_fn 0x400820))
        (to_ptr (share_fn 0x401020)) (?w x86_share_image 0) = Some (Ok (), w6)"
    by (rule x86_detours_share_target [OF share_decodes_jump new(1) x86_share_enable(1) new(2) x86_share_enable(2) _ _ _ _ _ _ _ _ _ _ drops])
      (simp_all add: x86_share_apart at x86_share_returns)
  then show ?thesis by auto
qed

section \<open>Disabling in the order of creation\<close>

text \<open>
  C21: two detours of one function on x86-64 that are disabled in the order in which they were created,
  rather than in reverse, as dropping them at the end of a scope does. Both count as disabled, but the
  function begins with the hook of the first.
\<close>

theorem x86_disabled_out_of_order:
  assumes "detour_new (x86_arch dec) os target detour1 w = Some (Ok d1, w1)"
    and "detour_enable (x86_arch dec) os d1 w1 = (Ok (), e1, w2)"
    and "detour_new (x86_arch dec) os target detour2 w2 = Some (Ok d2, w3)"
    and "detour_enable (x86_arch dec) os d2 w3 = (Ok (), e2, w4)"
    and "detour_disable (x86_arch dec) os e1 w4 = (Ok (), f1, w5)"
    and "detour_disable (x86_arch dec) os e2 w5 = (Ok (), f2, w6)"
    and "w_icache w = w_mem w" "w_icache w2 = w_mem w2" "detour_apart d1" "detour_apart d2"
    and "area_ptr (d_patcher d2) = area_ptr (d_patcher d1)" "area_len (d_patcher d2) = area_len (d_patcher d1)"
  shows "\<not> d_enabled f1 \<and> \<not> d_enabled f2
    \<and> code_at (w_mem w6) (area_ptr (d_patcher d1) :: u64) (detour_prolog (d_patcher d1))"
  by (rule x86_64.disabled_out_of_order [OF assms])

theorem x86_disabled_out_of_order_witness:
  "\<exists>f1 f2 w5 w6. detour_disable x86_share_arch demo_os (x86_share_hook1\<lparr>d_enabled := True\<rparr>)
        (pooled_world x86_share_arch x86_share_mem4 19) = (Ok (), f1, w5)
     \<and> detour_disable x86_share_arch demo_os (x86_share_hook2\<lparr>d_enabled := True\<rparr>) w5 = (Ok (), f2, w6)
     \<and> \<not> d_enabled f1 \<and> \<not> d_enabled f2 \<and> code_at (w_mem w6) 0x400020 [0xE9, 0xFB, 0x07, 0, 0]"
proof -
  obtain f1 w5 f2 w6 where disable:
    "detour_disable x86_share_arch demo_os (x86_share_hook1\<lparr>d_enabled := True\<rparr>)
       (pooled_world x86_share_arch x86_share_mem4 19) = (Ok (), f1, w5)"
    "detour_disable x86_share_arch demo_os (x86_share_hook2\<lparr>d_enabled := True\<rparr>) w5 = (Ok (), f2, w6)"
    by (simp add: x86_share_hooks detour_disable_def pooled_toggle pooled_detour_def)
  have "\<not> d_enabled f1 \<and> \<not> d_enabled f2
    \<and> code_at (w_mem w6) (area_ptr (d_patcher x86_share_hook1)) (detour_prolog (d_patcher x86_share_hook1))"
    by (rule x86_disabled_out_of_order [OF x86_share_new1 x86_share_enable(1) x86_share_new2 x86_share_enable(2) disable])
      (simp_all add: x86_share_apart, simp_all add: x86_share_hooks pooled_detour_def)
  with disable show ?thesis by (auto simp: x86_share_hooks pooled_detour_def)
qed

end
