(* ===== verification/Integration_Tests.thy ===== *)
theory Integration_Tests
  imports X86_Stacked
begin

text \<open>
  The tests of raw and generic detours in \<^verbatim>\<open>tests/lib.rs\<close>, run on the x86-64 process of \<open>X86_Stacked\<close>,
  where \<^verbatim>\<open>add\<close> is the function at 0x400020 and \<^verbatim>\<open>sub_detour\<close> the one at 0x400820.
\<close>

section \<open>The tests\<close>

text \<open>\<^verbatim>\<open>assert!\<close>, and \<^verbatim>\<open>expect\<close> on the result of a constructor.\<close>

definition assert_that :: "bool \<Rightarrow> 's \<Rightarrow> (unit res \<times> 's) option" where
  "assert_that b s = Some (if b then Ok () else Panic, s)"

definition expect_hook :: "('d res \<times> 'w) option \<Rightarrow> ('d res \<times> 'w) option" where
  "expect_hook = map_option (\<lambda>(r, w). (case r of Ok d \<Rightarrow> Ok d | _ \<Rightarrow> Panic, w))"

definition raw_test ::
  "('u::len word) architecture \<Rightarrow> ('u word, 'p) os \<Rightarrow> ('u word) binary_call \<Rightarrow> 'u word \<Rightarrow> 'u word
     \<Rightarrow> ('u word, 'p) world \<Rightarrow> (unit res \<times> ('u word, 'p) world) option" where
  "raw_test arch os call add_fn sub_detour w =
     with_hook arch os raw_inner (expect_hook (raw_new arch os add_fn sub_detour w)) (\<lambda>s.
       and_then (assert_call call add_fn (10, 5) 15 s) (\<lambda>(hook, w).
       and_then (assert_that (raw_is_enabled hook = False) (hook, w)) (\<lambda>(hook, w).
       and_then (Some (raw_enable arch os hook w)) (\<lambda>(hook, w).
       and_then (assert_that (raw_is_enabled hook) (hook, w)) (\<lambda>(hook, w).
         case raw_trampoline hook of
           Ok trampoline \<Rightarrow>
             and_then (assert_call call trampoline (10, 5) 15 (hook, w)) (\<lambda>s.
             and_then (assert_call call add_fn (10, 5) 5 s) (\<lambda>(hook, w).
             and_then (Some (raw_disable arch os hook w)) (\<lambda>(hook, w).
             and_then (assert_that (raw_is_enabled hook = False) (hook, w)) (\<lambda>s.
               assert_call call add_fn (10, 5) 15 s))))
         | Err e \<Rightarrow> Some (Err e, hook, w)
         | Panic \<Rightarrow> Some (Panic, hook, w))))))"

text \<open>\<^verbatim>\<open>hook.call(x, y)\<close> on a generic detour.\<close>

definition assert_generic_call ::
  "('u::len word) binary_call \<Rightarrow> u32 \<times> u32 \<Rightarrow> u32 \<Rightarrow> ('t, 'u word) generic_detour \<times> ('u word, 'p) world
     \<Rightarrow> (unit res \<times> ('t, 'u word) generic_detour \<times> ('u word, 'p) world) option" where
  "assert_generic_call call args v s =
     (case generic_call (fst s) of
        Ok f \<Rightarrow> assert_call call (to_ptr f) args v s
      | Err e \<Rightarrow> Some (Err e, s)
      | Panic \<Rightarrow> Some (Panic, s))"

definition generic_test ::
  "('u::len word) architecture \<Rightarrow> ('u word, 'p) os \<Rightarrow> ('u word) binary_call \<Rightarrow> ('t, 'u word) fn_ptr \<Rightarrow> ('t, 'u word) fn_ptr
     \<Rightarrow> ('u word, 'p) world \<Rightarrow> (unit res \<times> ('u word, 'p) world) option" where
  "generic_test arch os call add_fn sub_detour w =
     with_hook arch os gd_detour (expect_hook (generic_new arch os add_fn sub_detour w)) (\<lambda>s.
       and_then (assert_call call (to_ptr add_fn) (10, 5) 15 s) (\<lambda>s.
       and_then (assert_generic_call call (10, 5) 15 s) (\<lambda>(hook, w).
       and_then (Some (generic_enable arch os hook w)) (\<lambda>s.
       and_then (assert_generic_call call (10, 5) 15 s) (\<lambda>s.
       and_then (assert_call call (to_ptr add_fn) (10, 5) 5 s) (\<lambda>(hook, w).
       and_then (Some (generic_disable arch os hook w)) (\<lambda>s.
       and_then (assert_generic_call call (10, 5) 15 s) (\<lambda>s.
         assert_call call (to_ptr add_fn) (10, 5) 15 s))))))))"

section \<open>When they pass\<close>

text \<open>
  Both tests pass when enabling and disabling the hook brings back the world, and the function and the
  trampoline return what they should in the two worlds.
\<close>

lemma hook_tests_pass:
  fixes w1 :: "('u::len word, 'p) world"
  assumes new: "detour_new arch os (to_ptr add_fn) (to_ptr sub_detour) w = Some (Ok d, w1)" and off: "\<not> d_enabled d"
    and en: "detour_enable arch os d w1 = (Ok (), d\<lparr>d_enabled := True\<rparr>, w2)"
    and dis: "detour_disable arch os (d\<lparr>d_enabled := True\<rparr>) w2 = (Ok (), d, w3)"
    and drop: "detour_drop arch os d w3 = (Ok (), w4)" and nonnull: "em_ptr (d_trampoline d) \<noteq> 0"
    and add_fn: "\<And>v. v \<in> {w1, w3} \<Longrightarrow> call (w_icache v) (to_ptr add_fn) (10, 5) = Some 15"
      "call (w_icache w2) (to_ptr add_fn) (10, 5) = Some 5"
    and original: "\<And>v. v \<in> {w1, w2, w3} \<Longrightarrow> call (w_icache v) (em_ptr (d_trampoline d)) (10, 5) = Some 15"
  shows "raw_test arch os call (to_ptr add_fn) (to_ptr sub_detour) w = Some (Ok (), w4)"
    and "generic_test arch os call add_fn sub_detour w = Some (Ok (), w4)"
proof -
  show "raw_test arch os call (to_ptr add_fn) (to_ptr sub_detour) w = Some (Ok (), w4)"
    using off nonnull
    by (simp add: raw_test_def raw_new_def new expect_hook_def with_hook_def assert_call_def add_fn original assert_that_def
        raw_is_enabled_def detour_is_enabled_def raw_enable_def en raw_trampoline_def detour_trampoline_def raw_disable_def
        dis drop_hook_def drop)
  show "generic_test arch os call add_fn sub_detour w = Some (Ok (), w4)"
    using off nonnull
    by (simp add: generic_test_def generic_new_def new expect_hook_def with_hook_def assert_call_def add_fn original
        assert_generic_call_def generic_call_def generic_trampoline_def detour_trampoline_def generic_enable_def en
        generic_disable_def dis drop_hook_def drop)
qed

lemma pooled_drop_disabled:
  assumes "patcher_wf (d_patcher d)" "\<not> d_enabled d" "d_relay d = None"
    and "0x500000 \<le> em_ptr (d_trampoline d)" "em_ptr (d_trampoline d) < 0x501000"
  shows "detour_drop arch demo_os d (pooled_world arch m used) = (Ok (), pooled_world arch m used)"
proof -
  have "pool_holds bump_ops (em_ptr (d_trampoline d)) (0x500000, 0x1000, used)"
    using assms(4,5) by (simp add: pool_holds_def bump_ops_def in_range_def)
  then show ?thesis
    using assms(1-3)
    by (simp add: detour_drop_def detour_disable_def detour_toggle_wf drop_fields_def drop_memory_def executable_memory_drop_def
        proximity_release_def demo_os_def pooled_world_def) (simp add: bump_ops_def)
qed

lemma x86_integration_returns:
  "x86_call2 x86_share_mem1 0x400020 (10, 5) = Some 15" "x86_call2 x86_share_mem1 0x500000 (10, 5) = Some 15"
  "x86_call2 x86_share_mem2 0x400020 (10, 5) = Some 5" "x86_call2 x86_share_mem2 0x500000 (10, 5) = Some 15"
proof -
  note run = call_within_def x86_result2_def x86_start2_def x86_call_step_def x86_step_def Let_def fetch32_def fetch64_def
    u32_of_le_def u64_of_u32_def
  have "code_at x86_share_mem1 0x400020 [0x89, 0xF8, 0x01, 0xF0, 0xC3]"
    "code_at x86_share_mem1 0x500000 [0x89, 0xF8, 0x01, 0xF0, 0xC3]"
    "code_at x86_share_mem1 0x7F0000 [0, 0, 0, 0, 0, 0, 0, 0]" "code_at x86_share_mem1 0 [0, 0]"
    by (simp_all add: x86_share_mems x86_read_simps)
  then have "call_within x86_call_step (x86_start2 (10, 5)) x86_result2 5 x86_share_mem1 0x400020 = Some 15
    \<and> call_within x86_call_step (x86_start2 (10, 5)) x86_result2 5 x86_share_mem1 0x500000 = Some 15"
    by (simp add: run)
  then show "x86_call2 x86_share_mem1 0x400020 (10, 5) = Some 15" "x86_call2 x86_share_mem1 0x500000 (10, 5) = Some 15"
    unfolding x86_call2_def by (auto intro: call_within_call)
  have "code_at x86_share_mem2 0x400020 [0xE9, 0xFB, 0x07, 0, 0]" "code_at x86_share_mem2 0x400820 [0x89, 0xF8, 0x29, 0xF0, 0xC3]"
    "code_at x86_share_mem2 0x500000 [0x89, 0xF8, 0x01, 0xF0, 0xC3]"
    "code_at x86_share_mem2 0x7F0000 [0, 0, 0, 0, 0, 0, 0, 0]" "code_at x86_share_mem2 0 [0, 0]"
    by (simp_all add: x86_share_mems x86_read_simps)
  then have "call_within x86_call_step (x86_start2 (10, 5)) x86_result2 6 x86_share_mem2 0x400020 = Some 5
    \<and> call_within x86_call_step (x86_start2 (10, 5)) x86_result2 6 x86_share_mem2 0x500000 = Some 15"
    by (simp add: run)
  then show "x86_call2 x86_share_mem2 0x400020 (10, 5) = Some 5" "x86_call2 x86_share_mem2 0x500000 (10, 5) = Some 15"
    unfolding x86_call2_def by (auto intro: call_within_call)
qed

lemma x86_integration_tests:
  "\<exists>w4. raw_test x86_share_arch demo_os x86_call2 0x400020 0x400820 (pooled_world x86_share_arch x86_share_image 0) = Some (Ok (), w4)
    \<and> generic_test x86_share_arch demo_os x86_call2 (share_fn 0x400020) (share_fn 0x400820)
        (pooled_world x86_share_arch x86_share_image 0) = Some (Ok (), w4)"
proof -
  let ?w = "\<lambda>m. pooled_world x86_share_arch m 5" and ?d = x86_share_hook1
  have off: "\<not> d_enabled ?d" "em_ptr (d_trampoline ?d) = 0x500000" by (simp_all add: x86_share_hook1_def pooled_detour_def)
  have ok: "area_ok (?w x86_share_mem1) ?d" "icache_ok x86_share_arch (?w x86_share_mem1)"
    by (simp_all add: area_ok_def icache_ok_def x86_share_hooks pooled_detour_def area_code_def)
      (simp_all add: x86_share_mems x86_read_simps)
  obtain e w3 where dis: "detour_disable x86_share_arch demo_os (?d\<lparr>d_enabled := True\<rparr>) (?w x86_share_mem2) = (Ok (), e, w3)"
    by (simp add: x86_share_hooks detour_disable_def pooled_toggle pooled_detour_def)
  then have same: "e = ?d" "w3 = ?w x86_share_mem1"
    using toggled_back [OF ok off(1) x86_share_enable(1)] by auto
  obtain w4 where drop: "detour_drop x86_share_arch demo_os ?d (?w x86_share_mem1) = (Ok (), w4)"
    using pooled_drop_disabled [of ?d x86_share_arch x86_share_mem1 5] off
    by (simp add: x86_share_hooks pooled_detour_def)
  have new: "detour_new x86_share_arch demo_os (to_ptr (share_fn 0x400020)) (to_ptr (share_fn 0x400820))
      (pooled_world x86_share_arch x86_share_image 0) = Some (Ok ?d, ?w x86_share_mem1)"
    by (simp add: x86_share_new1)
  have "raw_test x86_share_arch demo_os x86_call2 (to_ptr (share_fn 0x400020)) (to_ptr (share_fn 0x400820))
        (pooled_world x86_share_arch x86_share_image 0) = Some (Ok (), w4)"
    "generic_test x86_share_arch demo_os x86_call2 (share_fn 0x400020) (share_fn 0x400820)
        (pooled_world x86_share_arch x86_share_image 0) = Some (Ok (), w4)"
    by (rule hook_tests_pass [OF new off(1) x86_share_enable(1) dis [unfolded same] drop];
        use off(2) x86_integration_returns in auto)+
  then show ?thesis by auto
qed

end
