(* ===== verification/Aarch64_Tests.thy ===== *)
theory Aarch64_Tests
  imports Detour_Tests Detour_Backends
begin

text \<open>
  The unit tests of \<^verbatim>\<open>src/arch/aarch64/mod.rs\<close>, run on the model with debug assertions: each test
  function is the code the assembler makes of it, and \<^verbatim>\<open>ret10\<close> is what a compiler makes of
  returning 10. The test whose functions compute with their arguments is left out.
\<close>

section \<open>Calling a function\<close>

text \<open>
  A function is called with zero in every register, so it returns to address 0, where no
  instruction is; its result is in \<^verbatim>\<open>w0\<close>.
\<close>

definition a64_start :: "64 mem \<Rightarrow> u64 \<Rightarrow> a64_cpu" where
  "a64_start m f = \<lparr>a64_pc = f, a64_regs = (\<lambda>_. 0),
     a64_nzcv = \<lparr>NF = False, ZF = False, CF = False, VF = False\<rparr>, a64_mem = m\<rparr>"

definition a64_result :: "a64_cpu \<Rightarrow> u32 option" where
  "a64_result t = (if a64_pc t = 0 then Some (ucast (a64_regs t 0)) else None)"

definition a64_call :: "64 mem \<Rightarrow> u64 \<Rightarrow> u32 option" where
  "a64_call = call_fn a64_step a64_start a64_result"

abbreviation a64_call_within :: "nat \<Rightarrow> 64 mem \<Rightarrow> u64 \<Rightarrow> u32 option" where
  "a64_call_within \<equiv> call_within a64_step a64_start a64_result"

section \<open>The tests\<close>

text \<open>The code of the test at 0x400020, \<^verbatim>\<open>ret10\<close> at 0x400820 and the static \<^verbatim>\<open>VALUE\<close> at 0x402010.\<close>

definition a64_ret10 :: "u32 list" where
  "a64_ret10 = [0x52800140, 0xD65F03C0]"

definition a64_image :: "u32 list \<Rightarrow> u64 \<Rightarrow> u8" where
  "a64_image code = write_bytes (write_bytes (write_bytes (\<lambda>_. 0) 0x402010 (words [195]))
     0x400820 (words a64_ret10)) 0x400020 (words code)"

definition a64_unit_test :: "u32 list \<Rightarrow> u64 \<Rightarrow> u32 \<Rightarrow> unit res option" where
  "a64_unit_test code target result = map_option fst
     (detour_test (a64_arch True) demo_os a64_call 0x400820 target result (demo_world (a64_arch True) (a64_image code)))"

definition a64_detour_basic :: "unit res option" where
  "a64_detour_basic =
     (let ret5 = [0x528000A0, 0xD65F03C0] \<comment> \<open>\<^verbatim>\<open>mov w0, #5; ret\<close>\<close>
      in a64_unit_test ret5 0x400020 5)"

definition a64_detour_nop_padding :: "unit res option" where
  "a64_detour_nop_padding =
     (let nop_ret3 = [0xD503201F, 0xD503201F, 0xD503201F, 0xD503201F, 0x52800060, 0xD65F03C0]
        \<comment> \<open>\<^verbatim>\<open>nop\<close> four times, \<^verbatim>\<open>mov w0, #3; ret\<close>\<close>
      in a64_unit_test nop_ret3 (0x400020 + 16) 3)"

definition a64_detour_cbz_in_prolog :: "unit res option" where
  "a64_detour_cbz_in_prolog =
     (let cbz_ret5 = [0xB400007F, 0x52800040, 0xD65F03C0, 0x528000A0, 0xD65F03C0]
        \<comment> \<open>\<^verbatim>\<open>cbz xzr, taken; mov w0, #2; ret; taken: mov w0, #5; ret\<close>\<close>
      in a64_unit_test cbz_ret5 0x400020 5)"

definition a64_detour_adrp :: "unit res option" where
  "a64_detour_adrp =
     (let adrp_load = [0xD0000000, 0xB9401000, 0xD65F03C0] \<comment> \<open>\<^verbatim>\<open>adrp x0, VALUE; ldr w0, [x0, #16]; ret\<close>\<close>
      in a64_unit_test adrp_load 0x400020 195)"

definition a64_detour_unconditional_branch :: "unit res option" where
  "a64_detour_unconditional_branch =
     (let b_ret7 = [0x14000002, 0x52800000, 0x528000E0, 0xD65F03C0]
        \<comment> \<open>\<^verbatim>\<open>b done; mov w0, #0; done: mov w0, #7; ret\<close>\<close>
      in a64_unit_test b_ret7 0x400020 7)"

definition a64_same_detour_and_target :: "u64 \<Rightarrow> unit res option" where
  "a64_same_detour_and_target identity =
     same_detour_and_target (a64_arch True) demo_os identity (demo_world (a64_arch True) (\<lambda>_. 0))"

section \<open>Running the tests\<close>

text \<open>The rules that build a hook, those that read code, and those that run it.\<close>

lemmas a64_build_simps = demo_build_def a64_arch_def a64_trampoline_new_def a64_build_def a64_build_loop.simps
  a64_prolog_margin_def a64_process_def builder_new_def Let_def is_in_branch_def track_branch_def
  prolog_range_def in_range_def sign_extend_bits_def a64_patcher_new_def a64_patch_area_def
  a64_branch_bytes_def emit_def add_thunk_def emitter_new_def words_simps

lemmas a64_thunk_simps = a64_jmp_abs_def cbz_far_def mov_imm64_def encode_mov_imm64_def X16_def
  fixed_thunk_new_def unsafe_thunk_new_def clone_from_slice_def u64_le_def

lemmas a64_fetch_simps = a64_image_def a64_ret10_def length_words fetch32_words fetch32_outside fetch32_zero

lemmas a64_simps = call_within_def a64_start_def a64_result_def a64_step_def Let_def a64_set_def a64_get_def
  a64_goto_def a64_movk_def a64_cb_taken_def a64_imm26_def a64_imm19_def a64_imm21_def fetch64_def u64_of_u32_def

definition a64_test_patcher :: "64 mem \<Rightarrow> u64 \<Rightarrow> u32 \<Rightarrow> u64 patcher" where
  "a64_test_patcher m target hook = \<lparr>area_ptr = target, area_len = 4,
     original_prolog = read_bytes m target 4, detour_prolog = words [hook]\<rparr>"

lemma a64_demo_near:
  "target = 0x400020 \<or> target = 0x400030 \<Longrightarrow> demo_near (a64_arch True) target 0x400820"
  by (auto simp: demo_near_def a64_arch_def a64_relay_builder_def Let_def is_within_range_def
      a64_DETOUR_RANGE_def proximity_range_def thread_allocator_new_def saturating_sub_def saturating_add_def in_range_def)

lemma a64_test_passes:
  fixes prog code :: "u32 list" and target :: u64 and hook :: u32
  defines "created \<equiv> write_bytes (a64_image prog) 0x500000 (words code)"
  defines "enabled \<equiv> write_bytes created target (words [hook])"
  assumes "demo_build (a64_arch True) (a64_image prog) target 0x400820
      = Ok (a64_test_patcher (a64_image prog) target hook, words code)"
    and "target = 0x400020 \<or> target = 0x400030" "0 < length code" "length code < 0x400"
    and "a64_call_within 12 created target = Some result" "a64_call_within 12 enabled target = Some 10"
      "a64_call_within 12 enabled 0x500000 = Some result"
  shows "a64_unit_test prog target result = Some (Ok ())"
  unfolding a64_unit_test_def
proof (rule demo_unit_test [OF assms(3) a64_demo_near [OF assms(4)]])
  show "area_ptr (a64_test_patcher (a64_image prog) target hook) < 0x4FF000"
    using assms(4) by (auto simp: a64_test_patcher_def)
qed (use assms in \<open>simp_all add: a64_test_patcher_def patcher_wf_def length_words a64_call_def call_within_call\<close>)

lemma a64_basic_passes: "a64_detour_basic = Some (Ok ())"
  unfolding a64_detour_basic_def Let_def
proof (rule a64_test_passes)
  let ?m = "a64_image [0x528000A0, 0xD65F03C0]"
  let ?c = "write_bytes ?m 0x500000 (words [0x528000A0, 0x58000050, 0xD61F0200, 0x400024, 0x0])"
  let ?e = "write_bytes ?c 0x400020 (words [0x14000200])"
  have "fetch32 ?m 0x400020 = 0x528000A0"
    by (simp_all add: a64_fetch_simps)
  then show "demo_build (a64_arch True) ?m 0x400020 0x400820
      = Ok (a64_test_patcher ?m 0x400020 0x14000200, words [0x528000A0, 0x58000050, 0xD61F0200, 0x400024, 0x0])"
    by (simp add: a64_build_simps a64_thunk_simps a64_test_patcher_def)
  have "fetch32 ?c 0x400020 = 0x528000A0" "fetch32 ?c 0x400024 = 0xD65F03C0" "fetch32 ?c 0x0 = 0x0"
    by (simp_all add: a64_fetch_simps)
  then show "a64_call_within 12 ?c 0x400020 = Some 5" by (simp add: a64_simps)
  have "fetch32 ?e 0x400020 = 0x14000200" "fetch32 ?e 0x400024 = 0xD65F03C0"
    "fetch32 ?e 0x400820 = 0x52800140" "fetch32 ?e 0x400824 = 0xD65F03C0"
    "fetch32 ?e 0x500000 = 0x528000A0" "fetch32 ?e 0x500004 = 0x58000050"
    "fetch32 ?e 0x500008 = 0xD61F0200" "fetch32 ?e 0x50000C = 0x400024" "fetch32 ?e 0x500010 = 0x0"
    "fetch32 ?e 0x0 = 0x0"
    by (simp_all add: a64_fetch_simps)
  then have "a64_call_within 12 ?e 0x400020 = Some 10 \<and> a64_call_within 12 ?e 0x500000 = Some 5"
    by (simp add: a64_simps)
  then show "a64_call_within 12 (write_bytes ?c 0x400020 (words [0x14000200])) 0x400020 = Some 10"
    "a64_call_within 12 (write_bytes ?c 0x400020 (words [0x14000200])) 0x500000 = Some 5"
    by simp_all
qed simp_all

lemma a64_nop_padding_passes: "a64_detour_nop_padding = Some (Ok ())"
  unfolding a64_detour_nop_padding_def Let_def
proof (rule a64_test_passes)
  let ?m = "a64_image [0xD503201F, 0xD503201F, 0xD503201F, 0xD503201F, 0x52800060, 0xD65F03C0]"
  let ?c = "write_bytes ?m 0x500000 (words [0x52800060, 0x58000050, 0xD61F0200, 0x400034, 0x0])"
  let ?e = "write_bytes ?c 0x400030 (words [0x140001FC])"
  have "fetch32 ?m 0x400030 = 0x52800060"
    by (simp_all add: a64_fetch_simps)
  then show "demo_build (a64_arch True) ?m (0x400020 + 16) 0x400820
      = Ok (a64_test_patcher ?m (0x400020 + 16) 0x140001FC, words [0x52800060, 0x58000050, 0xD61F0200, 0x400034, 0x0])"
    by (simp add: a64_build_simps a64_thunk_simps a64_test_patcher_def)
  have "fetch32 ?c 0x400030 = 0x52800060" "fetch32 ?c 0x400034 = 0xD65F03C0" "fetch32 ?c 0x0 = 0x0"
    by (simp_all add: a64_fetch_simps)
  then show "a64_call_within 12 ?c (0x400020 + 16) = Some 3" by (simp add: a64_simps)
  have "fetch32 ?e 0x400030 = 0x140001FC" "fetch32 ?e 0x400034 = 0xD65F03C0"
    "fetch32 ?e 0x400820 = 0x52800140" "fetch32 ?e 0x400824 = 0xD65F03C0"
    "fetch32 ?e 0x500000 = 0x52800060" "fetch32 ?e 0x500004 = 0x58000050"
    "fetch32 ?e 0x500008 = 0xD61F0200" "fetch32 ?e 0x50000C = 0x400034" "fetch32 ?e 0x500010 = 0x0"
    "fetch32 ?e 0x0 = 0x0"
    by (simp_all add: a64_fetch_simps)
  then have "a64_call_within 12 ?e 0x400030 = Some 10 \<and> a64_call_within 12 ?e 0x500000 = Some 3"
    by (simp add: a64_simps)
  then show "a64_call_within 12 (write_bytes ?c (0x400020 + 16) (words [0x140001FC])) (0x400020 + 16) = Some 10"
    "a64_call_within 12 (write_bytes ?c (0x400020 + 16) (words [0x140001FC])) 0x500000 = Some 3"
    by simp_all
qed simp_all

lemma a64_cbz_passes: "a64_detour_cbz_in_prolog = Some (Ok ())"
  unfolding a64_detour_cbz_in_prolog_def Let_def
proof (rule a64_test_passes)
  let ?m = "a64_image [0xB400007F, 0x52800040, 0xD65F03C0, 0x528000A0, 0xD65F03C0]"
  let ?c = "write_bytes ?m 0x500000 (words [0xB50000BF, 0x58000050, 0xD61F0200, 0x40002C, 0x0, 0x58000050, 0xD61F0200, 0x400024, 0x0])"
  let ?e = "write_bytes ?c 0x400020 (words [0x14000200])"
  have "fetch32 ?m 0x400020 = 0xB400007F"
    by (simp_all add: a64_fetch_simps)
  then show "demo_build (a64_arch True) ?m 0x400020 0x400820
      = Ok (a64_test_patcher ?m 0x400020 0x14000200, words [0xB50000BF, 0x58000050, 0xD61F0200, 0x40002C, 0x0, 0x58000050, 0xD61F0200, 0x400024, 0x0])"
    by (simp add: a64_build_simps a64_thunk_simps a64_test_patcher_def)
  have "fetch32 ?c 0x400020 = 0xB400007F" "fetch32 ?c 0x400024 = 0x52800040"
    "fetch32 ?c 0x400028 = 0xD65F03C0" "fetch32 ?c 0x40002C = 0x528000A0"
    "fetch32 ?c 0x400030 = 0xD65F03C0" "fetch32 ?c 0x0 = 0x0"
    by (simp_all add: a64_fetch_simps)
  then show "a64_call_within 12 ?c 0x400020 = Some 5" by (simp add: a64_simps)
  have "fetch32 ?e 0x400020 = 0x14000200" "fetch32 ?e 0x400024 = 0x52800040"
    "fetch32 ?e 0x400028 = 0xD65F03C0" "fetch32 ?e 0x40002C = 0x528000A0"
    "fetch32 ?e 0x400030 = 0xD65F03C0" "fetch32 ?e 0x400820 = 0x52800140"
    "fetch32 ?e 0x400824 = 0xD65F03C0" "fetch32 ?e 0x500000 = 0xB50000BF"
    "fetch32 ?e 0x500004 = 0x58000050" "fetch32 ?e 0x500008 = 0xD61F0200" "fetch32 ?e 0x50000C = 0x40002C"
    "fetch32 ?e 0x500010 = 0x0" "fetch32 ?e 0x500014 = 0x58000050" "fetch32 ?e 0x500018 = 0xD61F0200"
    "fetch32 ?e 0x50001C = 0x400024" "fetch32 ?e 0x500020 = 0x0" "fetch32 ?e 0x0 = 0x0"
    by (simp_all add: a64_fetch_simps)
  then have "a64_call_within 12 ?e 0x400020 = Some 10 \<and> a64_call_within 12 ?e 0x500000 = Some 5"
    by (simp add: a64_simps)
  then show "a64_call_within 12 (write_bytes ?c 0x400020 (words [0x14000200])) 0x400020 = Some 10"
    "a64_call_within 12 (write_bytes ?c 0x400020 (words [0x14000200])) 0x500000 = Some 5"
    by simp_all
qed simp_all

lemma a64_adrp_passes: "a64_detour_adrp = Some (Ok ())"
  unfolding a64_detour_adrp_def Let_def
proof (rule a64_test_passes)
  let ?m = "a64_image [0xD0000000, 0xB9401000, 0xD65F03C0]"
  let ?c = "write_bytes ?m 0x500000 (words [0xD2840000, 0xF2A00800, 0xF2C00000, 0xF2E00000, 0x58000050, 0xD61F0200, 0x400024, 0x0])"
  let ?e = "write_bytes ?c 0x400020 (words [0x14000200])"
  have "fetch32 ?m 0x400020 = 0xD0000000"
    by (simp_all add: a64_fetch_simps)
  then show "demo_build (a64_arch True) ?m 0x400020 0x400820
      = Ok (a64_test_patcher ?m 0x400020 0x14000200, words [0xD2840000, 0xF2A00800, 0xF2C00000, 0xF2E00000, 0x58000050, 0xD61F0200, 0x400024, 0x0])"
    by (simp add: a64_build_simps a64_thunk_simps a64_test_patcher_def)
  have "fetch32 ?c 0x400020 = 0xD0000000" "fetch32 ?c 0x400024 = 0xB9401000"
    "fetch32 ?c 0x400028 = 0xD65F03C0" "fetch32 ?c 0x402010 = 0xC3" "fetch32 ?c 0x0 = 0x0"
    by (simp_all add: a64_fetch_simps)
  then show "a64_call_within 12 ?c 0x400020 = Some 195" by (simp add: a64_simps)
  have "fetch32 ?e 0x400020 = 0x14000200" "fetch32 ?e 0x400024 = 0xB9401000"
    "fetch32 ?e 0x400028 = 0xD65F03C0" "fetch32 ?e 0x402010 = 0xC3" "fetch32 ?e 0x400820 = 0x52800140"
    "fetch32 ?e 0x400824 = 0xD65F03C0" "fetch32 ?e 0x500000 = 0xD2840000"
    "fetch32 ?e 0x500004 = 0xF2A00800" "fetch32 ?e 0x500008 = 0xF2C00000"
    "fetch32 ?e 0x50000C = 0xF2E00000" "fetch32 ?e 0x500010 = 0x58000050"
    "fetch32 ?e 0x500014 = 0xD61F0200" "fetch32 ?e 0x500018 = 0x400024" "fetch32 ?e 0x50001C = 0x0"
    "fetch32 ?e 0x0 = 0x0"
    by (simp_all add: a64_fetch_simps)
  then have "a64_call_within 12 ?e 0x400020 = Some 10 \<and> a64_call_within 12 ?e 0x500000 = Some 195"
    by (simp add: a64_simps)
  then show "a64_call_within 12 (write_bytes ?c 0x400020 (words [0x14000200])) 0x400020 = Some 10"
    "a64_call_within 12 (write_bytes ?c 0x400020 (words [0x14000200])) 0x500000 = Some 195"
    by simp_all
qed simp_all

lemma a64_unconditional_branch_passes: "a64_detour_unconditional_branch = Some (Ok ())"
  unfolding a64_detour_unconditional_branch_def Let_def
proof (rule a64_test_passes)
  let ?m = "a64_image [0x14000002, 0x52800000, 0x528000E0, 0xD65F03C0]"
  let ?c = "write_bytes ?m 0x500000 (words [0x58000050, 0xD61F0200, 0x400028, 0x0])"
  let ?e = "write_bytes ?c 0x400020 (words [0x14000200])"
  have "fetch32 ?m 0x400020 = 0x14000002"
    by (simp_all add: a64_fetch_simps)
  then show "demo_build (a64_arch True) ?m 0x400020 0x400820
      = Ok (a64_test_patcher ?m 0x400020 0x14000200, words [0x58000050, 0xD61F0200, 0x400028, 0x0])"
    by (simp add: a64_build_simps a64_thunk_simps a64_test_patcher_def)
  have "fetch32 ?c 0x400020 = 0x14000002" "fetch32 ?c 0x400024 = 0x52800000"
    "fetch32 ?c 0x400028 = 0x528000E0" "fetch32 ?c 0x40002C = 0xD65F03C0" "fetch32 ?c 0x0 = 0x0"
    by (simp_all add: a64_fetch_simps)
  then show "a64_call_within 12 ?c 0x400020 = Some 7" by (simp add: a64_simps)
  have "fetch32 ?e 0x400020 = 0x14000200" "fetch32 ?e 0x400024 = 0x52800000"
    "fetch32 ?e 0x400028 = 0x528000E0" "fetch32 ?e 0x40002C = 0xD65F03C0"
    "fetch32 ?e 0x400820 = 0x52800140" "fetch32 ?e 0x400824 = 0xD65F03C0"
    "fetch32 ?e 0x500000 = 0x58000050" "fetch32 ?e 0x500004 = 0xD61F0200" "fetch32 ?e 0x500008 = 0x400028"
    "fetch32 ?e 0x50000C = 0x0" "fetch32 ?e 0x0 = 0x0"
    by (simp_all add: a64_fetch_simps)
  then have "a64_call_within 12 ?e 0x400020 = Some 10 \<and> a64_call_within 12 ?e 0x500000 = Some 7"
    by (simp add: a64_simps)
  then show "a64_call_within 12 (write_bytes ?c 0x400020 (words [0x14000200])) 0x400020 = Some 10"
    "a64_call_within 12 (write_bytes ?c 0x400020 (words [0x14000200])) 0x500000 = Some 7"
    by simp_all
qed simp_all

text \<open>
  The unit tests of the AArch64 back end pass. Each hooked function returns its value
  before, through the trampoline while hooked, and after; hooked it returns 10. Hooking a
  function to itself is refused.
\<close>

theorem a64_unit_tests:
  "a64_detour_basic = Some (Ok ()) \<and> a64_detour_nop_padding = Some (Ok ())
    \<and> a64_detour_cbz_in_prolog = Some (Ok ()) \<and> a64_detour_adrp = Some (Ok ())
    \<and> a64_detour_unconditional_branch = Some (Ok ())
    \<and> a64_same_detour_and_target identity = Some (Ok ())"
  by (simp add: a64_basic_passes a64_nop_padding_passes a64_cbz_passes a64_adrp_passes
      a64_unconditional_branch_passes a64_same_detour_and_target_def same_detour_and_target_passes)

end
