(* ===== verification/Aarch64_Stacked.thy ===== *)
theory Aarch64_Stacked
  imports Detour_Stacked Aarch64_Tests
begin

text \<open>
  The test \<^verbatim>\<open>detours_share_target\<close> of \<^verbatim>\<open>src/arch/aarch64/mod.rs\<close>: the calls of its functions on the
  processor, the contract \<open>hooked_calls\<close> for them, and a run of the test.
\<close>

section \<open>Calls with two arguments\<close>

text \<open>The arithmetic of the test functions, on 32-bit registers; \<^verbatim>\<open>SDIV\<close> yields 0 for a division by zero.\<close>

definition a64_arith :: "u32 \<Rightarrow> (u32 \<Rightarrow> u32 \<Rightarrow> u32) option" where
  "a64_arith i =
     (if i AND 0xFFE0FC00 = 0x0B000000 then Some (+)
      else if i AND 0xFFE0FC00 = 0x4B000000 then Some (-)
      else if i AND 0xFFE0FC00 = 0x1AC00C00 then Some trunc_div
      else None)"

definition a64_test_step :: "a64_cpu \<Rightarrow> a64_cpu option" where
  "a64_test_step s =
     (case a64_step s of
        Some t \<Rightarrow> Some t
      | None \<Rightarrow>
          (let i = fetch32 (a64_mem s) (a64_pc s) in
           map_option (\<lambda>f. a64_goto (a64_pc s + 4) (a64_set (i AND 0x1F)
               (ucast (f (ucast (a64_get s (drop_bit 5 i AND 0x1F))) (ucast (a64_get s (drop_bit 16 i AND 0x1F))))) s))
             (a64_arith i)))"

text \<open>Arguments in \<^verbatim>\<open>w0\<close> and \<^verbatim>\<open>w1\<close>, the return address 0, and any value in the scratch register x16.\<close>

definition a64_start2 :: "u64 \<Rightarrow> u32 \<times> u32 \<Rightarrow> 64 mem \<Rightarrow> u64 \<Rightarrow> a64_cpu" where
  "a64_start2 x16 args m f = \<lparr>a64_pc = f, a64_regs = (\<lambda>_. 0)(0 := ucast (fst args), 1 := ucast (snd args), 16 := x16),
     a64_nzcv = \<lparr>NF = False, ZF = False, CF = False, VF = False\<rparr>, a64_mem = m\<rparr>"

definition a64_result2 :: "a64_cpu \<Rightarrow> u32 option" where
  "a64_result2 t = (if a64_pc t = 0 then Some (ucast (a64_regs t 0)) else None)"

definition a64_call2 :: "u64 binary_call" where
  "a64_call2 m f args = call_fn a64_test_step (a64_start2 0 args) a64_result2 m f"

definition a64_returns :: "64 mem \<Rightarrow> u64 \<Rightarrow> u32 \<times> u32 \<Rightarrow> u32 \<Rightarrow> bool" where
  "a64_returns m f args v \<longleftrightarrow> (\<forall>x16. call_fn a64_test_step (a64_start2 x16 args) a64_result2 m f = Some v)"

lemma exec_a64_run: "a64_run n s = Some t \<Longrightarrow> exec a64_test_step s = exec a64_test_step t"
proof (induction n arbitrary: s)
  case (Suc n)
  then obtain u where "a64_step s = Some u" "a64_run n u = Some t" by (auto split: option.splits)
  moreover from this have "exec a64_test_step u = exec a64_test_step t" by (intro Suc.IH)
  moreover have "a64_test_step s = Some u" using \<open>a64_step s = Some u\<close> by (simp add: a64_test_step_def)
  ultimately show ?case by (subst exec.simps) simp
qed simp

lemma a64_returns_hop:
  assumes "a64_runs_to m a f" "a64_returns m f args v"
  shows "a64_returns m a args v"
  unfolding a64_returns_def
proof
  fix x
  let ?s = "a64_start2 x args m a"
  have "a64_mem ?s = m \<and> a64_pc ?s = a" by (simp add: a64_start2_def)
  then obtain n y where "a64_run n ?s = Some (?s\<lparr>a64_pc := f, a64_regs := (a64_regs ?s)(16 := y)\<rparr>)"
    using assms(1) unfolding a64_runs_to_def by blast
  moreover have "?s\<lparr>a64_pc := f, a64_regs := (a64_regs ?s)(16 := y)\<rparr> = a64_start2 y args m f"
    by (simp add: a64_start2_def)
  ultimately show "call_fn a64_test_step (a64_start2 x args) a64_result2 m a = Some v"
    using assms(2) exec_a64_run by (simp add: call_fn_def a64_returns_def)
qed

interpretation a64_calls: hooked_calls "a64_arch dbg" a64_runs_to a64_near "\<lambda>_ _. True" a64_call2 a64_returns for dbg
proof (rule hooked_calls.intro [OF a64_stack.stackable_backend_axioms], rule hooked_calls_axioms.intro)
  fix m f args v
  assume "a64_returns m f args v"
  then show "a64_call2 m f args = Some v" by (simp add: a64_returns_def a64_call2_def)
qed (rule a64_returns_hop)

section \<open>The functions of the test\<close>

text \<open>\<^verbatim>\<open>add\<close> at 0x400020, \<^verbatim>\<open>sub\<close> at 0x400820 and \<^verbatim>\<open>div\<close> at 0x401020, each one instruction and a return.\<close>

definition a64_share_image :: "64 mem" where
  "a64_share_image = write_bytes (write_bytes (write_bytes (\<lambda>_. 0) 0x401020 (words [0x1AC10C00, 0xD65F03C0]))
     0x400820 (words [0x4B010000, 0xD65F03C0])) 0x400020 (words [0x0B010000, 0xD65F03C0])"

text \<open>The memory after each of the four operations.\<close>

definition a64_share_mem1 :: "64 mem" where
  "a64_share_mem1 = write_bytes a64_share_image 0x500000 (words [0x0B010000, 0x58000050, 0xD61F0200, 0x400024, 0])"

definition a64_share_mem2 :: "64 mem" where
  "a64_share_mem2 = write_bytes a64_share_mem1 0x400020 (words [0x14000200])"

definition a64_share_mem3 :: "64 mem" where
  "a64_share_mem3 = write_bytes a64_share_mem2 0x500014 (words [0x58000050, 0xD61F0200, 0x400820, 0])"

definition a64_share_mem4 :: "64 mem" where
  "a64_share_mem4 = write_bytes a64_share_mem3 0x400020 (words [0x14000400])"

lemmas a64_share_mems = a64_share_image_def a64_share_mem1_def a64_share_mem2_def a64_share_mem3_def a64_share_mem4_def length_words
  fetch32_words fetch32_outside fetch32_zero

abbreviation a64_share_world :: "64 mem \<Rightarrow> nat \<Rightarrow> u64 bump_world" where
  "a64_share_world \<equiv> pooled_world (a64_arch True)"

definition a64_share_hook1 :: "u64 detour" where
  "a64_share_hook1 = pooled_detour (a64_test_patcher a64_share_image 0x400020 0x14000200) 0x500000
     (words [0x0B010000, 0x58000050, 0xD61F0200, 0x400024, 0])"

definition a64_share_hook2 :: "u64 detour" where
  "a64_share_hook2 = pooled_detour (a64_test_patcher a64_share_mem2 0x400020 0x14000400) 0x500014
     (words [0x58000050, 0xD61F0200, 0x400820, 0])"

lemma a64_share_new:
  assumes fetch: "fetch32 m 0x400020 = i" and len: "length code = 4 * n" "used + 4 * n \<le> 0x1000"
    and build: "\<And>m'. fetch32 m' 0x400020 = i \<Longrightarrow>
      \<exists>tr. a64_trampoline_new m' 0x400020 4 = Ok tr \<and> tramp_prolog_size tr = 4 \<and> emit (tramp_emitter tr) a = Ok code"
    and hook: "a64_branch_bytes True 0x400020 detour = Ok (words [b])"
    and a: "a = 0x500000 + of_nat used" and detour: "detour = 0x400820 \<or> detour = 0x401020"
  shows "detour_new (a64_arch True) demo_os 0x400020 detour (a64_share_world m used)
    = Some (Ok (pooled_detour (a64_test_patcher m 0x400020 b) a code), a64_share_world (write_bytes m a code) (used + 4 * n))"
proof -
  obtain tr where tr: "a64_trampoline_new m 0x400020 4 = Ok tr" "tramp_prolog_size tr = 4" "emit (tramp_emitter tr) a = Ok code"
    using build [OF fetch] by blast
  have "detour_new (a64_arch True) demo_os 0x400020 detour (a64_share_world m used)
    = Some (Ok (pooled_detour (a64_test_patcher m 0x400020 b) a code), a64_share_world (write_bytes m a code) (used + length code))"
  proof (rule pooled_new [where tr = tr])
    show "make_patcher (a64_arch True) demo_query m 0x400020 detour (tramp_prolog_size tr) = Ok (a64_test_patcher m 0x400020 b)"
      using hook tr(2) by (simp add: a64_arch_def a64_patcher_new_Ok a64_patch_area_Ok a64_test_patcher_def)
  qed (use tr a len detour in \<open>auto simp: a64_arch_def a64_prolog_margin_def a64_relay_builder_def Let_def
      is_within_range_def a64_DETOUR_RANGE_def in_range_def proximity_range_def thread_allocator_new_def
      saturating_sub_def saturating_add_def\<close>)
  then show ?thesis using len(1) by simp
qed

lemma a64_share_new1:
  "detour_new (a64_arch True) demo_os 0x400020 0x400820 (a64_share_world a64_share_image 0) = Some (Ok a64_share_hook1, a64_share_world a64_share_mem1 20)"
proof -
  have "detour_new (a64_arch True) demo_os 0x400020 0x400820 (a64_share_world a64_share_image 0)
    = Some (Ok (pooled_detour (a64_test_patcher a64_share_image 0x400020 0x14000200) 0x500000
        (words [0x0B010000, 0x58000050, 0xD61F0200, 0x400024, 0])),
      a64_share_world (write_bytes a64_share_image 0x500000 (words [0x0B010000, 0x58000050, 0xD61F0200, 0x400024, 0])) (0 + 4 * 5))"
    by (rule a64_share_new [where i = "0x0B010000"])
      (simp_all add: a64_share_mems, simp_all add: a64_build_simps a64_thunk_simps)
  then show ?thesis by (simp add: a64_share_hook1_def a64_share_mem1_def)
qed

lemma a64_share_new2:
  "detour_new (a64_arch True) demo_os 0x400020 0x401020 (a64_share_world a64_share_mem2 20) = Some (Ok a64_share_hook2, a64_share_world a64_share_mem3 36)"
proof -
  have "detour_new (a64_arch True) demo_os 0x400020 0x401020 (a64_share_world a64_share_mem2 20)
    = Some (Ok (pooled_detour (a64_test_patcher a64_share_mem2 0x400020 0x14000400) 0x500014
        (words [0x58000050, 0xD61F0200, 0x400820, 0])),
      a64_share_world (write_bytes a64_share_mem2 0x500014 (words [0x58000050, 0xD61F0200, 0x400820, 0])) (20 + 4 * 4))"
    by (rule a64_share_new [where i = "0x14000200"])
      (simp_all add: a64_share_mems, simp_all add: a64_build_simps a64_thunk_simps)
  then show ?thesis by (simp add: a64_share_hook2_def a64_share_mem3_def)
qed

lemma a64_share_returns:
  "a64_returns a64_share_mem2 0x400820 (5, 5) 0" "a64_returns a64_share_mem4 0x400820 (5, 5) 0"
  "a64_returns a64_share_mem4 0x401020 (10, 5) 2"
proof -
  have "fetch32 a64_share_mem2 0x400820 = 0x4B010000" "fetch32 a64_share_mem2 0x400824 = 0xD65F03C0" "fetch32 a64_share_mem2 0 = 0"
    by (simp_all add: a64_share_mems)
  then have "call_within a64_test_step (a64_start2 x (5, 5)) a64_result2 5 a64_share_mem2 0x400820 = Some 0" for x
    by (simp add: a64_simps a64_test_step_def a64_start2_def a64_result2_def a64_arith_def)
  then show "a64_returns a64_share_mem2 0x400820 (5, 5) 0"
    unfolding a64_returns_def by (blast intro: call_within_call)
  have "fetch32 a64_share_mem4 0x400820 = 0x4B010000" "fetch32 a64_share_mem4 0x400824 = 0xD65F03C0" "fetch32 a64_share_mem4 0 = 0"
    by (simp_all add: a64_share_mems)
  then have "call_within a64_test_step (a64_start2 x (5, 5)) a64_result2 5 a64_share_mem4 0x400820 = Some 0" for x
    by (simp add: a64_simps a64_test_step_def a64_start2_def a64_result2_def a64_arith_def)
  then show "a64_returns a64_share_mem4 0x400820 (5, 5) 0"
    unfolding a64_returns_def by (blast intro: call_within_call)
  have "fetch32 a64_share_mem4 0x401020 = 0x1AC10C00" "fetch32 a64_share_mem4 0x401024 = 0xD65F03C0" "fetch32 a64_share_mem4 0 = 0"
    by (simp_all add: a64_share_mems)
  then have "call_within a64_test_step (a64_start2 x (10, 5)) a64_result2 5 a64_share_mem4 0x401020 = Some 2" for x
    by (simp add: a64_simps a64_test_step_def a64_start2_def a64_result2_def a64_arith_def trunc_div_def)
  then show "a64_returns a64_share_mem4 0x401020 (10, 5) 2"
    unfolding a64_returns_def by (blast intro: call_within_call)
qed

section \<open>The test passes\<close>

text \<open>
  C22: two detours of one function on AArch64, as the test has them. With the first enabled, a call of
  the function arrives at the first detour; with both enabled, it arrives at the second, and the
  trampoline of the second at the first; the test, which calls them and drops both, passes with
  both front ends.
\<close>

theorem a64_detours_share_target:
  assumes "detour_new (a64_arch dbg) os (to_ptr add_fn) (to_ptr sub_fn) w = Some (Ok d1, w1)"
    and "detour_enable (a64_arch dbg) os d1 w1 = (Ok (), e1, w2)"
    and "detour_new (a64_arch dbg) os (to_ptr add_fn) (to_ptr div_fn) w2 = Some (Ok d2, w3)"
    and "detour_enable (a64_arch dbg) os d2 w3 = (Ok (), e2, w4)"
    and "w_icache w = w_mem w" "detour_apart d1" "detour_apart d2"
    and "a64_near (to_ptr add_fn) (to_ptr sub_fn)" "a64_near (to_ptr add_fn) (detour_entry d2 (to_ptr div_fn))"
    and "d_relay d1 = None" "\<not> in_area (d_patcher d1) (to_ptr sub_fn)" "em_ptr (d_trampoline d2) \<noteq> 0"
    and "a64_returns (w_icache w2) (to_ptr sub_fn) (5, 5) 0" "a64_returns (w_icache w4) (to_ptr sub_fn) (5, 5) 0"
    and "a64_returns (w_icache w4) (to_ptr div_fn) (10, 5) 2"
    and "detour_drop (a64_arch dbg) os e2 w4 = (Ok (), w5)" "detour_drop (a64_arch dbg) os e1 w5 = (Ok (), w6)"
  shows "a64_runs_to (w_icache w2) (to_ptr add_fn) (to_ptr sub_fn) \<and> a64_runs_to (w_icache w4) (to_ptr add_fn) (to_ptr div_fn)
    \<and> a64_runs_to (w_icache w4) (em_ptr (d_trampoline d2)) (to_ptr sub_fn)
    \<and> detours_share_target (a64_arch dbg) os a64_call2 add_fn sub_fn div_fn w = Some (Ok (), w6)
    \<and> raw_detours_share_target (a64_arch dbg) os a64_call2 (to_ptr add_fn) (to_ptr sub_fn) (to_ptr div_fn) w = Some (Ok (), w6)"
proof -
  obtain query m n where "a64_patcher_new dbg m (to_ptr add_fn) (detour_entry d1 (to_ptr sub_fn)) n = Ok (d_patcher d1)"
    using a64_stack.enabled_code [OF assms(1,2,5,6)] by (auto simp: a64_arch_def)
  then have "area_ptr (d_patcher d1) = to_ptr add_fn"
    by (simp add: a64_patcher_new_Ok a64_patch_area_Ok)
  then show ?thesis
    using a64_calls.share_target_passes [OF assms(1-9) _ assms(10) _ assms(11-17)] by simp
qed

theorem a64_detours_share_target_witness:
  "a64_runs_to a64_share_mem2 0x400020 0x400820 \<and> a64_runs_to a64_share_mem4 0x400020 0x401020
     \<and> a64_runs_to a64_share_mem4 (em_ptr (d_trampoline a64_share_hook2)) 0x400820
     \<and> (\<exists>w6. detours_share_target (a64_arch True) demo_os a64_call2 (share_fn 0x400020) (share_fn 0x400820) (share_fn 0x401020)
        (a64_share_world a64_share_image 0) = Some (Ok (), w6)
     \<and> raw_detours_share_target (a64_arch True) demo_os a64_call2 0x400020 0x400820 0x401020
        (a64_share_world a64_share_image 0) = Some (Ok (), w6))"
proof -
  note hooks = a64_share_hook1_def a64_share_hook2_def a64_test_patcher_def patcher_wf_def length_words
  have enable: "detour_enable (a64_arch True) demo_os a64_share_hook1 (a64_share_world a64_share_mem1 20)
      = (Ok (), a64_share_hook1\<lparr>d_enabled := True\<rparr>, a64_share_world a64_share_mem2 20)"
    "detour_enable (a64_arch True) demo_os a64_share_hook2 (a64_share_world a64_share_mem3 36)
      = (Ok (), a64_share_hook2\<lparr>d_enabled := True\<rparr>, a64_share_world a64_share_mem4 36)"
    by (simp_all add: hooks pooled_enable a64_share_mem2_def a64_share_mem4_def)
  have "\<exists>w5 w6. detour_drop (a64_arch True) demo_os (a64_share_hook2\<lparr>d_enabled := True\<rparr>) (a64_share_world a64_share_mem4 36) = (Ok (), w5)
     \<and> detour_drop (a64_arch True) demo_os (a64_share_hook1\<lparr>d_enabled := True\<rparr>) w5 = (Ok (), w6)"
    unfolding a64_share_hook1_def a64_share_hook2_def by (rule pooled_drops) (simp_all add: hooks)
  then obtain w5 w6 where drops: "detour_drop (a64_arch True) demo_os (a64_share_hook2\<lparr>d_enabled := True\<rparr>) (a64_share_world a64_share_mem4 36) = (Ok (), w5)"
    "detour_drop (a64_arch True) demo_os (a64_share_hook1\<lparr>d_enabled := True\<rparr>) w5 = (Ok (), w6)"
    by blast
  have near: "a64_near 0x400020 0x400820" "a64_near 0x400020 0x401020"
    by (simp_all add: a64_near_def a64_relay_builder_def Let_def is_within_range_def a64_DETOUR_RANGE_def take_bit_eq_mod)
  have apart: "detour_apart a64_share_hook1" "detour_apart a64_share_hook2"
    unfolding a64_share_hook1_def a64_share_hook2_def by (rule pooled_apart; simp add: hooks)+
  have at: "d_relay a64_share_hook1 = None" "detour_entry a64_share_hook2 0x401020 = 0x401020"
      "\<not> in_area (d_patcher a64_share_hook1) 0x400820" "em_ptr (d_trampoline a64_share_hook2) \<noteq> 0"
    by (simp_all add: hooks pooled_detour_def detour_entry_def in_area_def)
  have new: "detour_new (a64_arch True) demo_os (to_ptr (share_fn 0x400020)) (to_ptr (share_fn 0x400820)) (a64_share_world a64_share_image 0)
      = Some (Ok a64_share_hook1, a64_share_world a64_share_mem1 20)"
    "detour_new (a64_arch True) demo_os (to_ptr (share_fn 0x400020)) (to_ptr (share_fn 0x401020)) (a64_share_world a64_share_mem2 20)
      = Some (Ok a64_share_hook2, a64_share_world a64_share_mem3 36)"
    by (simp_all add: a64_share_new1 a64_share_new2)
  have "a64_runs_to (w_icache (a64_share_world a64_share_mem2 20)) (to_ptr (share_fn 0x400020)) (to_ptr (share_fn 0x400820))
    \<and> a64_runs_to (w_icache (a64_share_world a64_share_mem4 36)) (to_ptr (share_fn 0x400020)) (to_ptr (share_fn 0x401020))
    \<and> a64_runs_to (w_icache (a64_share_world a64_share_mem4 36)) (em_ptr (d_trampoline a64_share_hook2)) (to_ptr (share_fn 0x400820))
    \<and> detours_share_target (a64_arch True) demo_os a64_call2 (share_fn 0x400020) (share_fn 0x400820) (share_fn 0x401020)
        (a64_share_world a64_share_image 0) = Some (Ok (), w6)
    \<and> raw_detours_share_target (a64_arch True) demo_os a64_call2 (to_ptr (share_fn 0x400020)) (to_ptr (share_fn 0x400820))
        (to_ptr (share_fn 0x401020)) (a64_share_world a64_share_image 0) = Some (Ok (), w6)"
    by (rule a64_detours_share_target [OF new(1) enable(1) new(2) enable(2) _ _ _ _ _ _ _ _ _ _ _ drops])
      (simp_all add: apart near at a64_share_returns)
  then show ?thesis by auto
qed

end
