(* ===== verification/Riscv_Tests.thy ===== *)
theory Riscv_Tests
  imports Detour_Tests Detour_Backends
begin

text \<open>
  The unit tests of \<^verbatim>\<open>src/arch/riscv/mod.rs\<close>, run on the model: each test function is the code
  the assembler makes of it without the C extension, in a riscv64 process with debug assertions.
\<close>

section \<open>Calling a function\<close>

text \<open>
  A function is called with zero in every register, so it returns to address 0, where no
  instruction is; its result is in \<^verbatim>\<open>a0\<close>.
\<close>

definition rv_start :: "'u::len mem \<Rightarrow> 'u word \<Rightarrow> 'u word rv_cpu" where
  "rv_start m f = \<lparr>rv_pc = f, rv_regs = (\<lambda>_. 0), rv_mem = m\<rparr>"

definition rv_result :: "'u::len word rv_cpu \<Rightarrow> u32 option" where
  "rv_result t = (if rv_pc t = 0 then Some (ucast (rv_regs t 10)) else None)"

definition rv_call :: "'u::len mem \<Rightarrow> 'u word \<Rightarrow> u32 option" where
  "rv_call = call_fn rv_step rv_start rv_result"

abbreviation rv_call_within :: "nat \<Rightarrow> 'u::len mem \<Rightarrow> 'u word \<Rightarrow> u32 option" where
  "rv_call_within \<equiv> call_within rv_step rv_start rv_result"

section \<open>The tests\<close>

text \<open>The code of the test at 0x400020, \<^verbatim>\<open>ret10\<close> at 0x400820 and the static \<^verbatim>\<open>VALUE\<close> at 0x402000.\<close>

definition riscv_ret10 :: "u32 list" where
  "riscv_ret10 = [0x00A00513, 0x00008067]"

definition riscv_image :: "u32 list \<Rightarrow> u64 \<Rightarrow> u8" where
  "riscv_image code = write_bytes (write_bytes (write_bytes (\<lambda>_. 0) 0x402000 (words [195]))
     0x400820 (words riscv_ret10)) 0x400020 (words code)"

definition riscv_unit_test :: "u32 list \<Rightarrow> u64 \<Rightarrow> u32 \<Rightarrow> unit res option" where
  "riscv_unit_test code target result = map_option fst
     (detour_test (riscv_arch True) demo_os rv_call 0x400820 target result (demo_world (riscv_arch True) (riscv_image code)))"

definition riscv_detour_basic :: "unit res option" where
  "riscv_detour_basic =
     (let ret5 = [0x00500513, 0x00008067] \<comment> \<open>\<^verbatim>\<open>li a0, 5; ret\<close>\<close>
      in riscv_unit_test ret5 0x400020 5)"

definition riscv_detour_nop_padding :: "unit res option" where
  "riscv_detour_nop_padding =
     (let nop_ret3 = [0x13, 0x13, 0x13, 0x13, 0x00300513, 0x00008067] \<comment> \<open>\<^verbatim>\<open>nop\<close> four times, \<^verbatim>\<open>li a0, 3; ret\<close>\<close>
      in riscv_unit_test nop_ret3 (0x400020 + 16) 3)"

text \<open>
  The source of the next test does not assemble: its \<^verbatim>\<open>%pcrel_lo(1b)\<close> refers to a label that is
  missing. The words are those it has once the label stands before the \<^verbatim>\<open>auipc\<close>.
\<close>

definition riscv_detour_auipc :: "unit res option" where
  "riscv_detour_auipc =
     (let auipc_load = [0x00002517, 0xFE052503, 0x00008067] \<comment> \<open>\<^verbatim>\<open>auipc a0, 2; lw a0, -32(a0); ret\<close>\<close>
      in riscv_unit_test auipc_load 0x400020 195)"

definition riscv_detour_unconditional_branch :: "unit res option" where
  "riscv_detour_unconditional_branch =
     (let jal_ret7 = [0x0080006F, 0x00000513, 0x00700513, 0x00008067] \<comment> \<open>\<^verbatim>\<open>j done; li a0, 0; done: li a0, 7; ret\<close>\<close>
      in riscv_unit_test jal_ret7 0x400020 7)"

definition riscv_detour_conditional_branch :: "unit res option" where
  "riscv_detour_conditional_branch =
     (let beq_ret5 = [0x00000663, 0x00200513, 0x00008067, 0x00500513, 0x00008067]
        \<comment> \<open>\<^verbatim>\<open>beq x0, x0, taken; li a0, 2; ret; taken: li a0, 5; ret\<close>\<close>
      in riscv_unit_test beq_ret5 0x400020 5)"

definition riscv_same_detour_and_target :: "u64 \<Rightarrow> unit res option" where
  "riscv_same_detour_and_target identity =
     same_detour_and_target (riscv_arch True) demo_os identity (demo_world (riscv_arch True) (\<lambda>_. 0))"

section \<open>Running the tests\<close>

text \<open>The rules that build a hook, those that read code, and those that run it.\<close>

lemmas riscv_build_simps = demo_build_def riscv_arch_def riscv_trampoline_new_def riscv_build_def riscv_build_loop.simps
  riscv_prolog_margin_def riscv_process_def builder_new_def Let_def is_in_branch_def track_branch_def
  prolog_range_def in_range_def decode_j_type_def decode_b_type_def riscv_patcher_new_def riscv_patch_area_def
  riscv_branch_bytes_def i32_fits_def emit_def add_thunk_def emitter_new_def words_simps

lemmas riscv_thunk_simps = riscv_jmp_abs_def jmp_abs_rd_def jmp_abs_bytes_def T1_def target_riscv64_def riscv_literal_def
  li_abs_def branch_far_def encode_b_type_def encode_j_type_def fixed_thunk_new_def unsafe_thunk_new_def
  clone_from_slice_def u64_le_def

lemmas riscv_fetch_simps = riscv_image_def riscv_ret10_def length_words fetch32_words fetch32_outside fetch32_zero

lemmas rv_simps = call_within_def rv_start_def rv_result_def rv_step_def Let_def rv_set_def rv_get_def rv_rd_def
  rv_rs1_def rv_rs2_def rv_funct3_def rv_imm_i_def rv_imm_u_def rv_cond_def decode_j_type_isa [symmetric]
  decode_b_type_isa [symmetric] decode_j_type_def decode_b_type_def fetch64_def u64_of_u32_def

definition riscv_test_patcher :: "64 mem \<Rightarrow> u64 \<Rightarrow> u32 list \<Rightarrow> u64 patcher" where
  "riscv_test_patcher m target hook = \<lparr>area_ptr = target, area_len = 8,
     original_prolog = read_bytes m target 8, detour_prolog = words hook\<rparr>"

lemma riscv_demo_near:
  "target = 0x400020 \<or> target = 0x400030 \<Longrightarrow> demo_near (riscv_arch True) target 0x400820"
  by (auto simp: demo_near_def riscv_arch_def riscv_relay_builder_def Let_def is_within_range_def
      riscv_DETOUR_RANGE_def proximity_range_def thread_allocator_new_def saturating_sub_def saturating_add_def in_range_def)

lemma riscv_test_passes:
  fixes prog code :: "u32 list" and target :: u64 and h1 h2 :: u32
  defines "created \<equiv> write_bytes (riscv_image prog) 0x500000 (words code)"
  defines "enabled \<equiv> write_bytes created target (words [h1, h2])"
  assumes "demo_build (riscv_arch True) (riscv_image prog) target 0x400820
      = Ok (riscv_test_patcher (riscv_image prog) target [h1, h2], words code)"
    and "target = 0x400020 \<or> target = 0x400030" "0 < length code" "length code < 0x400"
    and "rv_call_within 12 created target = Some result" "rv_call_within 12 enabled target = Some 10"
      "rv_call_within 12 enabled 0x500000 = Some result"
  shows "riscv_unit_test prog target result = Some (Ok ())"
  unfolding riscv_unit_test_def
proof (rule demo_unit_test [OF assms(3) riscv_demo_near [OF assms(4)]])
  show "area_ptr (riscv_test_patcher (riscv_image prog) target [h1, h2]) < 0x4FF000"
    using assms(4) by (auto simp: riscv_test_patcher_def)
qed (use assms in \<open>simp_all add: riscv_test_patcher_def patcher_wf_def length_words rv_call_def call_within_call\<close>)

lemma riscv_basic_passes: "riscv_detour_basic = Some (Ok ())"
  unfolding riscv_detour_basic_def Let_def
proof (rule riscv_test_passes)
  let ?m = "riscv_image [0x500513, 0x8067]"
  let ?c = "write_bytes ?m 0x500000 (words [0x500513, 0x8067])"
  let ?e = "write_bytes ?c 0x400020 (words [0x1317, 0x80030067])"
  have "fetch32 ?m 0x400020 = 0x500513" "fetch32 ?m 0x400024 = 0x8067"
    by (simp_all add: riscv_fetch_simps)
  then show "demo_build (riscv_arch True) ?m 0x400020 0x400820
      = Ok (riscv_test_patcher ?m 0x400020 [0x1317, 0x80030067], words [0x500513, 0x8067])"
    by (simp add: riscv_build_simps riscv_thunk_simps riscv_test_patcher_def)
  have "fetch32 ?c 0x400020 = 0x500513" "fetch32 ?c 0x400024 = 0x8067" "fetch32 ?c 0x0 = 0x0"
    by (simp_all add: riscv_fetch_simps)
  then show "rv_call_within 12 ?c 0x400020 = Some 5" by (simp add: rv_simps)
  have "fetch32 ?e 0x400020 = 0x1317" "fetch32 ?e 0x400024 = 0x80030067" "fetch32 ?e 0x400820 = 0xA00513"
    "fetch32 ?e 0x400824 = 0x8067" "fetch32 ?e 0x500000 = 0x500513" "fetch32 ?e 0x500004 = 0x8067"
    "fetch32 ?e 0x0 = 0x0"
    by (simp_all add: riscv_fetch_simps)
  then have "rv_call_within 12 ?e 0x400020 = Some 10 \<and> rv_call_within 12 ?e 0x500000 = Some 5"
    by (simp add: rv_simps)
  then show "rv_call_within 12 (write_bytes ?c 0x400020 (words [0x1317, 0x80030067])) 0x400020 = Some 10"
    "rv_call_within 12 (write_bytes ?c 0x400020 (words [0x1317, 0x80030067])) 0x500000 = Some 5"
    by simp_all
qed simp_all

lemma riscv_nop_padding_passes: "riscv_detour_nop_padding = Some (Ok ())"
  unfolding riscv_detour_nop_padding_def Let_def
proof (rule riscv_test_passes)
  let ?m = "riscv_image [0x13, 0x13, 0x13, 0x13, 0x300513, 0x8067]"
  let ?c = "write_bytes ?m 0x500000 (words [0x300513, 0x8067])"
  let ?e = "write_bytes ?c 0x400030 (words [0x317, 0x7F030067])"
  have "fetch32 ?m 0x400030 = 0x300513" "fetch32 ?m 0x400034 = 0x8067"
    by (simp_all add: riscv_fetch_simps)
  then show "demo_build (riscv_arch True) ?m (0x400020 + 16) 0x400820
      = Ok (riscv_test_patcher ?m (0x400020 + 16) [0x317, 0x7F030067], words [0x300513, 0x8067])"
    by (simp add: riscv_build_simps riscv_thunk_simps riscv_test_patcher_def)
  have "fetch32 ?c 0x400030 = 0x300513" "fetch32 ?c 0x400034 = 0x8067" "fetch32 ?c 0x0 = 0x0"
    by (simp_all add: riscv_fetch_simps)
  then show "rv_call_within 12 ?c (0x400020 + 16) = Some 3" by (simp add: rv_simps)
  have "fetch32 ?e 0x400030 = 0x317" "fetch32 ?e 0x400034 = 0x7F030067" "fetch32 ?e 0x400820 = 0xA00513"
    "fetch32 ?e 0x400824 = 0x8067" "fetch32 ?e 0x500000 = 0x300513" "fetch32 ?e 0x500004 = 0x8067"
    "fetch32 ?e 0x0 = 0x0"
    by (simp_all add: riscv_fetch_simps)
  then have "rv_call_within 12 ?e 0x400030 = Some 10 \<and> rv_call_within 12 ?e 0x500000 = Some 3"
    by (simp add: rv_simps)
  then show "rv_call_within 12 (write_bytes ?c (0x400020 + 16) (words [0x317, 0x7F030067])) (0x400020 + 16) = Some 10"
    "rv_call_within 12 (write_bytes ?c (0x400020 + 16) (words [0x317, 0x7F030067])) 0x500000 = Some 3"
    by simp_all
qed simp_all

lemma riscv_auipc_passes: "riscv_detour_auipc = Some (Ok ())"
  unfolding riscv_detour_auipc_def Let_def
proof (rule riscv_test_passes)
  let ?m = "riscv_image [0x2517, 0xFE052503, 0x8067]"
  let ?c = "write_bytes ?m 0x500000 (words [0xC0056F, 0x402020, 0x0, 0x53503, 0xFE052503, 0x317, 0xC33303, 0x30067, 0x400028, 0x0])"
  let ?e = "write_bytes ?c 0x400020 (words [0x1317, 0x80030067])"
  have "fetch32 ?m 0x400020 = 0x2517" "fetch32 ?m 0x400024 = 0xFE052503"
    by (simp_all add: riscv_fetch_simps)
  then show "demo_build (riscv_arch True) ?m 0x400020 0x400820
      = Ok (riscv_test_patcher ?m 0x400020 [0x1317, 0x80030067], words [0xC0056F, 0x402020, 0x0, 0x53503, 0xFE052503, 0x317, 0xC33303, 0x30067, 0x400028, 0x0])"
    by (simp add: riscv_build_simps riscv_thunk_simps riscv_test_patcher_def)
  have "fetch32 ?c 0x400020 = 0x2517" "fetch32 ?c 0x400024 = 0xFE052503" "fetch32 ?c 0x400028 = 0x8067"
    "fetch32 ?c 0x402000 = 0xC3" "fetch32 ?c 0x0 = 0x0"
    by (simp_all add: riscv_fetch_simps)
  then show "rv_call_within 12 ?c 0x400020 = Some 195" by (simp add: rv_simps)
  have "fetch32 ?e 0x400020 = 0x1317" "fetch32 ?e 0x400024 = 0x80030067" "fetch32 ?e 0x400028 = 0x8067"
    "fetch32 ?e 0x402000 = 0xC3" "fetch32 ?e 0x400820 = 0xA00513" "fetch32 ?e 0x400824 = 0x8067"
    "fetch32 ?e 0x500000 = 0xC0056F" "fetch32 ?e 0x500004 = 0x402020" "fetch32 ?e 0x500008 = 0x0"
    "fetch32 ?e 0x50000C = 0x53503" "fetch32 ?e 0x500010 = 0xFE052503" "fetch32 ?e 0x500014 = 0x317"
    "fetch32 ?e 0x500018 = 0xC33303" "fetch32 ?e 0x50001C = 0x30067" "fetch32 ?e 0x500020 = 0x400028"
    "fetch32 ?e 0x500024 = 0x0" "fetch32 ?e 0x0 = 0x0"
    by (simp_all add: riscv_fetch_simps)
  then have "rv_call_within 12 ?e 0x400020 = Some 10 \<and> rv_call_within 12 ?e 0x500000 = Some 195"
    by (simp add: rv_simps)
  then show "rv_call_within 12 (write_bytes ?c 0x400020 (words [0x1317, 0x80030067])) 0x400020 = Some 10"
    "rv_call_within 12 (write_bytes ?c 0x400020 (words [0x1317, 0x80030067])) 0x500000 = Some 195"
    by simp_all
qed simp_all

lemma riscv_conditional_branch_passes: "riscv_detour_conditional_branch = Some (Ok ())"
  unfolding riscv_detour_conditional_branch_def Let_def
proof (rule riscv_test_passes)
  let ?m = "riscv_image [0x663, 0x200513, 0x8067, 0x500513, 0x8067]"
  let ?c = "write_bytes ?m 0x500000 (words [0x1C63, 0x317, 0xC33303, 0x30067, 0x40002C, 0x0, 0x200513, 0x317, 0xC33303, 0x30067, 0x400028, 0x0])"
  let ?e = "write_bytes ?c 0x400020 (words [0x1317, 0x80030067])"
  have "fetch32 ?m 0x400020 = 0x663" "fetch32 ?m 0x400024 = 0x200513"
    by (simp_all add: riscv_fetch_simps)
  then show "demo_build (riscv_arch True) ?m 0x400020 0x400820
      = Ok (riscv_test_patcher ?m 0x400020 [0x1317, 0x80030067], words [0x1C63, 0x317, 0xC33303, 0x30067, 0x40002C, 0x0, 0x200513, 0x317, 0xC33303, 0x30067, 0x400028, 0x0])"
    by (simp add: riscv_build_simps riscv_thunk_simps riscv_test_patcher_def)
  have "fetch32 ?c 0x400020 = 0x663" "fetch32 ?c 0x400024 = 0x200513" "fetch32 ?c 0x400028 = 0x8067"
    "fetch32 ?c 0x40002C = 0x500513" "fetch32 ?c 0x400030 = 0x8067" "fetch32 ?c 0x0 = 0x0"
    by (simp_all add: riscv_fetch_simps)
  then show "rv_call_within 12 ?c 0x400020 = Some 5" by (simp add: rv_simps)
  have "fetch32 ?e 0x400020 = 0x1317" "fetch32 ?e 0x400024 = 0x80030067" "fetch32 ?e 0x400028 = 0x8067"
    "fetch32 ?e 0x40002C = 0x500513" "fetch32 ?e 0x400030 = 0x8067" "fetch32 ?e 0x400820 = 0xA00513"
    "fetch32 ?e 0x400824 = 0x8067" "fetch32 ?e 0x500000 = 0x1C63" "fetch32 ?e 0x500004 = 0x317"
    "fetch32 ?e 0x500008 = 0xC33303" "fetch32 ?e 0x50000C = 0x30067" "fetch32 ?e 0x500010 = 0x40002C"
    "fetch32 ?e 0x500014 = 0x0" "fetch32 ?e 0x500018 = 0x200513" "fetch32 ?e 0x50001C = 0x317"
    "fetch32 ?e 0x500020 = 0xC33303" "fetch32 ?e 0x500024 = 0x30067" "fetch32 ?e 0x500028 = 0x400028"
    "fetch32 ?e 0x50002C = 0x0" "fetch32 ?e 0x0 = 0x0"
    by (simp_all add: riscv_fetch_simps)
  then have "rv_call_within 12 ?e 0x400020 = Some 10 \<and> rv_call_within 12 ?e 0x500000 = Some 5"
    by (simp add: rv_simps)
  then show "rv_call_within 12 (write_bytes ?c 0x400020 (words [0x1317, 0x80030067])) 0x400020 = Some 10"
    "rv_call_within 12 (write_bytes ?c 0x400020 (words [0x1317, 0x80030067])) 0x500000 = Some 5"
    by simp_all
qed simp_all

text \<open>A jump leaves a prolog of four bytes, and the word behind it is not padding.\<close>

lemma riscv_padding_word: "riscv_is_code_padding (read_bytes m a 4) \<longleftrightarrow> fetch32 m a = 0x13 \<or> fetch32 m a = 0"
  by (simp add: riscv_is_code_padding_def read_bytes_def fetch32_def upt_rec Let_def)

lemma riscv_test_refused:
  assumes "res_bind (riscv_trampoline_new (riscv_image prog) target 8) (\<lambda>tr.
      riscv_patcher_new True (riscv_image prog) target 0x400820 (tramp_prolog_size tr)) = Err e"
    and "target = 0x400020 \<or> target = 0x400030"
  shows "riscv_unit_test prog target result = Some (Err e)"
  using detour_test_refused [OF demo_build_refused [OF _ riscv_demo_near [OF assms(2)]]] assms(1)
  by (simp add: riscv_unit_test_def riscv_arch_def riscv_prolog_margin_def)

lemma riscv_unconditional_branch_fails: "riscv_detour_unconditional_branch = Some (Err NoPatchArea)"
  unfolding riscv_detour_unconditional_branch_def Let_def
proof (rule riscv_test_refused)
  let ?m = "riscv_image [0x0080006F, 0x00000513, 0x00700513, 0x00008067]"
  have "fetch32 ?m 0x400020 = 0x0080006F" "fetch32 ?m 0x400024 = 0x513"
    by (simp_all add: riscv_fetch_simps)
  then show "res_bind (riscv_trampoline_new ?m 0x400020 8) (\<lambda>tr.
      riscv_patcher_new True ?m 0x400020 0x400820 (tramp_prolog_size tr)) = Err NoPatchArea"
    by (simp add: riscv_build_simps riscv_padding_word)
qed simp

text \<open>Assembled with the C extension, \<^verbatim>\<open>li a0, 5; ret\<close> is one word, which the builder refuses.\<close>

lemma riscv_compressed_refused: "riscv_unit_test [0x80824515] 0x400020 5 = Some (Err UnsupportedInstruction)"
proof (rule riscv_test_refused)
  let ?m = "riscv_image [0x80824515]"
  have "fetch32 ?m 0x400020 = 0x80824515" by (simp add: riscv_fetch_simps)
  then show "res_bind (riscv_trampoline_new ?m 0x400020 8) (\<lambda>tr.
      riscv_patcher_new True ?m 0x400020 0x400820 (tramp_prolog_size tr)) = Err UnsupportedInstruction"
    by (simp add: riscv_build_simps)
qed simp

text \<open>
  The unit tests of the RISC-V back end, \<^verbatim>\<open>detour_auipc\<close> with its label. Four of the five that hook a function pass: the
  function returns its value before, through the trampoline while hooked, and after; hooked it
  returns 10. The test that begins with a jump fails. Hooking a function to itself is refused.
\<close>

theorem riscv_unit_tests:
  "riscv_detour_basic = Some (Ok ()) \<and> riscv_detour_nop_padding = Some (Ok ())
    \<and> riscv_detour_auipc = Some (Ok ()) \<and> riscv_detour_conditional_branch = Some (Ok ())
    \<and> riscv_detour_unconditional_branch = Some (Err NoPatchArea)
    \<and> riscv_same_detour_and_target identity = Some (Ok ())"
  by (simp add: riscv_basic_passes riscv_nop_padding_passes riscv_auipc_passes riscv_conditional_branch_passes
      riscv_unconditional_branch_fails riscv_same_detour_and_target_def same_detour_and_target_passes)

end
