(* ===== verification/Riscv_Stacked.thy ===== *)
theory Riscv_Stacked
  imports Detour_Stacked Riscv_Tests
begin

text \<open>
  The test \<^verbatim>\<open>detours_share_target\<close> of \<^verbatim>\<open>src/arch/riscv/mod.rs\<close>: the calls of its functions on a
  riscv64 processor, the contract \<open>hooked_calls\<close> for them, and a run of the test.
\<close>

section \<open>Calls with two arguments\<close>

text \<open>The arithmetic of the test functions, on 32 bits; a division by zero yields -1.\<close>

definition rv_arith :: "u32 \<Rightarrow> (u32 \<Rightarrow> u32 \<Rightarrow> u32) option" where
  "rv_arith i =
     (if i AND 0xFE00707F = 0x0000003B then Some (+)
      else if i AND 0xFE00707F = 0x4000003B then Some (-)
      else if i AND 0xFE00707F = 0x0200403B then Some (\<lambda>a b. if b = 0 then - 1 else trunc_div a b)
      else None)"

definition rv_test_step :: "u64 rv_cpu \<Rightarrow> u64 rv_cpu option" where
  "rv_test_step s =
     (case rv_step s of
        Some t \<Rightarrow> Some t
      | None \<Rightarrow>
          (let i = fetch32 (rv_mem s) (rv_pc s) in
           map_option (\<lambda>f. (rv_set (rv_rd i) (scast (f (ucast (rv_get s (rv_rs1 i))) (ucast (rv_get s (rv_rs2 i))))) s)
               \<lparr>rv_pc := rv_pc s + 4\<rparr>)
             (rv_arith i)))"

text \<open>Arguments in \<^verbatim>\<open>a0\<close> and \<^verbatim>\<open>a1\<close>, the return address 0, and any value in the scratch register t1.\<close>

definition rv_start2 :: "u64 \<Rightarrow> u32 \<times> u32 \<Rightarrow> 64 mem \<Rightarrow> u64 \<Rightarrow> u64 rv_cpu" where
  "rv_start2 t1 args m f = \<lparr>rv_pc = f, rv_regs = (\<lambda>_. 0)(10 := scast (fst args), 11 := scast (snd args), 6 := t1), rv_mem = m\<rparr>"

definition rv_call2 :: "u64 binary_call" where
  "rv_call2 m f args = call_fn rv_test_step (rv_start2 0 args) rv_result m f"

definition rv_returns :: "64 mem \<Rightarrow> u64 \<Rightarrow> u32 \<times> u32 \<Rightarrow> u32 \<Rightarrow> bool" where
  "rv_returns m f args v \<longleftrightarrow> (\<forall>t1. call_fn rv_test_step (rv_start2 t1 args) rv_result m f = Some v)"

lemma exec_rv_run: "rv_run n s = Some t \<Longrightarrow> exec rv_test_step s = exec rv_test_step t"
proof (induction n arbitrary: s)
  case (Suc n)
  then obtain u where "rv_step s = Some u" "rv_run n u = Some t" by (auto split: option.splits)
  moreover from this have "exec rv_test_step u = exec rv_test_step t" by (intro Suc.IH)
  moreover have "rv_test_step s = Some u" using \<open>rv_step s = Some u\<close> by (simp add: rv_test_step_def)
  ultimately show ?case by (subst exec.simps) simp
qed simp

lemma rv_returns_hop:
  assumes "rv_runs_to m a f" "rv_returns m f args v"
  shows "rv_returns m a args v"
  unfolding rv_returns_def
proof
  fix x
  let ?s = "rv_start2 x args m a"
  have "rv_mem ?s = m \<and> rv_pc ?s = a" by (simp add: rv_start2_def)
  then obtain n y where "rv_run n ?s = Some (?s\<lparr>rv_pc := f, rv_regs := (rv_regs ?s)(6 := y)\<rparr>)"
    using assms(1) unfolding rv_runs_to_def by blast
  moreover have "?s\<lparr>rv_pc := f, rv_regs := (rv_regs ?s)(6 := y)\<rparr> = rv_start2 y args m f"
    by (simp add: rv_start2_def)
  ultimately show "call_fn rv_test_step (rv_start2 x args) rv_result m a = Some v"
    using assms(2) exec_rv_run by (simp add: call_fn_def rv_returns_def)
qed

interpretation rv_calls: hooked_calls "riscv_arch dbg :: u64 architecture" rv_runs_to riscv_near "\<lambda>_ detour. \<not> bit detour 0"
    rv_call2 rv_returns for dbg
proof (rule hooked_calls.intro [OF riscv64_stack.stackable_backend_axioms], rule hooked_calls_axioms.intro)
  fix m f args v
  assume "rv_returns m f args v"
  then show "rv_call2 m f args = Some v" by (simp add: rv_returns_def rv_call2_def)
qed (rule rv_returns_hop)

section \<open>The functions of the test\<close>

text \<open>\<^verbatim>\<open>add\<close> at 0x400020, \<^verbatim>\<open>sub\<close> at 0x400820 and \<^verbatim>\<open>div\<close> at 0x401020, each one instruction and a return.\<close>

definition rv_share_image :: "64 mem" where
  "rv_share_image = write_bytes (write_bytes (write_bytes (\<lambda>_. 0) 0x401020 (words [0x02B5453B, 0x8067]))
     0x400820 (words [0x40B5053B, 0x8067])) 0x400020 (words [0x00B5053B, 0x8067])"

text \<open>The memory after each of the four operations.\<close>

definition rv_share_mem1 :: "64 mem" where
  "rv_share_mem1 = write_bytes rv_share_image 0x500000 (words [0x00B5053B, 0x8067])"

definition rv_share_mem2 :: "64 mem" where
  "rv_share_mem2 = write_bytes rv_share_mem1 0x400020 (words [0x1317, 0x80030067])"

definition rv_share_mem3 :: "64 mem" where
  "rv_share_mem3 = write_bytes rv_share_mem2 0x500008 (words [0x00C0036F, 0x401020, 0, 0x00033303, 0x80030067])"

definition rv_share_mem4 :: "64 mem" where
  "rv_share_mem4 = write_bytes rv_share_mem3 0x400020 (words [0x1317, 0x00030067])"

lemmas rv_share_mems = rv_share_image_def rv_share_mem1_def rv_share_mem2_def rv_share_mem3_def rv_share_mem4_def
  length_words fetch32_words fetch32_outside fetch32_zero

abbreviation rv_share_world :: "64 mem \<Rightarrow> nat \<Rightarrow> u64 bump_world" where
  "rv_share_world \<equiv> pooled_world (riscv_arch True)"

definition rv_share_hook1 :: "u64 detour" where
  "rv_share_hook1 = pooled_detour (riscv_test_patcher rv_share_image 0x400020 [0x1317, 0x80030067]) 0x500000
     (words [0x00B5053B, 0x8067])"

definition rv_share_hook2 :: "u64 detour" where
  "rv_share_hook2 = pooled_detour (riscv_test_patcher rv_share_mem2 0x400020 [0x1317, 0x00030067]) 0x500008
     (words [0x00C0036F, 0x401020, 0, 0x00033303, 0x80030067])"

lemma rv_share_new:
  assumes fetch: "fetch32 m 0x400020 = i" "fetch32 m 0x400024 = j" and len: "length code = 4 * n" "used + 4 * n \<le> 0x1000"
    and build: "\<And>m'. fetch32 m' 0x400020 = i \<Longrightarrow> fetch32 m' 0x400024 = j \<Longrightarrow>
      \<exists>tr. riscv_trampoline_new m' 0x400020 8 = Ok tr \<and> tramp_prolog_size tr = 8 \<and> emit (tramp_emitter tr) a = Ok code"
    and hook: "riscv_branch_bytes True 0x400020 detour = Ok (words h)"
    and a: "a = 0x500000 + of_nat used" and detour: "detour = 0x400820 \<or> detour = 0x401020"
  shows "detour_new (riscv_arch True) demo_os 0x400020 detour (rv_share_world m used)
    = Some (Ok (pooled_detour (riscv_test_patcher m 0x400020 h) a code), rv_share_world (write_bytes m a code) (used + 4 * n))"
proof -
  obtain tr where tr: "riscv_trampoline_new m 0x400020 8 = Ok tr" "tramp_prolog_size tr = 8" "emit (tramp_emitter tr) a = Ok code"
    using build [OF fetch] by blast
  have "detour_new (riscv_arch True) demo_os 0x400020 detour (rv_share_world m used)
    = Some (Ok (pooled_detour (riscv_test_patcher m 0x400020 h) a code), rv_share_world (write_bytes m a code) (used + length code))"
  proof (rule pooled_new [where tr = tr])
    show "make_patcher (riscv_arch True) demo_query m 0x400020 detour (tramp_prolog_size tr) = Ok (riscv_test_patcher m 0x400020 h)"
      using hook tr(2) by (simp add: riscv_arch_def riscv_patcher_new_Ok riscv_patch_area_Ok riscv_test_patcher_def)
  qed (use tr a len detour in \<open>auto simp: riscv_arch_def riscv_prolog_margin_def riscv_relay_builder_def Let_def
      is_within_range_def riscv_DETOUR_RANGE_def in_range_def proximity_range_def thread_allocator_new_def
      saturating_sub_def saturating_add_def\<close>)
  then show ?thesis using len(1) by simp
qed

lemma rv_share_new1:
  "detour_new (riscv_arch True) demo_os 0x400020 0x400820 (rv_share_world rv_share_image 0)
    = Some (Ok rv_share_hook1, rv_share_world rv_share_mem1 8)"
proof -
  have "detour_new (riscv_arch True) demo_os 0x400020 0x400820 (rv_share_world rv_share_image 0)
    = Some (Ok (pooled_detour (riscv_test_patcher rv_share_image 0x400020 [0x1317, 0x80030067]) 0x500000 (words [0x00B5053B, 0x8067])),
      rv_share_world (write_bytes rv_share_image 0x500000 (words [0x00B5053B, 0x8067])) (0 + 4 * 2))"
    by (rule rv_share_new [where i = "0x00B5053B" and j = "0x8067"])
      (simp_all add: rv_share_mems, simp_all add: riscv_build_simps riscv_thunk_simps)
  then show ?thesis by (simp add: rv_share_hook1_def rv_share_mem1_def)
qed

lemma rv_share_new2:
  "detour_new (riscv_arch True) demo_os 0x400020 0x401020 (rv_share_world rv_share_mem2 8)
    = Some (Ok rv_share_hook2, rv_share_world rv_share_mem3 28)"
proof -
  let ?code = "words [0x00C0036F, 0x401020, 0, 0x00033303, 0x80030067]"
  have "detour_new (riscv_arch True) demo_os 0x400020 0x401020 (rv_share_world rv_share_mem2 8)
    = Some (Ok (pooled_detour (riscv_test_patcher rv_share_mem2 0x400020 [0x1317, 0x00030067]) 0x500008 ?code),
      rv_share_world (write_bytes rv_share_mem2 0x500008 ?code) (8 + 4 * 5))"
    by (rule rv_share_new [where i = "0x1317" and j = "0x80030067"])
      (simp_all add: rv_share_mems, simp_all add: riscv_build_simps riscv_thunk_simps)
  then show ?thesis by (simp add: rv_share_hook2_def rv_share_mem3_def)
qed

lemma rv_share_returns:
  "rv_returns rv_share_mem2 0x400820 (5, 5) 0" "rv_returns rv_share_mem4 0x400820 (5, 5) 0"
  "rv_returns rv_share_mem4 0x401020 (10, 5) 2"
proof -
  have "fetch32 rv_share_mem2 0x400820 = 0x40B5053B" "fetch32 rv_share_mem2 0x400824 = 0x8067" "fetch32 rv_share_mem2 0 = 0"
    by (simp_all add: rv_share_mems)
  then have "call_within rv_test_step (rv_start2 x (5, 5)) rv_result 5 rv_share_mem2 0x400820 = Some 0" for x
    by (simp add: rv_simps rv_test_step_def rv_start2_def rv_arith_def)
  then show "rv_returns rv_share_mem2 0x400820 (5, 5) 0"
    unfolding rv_returns_def by (blast intro: call_within_call)
  have "fetch32 rv_share_mem4 0x400820 = 0x40B5053B" "fetch32 rv_share_mem4 0x400824 = 0x8067" "fetch32 rv_share_mem4 0 = 0"
    by (simp_all add: rv_share_mems)
  then have "call_within rv_test_step (rv_start2 x (5, 5)) rv_result 5 rv_share_mem4 0x400820 = Some 0" for x
    by (simp add: rv_simps rv_test_step_def rv_start2_def rv_arith_def)
  then show "rv_returns rv_share_mem4 0x400820 (5, 5) 0"
    unfolding rv_returns_def by (blast intro: call_within_call)
  have "fetch32 rv_share_mem4 0x401020 = 0x02B5453B" "fetch32 rv_share_mem4 0x401024 = 0x8067" "fetch32 rv_share_mem4 0 = 0"
    by (simp_all add: rv_share_mems)
  then have "call_within rv_test_step (rv_start2 x (10, 5)) rv_result 5 rv_share_mem4 0x401020 = Some 2" for x
    by (simp add: rv_simps rv_test_step_def rv_start2_def rv_arith_def trunc_div_def)
  then show "rv_returns rv_share_mem4 0x401020 (10, 5) 2"
    unfolding rv_returns_def by (blast intro: call_within_call)
qed

section \<open>The test passes\<close>

text \<open>
  Two detours of one function on RISC-V, as the test has them, likewise; a relay of the
  second detour needs a detour at an even address.
\<close>

theorem riscv_detours_share_target:
  fixes add_fn sub_fn div_fn :: "('t, u64) fn_ptr"
  assumes "detour_new (riscv_arch dbg) os (to_ptr add_fn) (to_ptr sub_fn) w = Some (Ok d1, w1)"
    and "detour_enable (riscv_arch dbg) os d1 w1 = (Ok (), e1, w2)"
    and "detour_new (riscv_arch dbg) os (to_ptr add_fn) (to_ptr div_fn) w2 = Some (Ok d2, w3)"
    and "detour_enable (riscv_arch dbg) os d2 w3 = (Ok (), e2, w4)"
    and "w_icache w = w_mem w" "detour_apart d1" "detour_apart d2"
    and "riscv_near (to_ptr add_fn) (to_ptr sub_fn)" "riscv_near (to_ptr add_fn) (detour_entry d2 (to_ptr div_fn))"
    and "\<not> bit (to_ptr div_fn) 0"
    and "d_relay d1 = None" "\<not> in_area (d_patcher d1) (to_ptr sub_fn)" "em_ptr (d_trampoline d2) \<noteq> 0"
    and "rv_returns (w_icache w2) (to_ptr sub_fn) (5, 5) 0" "rv_returns (w_icache w4) (to_ptr sub_fn) (5, 5) 0"
    and "rv_returns (w_icache w4) (to_ptr div_fn) (10, 5) 2"
    and "detour_drop (riscv_arch dbg) os e2 w4 = (Ok (), w5)" "detour_drop (riscv_arch dbg) os e1 w5 = (Ok (), w6)"
  shows "rv_runs_to (w_icache w2) (to_ptr add_fn) (to_ptr sub_fn) \<and> rv_runs_to (w_icache w4) (to_ptr add_fn) (to_ptr div_fn)
    \<and> rv_runs_to (w_icache w4) (em_ptr (d_trampoline d2)) (to_ptr sub_fn)
    \<and> detours_share_target (riscv_arch dbg) os rv_call2 add_fn sub_fn div_fn w = Some (Ok (), w6)
    \<and> raw_detours_share_target (riscv_arch dbg) os rv_call2 (to_ptr add_fn) (to_ptr sub_fn) (to_ptr div_fn) w = Some (Ok (), w6)"
proof -
  obtain query m n where "riscv_patcher_new dbg m (to_ptr add_fn) (detour_entry d1 (to_ptr sub_fn)) n = Ok (d_patcher d1)"
    using riscv64_stack.enabled_code [OF assms(1,2,5,6)] by (auto simp: riscv_arch_def)
  then have "area_ptr (d_patcher d1) = to_ptr add_fn"
    by (auto simp: riscv_patcher_new_Ok riscv_patch_area_Ok)
  then show ?thesis
    using rv_calls.share_target_passes [OF assms(1-9) assms(10) assms(11) _ assms(12-18)] by simp
qed

theorem riscv_detours_share_target_witness:
  "rv_runs_to rv_share_mem2 0x400020 0x400820 \<and> rv_runs_to rv_share_mem4 0x400020 0x401020
     \<and> rv_runs_to rv_share_mem4 (em_ptr (d_trampoline rv_share_hook2)) 0x400820
     \<and> (\<exists>w6. detours_share_target (riscv_arch True) demo_os rv_call2 (share_fn 0x400020) (share_fn 0x400820) (share_fn 0x401020)
        (rv_share_world rv_share_image 0) = Some (Ok (), w6)
     \<and> raw_detours_share_target (riscv_arch True) demo_os rv_call2 0x400020 0x400820 0x401020
        (rv_share_world rv_share_image 0) = Some (Ok (), w6))"
proof -
  note hooks = rv_share_hook1_def rv_share_hook2_def riscv_test_patcher_def patcher_wf_def length_words
  have enable: "detour_enable (riscv_arch True) demo_os rv_share_hook1 (rv_share_world rv_share_mem1 8)
      = (Ok (), rv_share_hook1\<lparr>d_enabled := True\<rparr>, rv_share_world rv_share_mem2 8)"
    "detour_enable (riscv_arch True) demo_os rv_share_hook2 (rv_share_world rv_share_mem3 28)
      = (Ok (), rv_share_hook2\<lparr>d_enabled := True\<rparr>, rv_share_world rv_share_mem4 28)"
    by (simp_all add: hooks pooled_enable rv_share_mem2_def rv_share_mem4_def)
  have "\<exists>w5 w6. detour_drop (riscv_arch True) demo_os (rv_share_hook2\<lparr>d_enabled := True\<rparr>) (rv_share_world rv_share_mem4 28) = (Ok (), w5)
     \<and> detour_drop (riscv_arch True) demo_os (rv_share_hook1\<lparr>d_enabled := True\<rparr>) w5 = (Ok (), w6)"
    unfolding rv_share_hook1_def rv_share_hook2_def by (rule pooled_drops) (simp_all add: hooks)
  then obtain w5 w6 where drops: "detour_drop (riscv_arch True) demo_os (rv_share_hook2\<lparr>d_enabled := True\<rparr>) (rv_share_world rv_share_mem4 28) = (Ok (), w5)"
    "detour_drop (riscv_arch True) demo_os (rv_share_hook1\<lparr>d_enabled := True\<rparr>) w5 = (Ok (), w6)"
    by blast
  have near: "riscv_near (0x400020 :: u64) 0x400820" "riscv_near (0x400020 :: u64) 0x401020"
    by (simp_all add: riscv_near_def)
  have apart: "detour_apart rv_share_hook1" "detour_apart rv_share_hook2"
    unfolding rv_share_hook1_def rv_share_hook2_def by (rule pooled_apart; simp add: hooks)+
  have at: "d_relay rv_share_hook1 = None" "detour_entry rv_share_hook2 0x401020 = 0x401020"
      "\<not> in_area (d_patcher rv_share_hook1) 0x400820" "em_ptr (d_trampoline rv_share_hook2) \<noteq> 0"
    by (simp_all add: hooks pooled_detour_def detour_entry_def in_area_def)
  have new: "detour_new (riscv_arch True) demo_os (to_ptr (share_fn 0x400020)) (to_ptr (share_fn 0x400820)) (rv_share_world rv_share_image 0)
      = Some (Ok rv_share_hook1, rv_share_world rv_share_mem1 8)"
    "detour_new (riscv_arch True) demo_os (to_ptr (share_fn 0x400020)) (to_ptr (share_fn 0x401020)) (rv_share_world rv_share_mem2 8)
      = Some (Ok rv_share_hook2, rv_share_world rv_share_mem3 28)"
    by (simp_all add: rv_share_new1 rv_share_new2)
  have "rv_runs_to (w_icache (rv_share_world rv_share_mem2 8)) (to_ptr (share_fn 0x400020)) (to_ptr (share_fn 0x400820))
    \<and> rv_runs_to (w_icache (rv_share_world rv_share_mem4 28)) (to_ptr (share_fn 0x400020)) (to_ptr (share_fn 0x401020))
    \<and> rv_runs_to (w_icache (rv_share_world rv_share_mem4 28)) (em_ptr (d_trampoline rv_share_hook2)) (to_ptr (share_fn 0x400820))
    \<and> detours_share_target (riscv_arch True) demo_os rv_call2 (share_fn 0x400020) (share_fn 0x400820) (share_fn 0x401020)
        (rv_share_world rv_share_image 0) = Some (Ok (), w6)
    \<and> raw_detours_share_target (riscv_arch True) demo_os rv_call2 (to_ptr (share_fn 0x400020)) (to_ptr (share_fn 0x400820))
        (to_ptr (share_fn 0x401020)) (rv_share_world rv_share_image 0) = Some (Ok (), w6)"
    by (rule riscv_detours_share_target [OF new(1) enable(1) new(2) enable(2) _ _ _ _ _ _ _ _ _ _ _ _ drops])
      (simp_all add: apart near at rv_share_returns bit_numeral_rec)
  then show ?thesis by (auto)
qed

end
