(* ===== verification/Spec2Isabelle.thy ===== *)
theory Spec2Isabelle
  imports Hookable_Macro Messagebox_Example Integration_Tests Aarch64_Stacked Riscv_Stacked
begin

text \<open>
  A verification development for \<^verbatim>\<open>detour-rs\<close>, a Rust library that redirects functions of the
  running process: it replaces the first instructions of a target by a jump to a detour, and
  keeps a trampoline that runs the replaced instructions and continues behind them.

  \<^bold>\<open>The program and its theories.\<close> Paths are relative to \<^verbatim>\<open>src/src\<close>, those of \<^verbatim>\<open>tests\<close> and \<^verbatim>\<open>examples\<close> to \<^verbatim>\<open>src\<close>.

  \<^item> \<open>Detour_Prelude\<close>: integers as words, the errors of \<^verbatim>\<open>error.rs\<close>, results with a panic
    branch (\<open>res\<close>), little-endian bytes, a byte-addressed memory, code in memory (\<open>code_at\<close>).
  \<^item> \<open>Pic\<close> (\<^verbatim>\<open>pic/\<close>): thunks, that is code generated for an address, and the emitter that
    places them one behind the other; locale \<open>thunk_family\<close>.
  \<^item> \<open>Arch_Common\<close> (\<^verbatim>\<open>arch/mod.rs\<close> and the struct \<^verbatim>\<open>Patcher\<close> of every architecture): locales
    \<open>jump_thunk\<close> and \<open>patcher_module\<close>.
  \<^item> \<open>Region_Query\<close> (\<^verbatim>\<open>util.rs\<close>, \<^verbatim>\<open>error.rs\<close>): the memory map of the operating system.
  \<^item> \<open>Alloc_Search\<close>, \<open>Alloc_Proximity\<close> (\<^verbatim>\<open>alloc/\<close>): the search for free memory near an address,
    and the pools of executable memory.
  \<^item> \<open>X86_Thunk\<close>, \<open>X86_Patcher\<close>, \<open>X86_Trampoline\<close> (\<^verbatim>\<open>arch/x86/\<close>), and likewise \<open>Aarch64_\<dots>\<close>,
    \<open>Riscv_\<dots>\<close> and \<open>Arm_\<dots>\<close>: the instruction encodings with a reference processor that gives them
    a meaning, the choice of the patch area and the hook, and the trampoline builder.
  \<^item> \<open>Detour_Core\<close> (\<^verbatim>\<open>arch/detour.rs\<close>, \<^verbatim>\<open>arch/memory.rs\<close>): creating, toggling and dropping one
    detour, with the global pool, its mutex and the instruction cache. The four architectures
    are values of the record \<open>architecture\<close>.
  \<^item> \<open>Detour_Session\<close>: many detours in one process as a step relation, its invariant, and what a
    detour expects of its architecture as the locale \<open>detour_backend\<close>.
  \<^item> \<open>Detour_Backends\<close>: the architectures, an interpretation of \<open>detour_backend\<close> for each, and the
    theorems on whole detours; \<open>Detour_Example\<close> is the concrete process the examples run in.
  \<^item> \<open>Detour_Front\<close> (\<^verbatim>\<open>traits.rs\<close>, \<^verbatim>\<open>detours/raw.rs\<close>, \<^verbatim>\<open>detours/generic.rs\<close>): function pointers
    and the front ends that own a detour.
  \<^item> \<open>Static_Detour\<close>, \<open>Static_Threads\<close>, \<open>Static_Backends\<close> (\<^verbatim>\<open>detours/statik.rs\<close>): a static detour
    as operations on atomic pointers and boxes, as atomic steps interleaved by threads, and on
    top of an architecture.
  \<^item> \<open>Static_Macro\<close>, \<open>Hookable_Macro\<close> (\<^verbatim>\<open>macros.rs\<close>): the macros as functions on token trees.
  \<^item> \<open>Detour_Tests\<close>, \<open>X86_Tests\<close>, \<open>Aarch64_Tests\<close>, \<open>Riscv_Tests\<close> (the unit tests of \<^verbatim>\<open>arch/*/mod.rs\<close>): the
    helper \<^verbatim>\<open>detour_test\<close> as a program, calls on the reference processors (\<open>call_fn\<close>), and the tests run
    on the machine code of their functions.
  \<^item> \<open>Detour_Stacked\<close>, \<open>X86_Stacked\<close>, \<open>Aarch64_Stacked\<close>, \<open>Riscv_Stacked\<close> (the test
    \<^verbatim>\<open>detours_share_target\<close> of \<^verbatim>\<open>lib.rs\<close> and \<^verbatim>\<open>arch/*/mod.rs\<close>): two detours of one function. Locale
    \<open>stackable_backend\<close>: the code of a hook can be relocated; locale \<open>hooked_calls\<close>: a call goes through
    a jump of the library. \<open>Integration_Tests\<close> (\<^verbatim>\<open>tests/lib.rs\<close>): the tests of raw and generic detours.
  \<^item> \<open>Messagebox_Example\<close> (\<^verbatim>\<open>examples/messageboxw_detour.rs\<close>): the library that hooks \<^verbatim>\<open>MessageBoxW\<close>.

  Definitions have the names of the source; a prefix (\<open>x86_\<close>, \<open>a64_\<close>, \<open>riscv_\<close>, \<open>arm_\<close>, \<open>raw_\<close>,
  \<open>generic_\<close>, \<open>static_\<close>) tells apart what the source keeps in different modules. Code that is not
  part of the repository is a parameter: the disassembler \<^verbatim>\<open>iced_x86\<close> (\<open>decoder\<close>), and the crates
  \<^verbatim>\<open>region\<close>, \<^verbatim>\<open>mmap\<close> and \<^verbatim>\<open>slice_pool\<close> (\<open>os\<close>, \<open>query\<close>, \<open>pool_ops\<close>). What the code relies on of them
  is stated by \<open>stream_from\<close>, \<open>decodes_jump\<close>, \<open>query_covers\<close>, \<open>query_pages\<close> and \<open>pool_laws\<close>; \<open>bump_ops\<close>,
  \<open>demo_query\<close>, \<open>return_five_insns\<close> and \<open>share_decoder\<close> satisfy them.

  \<^bold>\<open>What the lemmas show.\<close>

  \<^item> Hooks: an enabled patch sends the target to the detour, over a relay if there is one
    (\<open>patcher_module\<close>, \<open>detour_backend.enabled_detour\<close>); the patch covers only prolog bytes and
    padding; in every reachable session both sides of the processor see the hook of a detour
    exactly if it is enabled; enabling and disabling restores the world.
  \<^item> Trampolines: on AArch64, RISC-V and ARM a run of the trampoline simulates the prolog on the
    reference processor, scratch registers apart. The scope of these simulations is stated with
    each: on AArch64 calls and \<^verbatim>\<open>B.cond\<close> are excluded; on RISC-V the prologs are straight-line code
    (\<open>rv_plain\<close>: immediate additions, \<^verbatim>\<open>AUIPC\<close>, loads), and the distances the rounding of the patch
    misses are excluded (\<open>riscv_near\<close>); on ARM they are moves, additions and subtractions without
    the program counter (\<open>arm_straight\<close>). On x86, whose instructions are opaque to the source as
    well, \<open>relocates\<close> and \<open>tramp_tail\<close> say what each instruction of any prolog must become and where
    the closing jump stands; that the replacements keep operands, destinations and conditions is
    proved of each kind.
  \<^item> Allocation: a search ends, in both directions, with the closest free memory or with nothing
    free left (\<open>next_ok\<close>); an allocation is near the origin; dropping it keeps its pool, even if it
    was unique; \<^verbatim>\<open>Detour::new\<close> returns and writes to its own chunks only.
  \<^item> Static detours: the pointers implement an optional detour and an optional closure; the
    invariant of all interleavings (no use after free of the detour, no double free, no leak,
    one winner); between such phases, the atomic steps of a call implement the contract.
  \<^item> Macros: \<^verbatim>\<open>static_detour!\<close> accepts exactly the documented syntax; \<^verbatim>\<open>impl_hookable!\<close> generates
    for each function type one implementation of every trait and one of every method \<^verbatim>\<open>call\<close>.
  \<^item> Two detours of one function: calls arrive at the second, its trampoline leads to the first, and
    dropping them in reverse order restores the function; disabling them in the order of creation
    does not. On ARM a second hook can get lost (\<open>arm_second_hook_lost\<close>).
  \<^item> Tests: what the repository's unit tests come to on machine code that stands for the functions
    of the tests (\<open>x86_unit_tests\<close>, \<open>a64_unit_tests\<close>, \<open>riscv_unit_tests\<close>, \<open>x86_integration_tests\<close>).
  \<^item> Deviations: the relay decisions that miss distances, position-dependent instructions that
    are copied, immediates that a relocated displacement overwrites, calls whose return address is a
    literal, the poisoned pool, pools that are never unmapped, the drop that only restores debug
    builds, and the two windows of \<^verbatim>\<open>initialize\<close>.

  \<^bold>\<open>Bounds and fuel.\<close> The builder loops consume a prolog of known length and terminate by
  measures; the region search is a \<open>partial_function\<close>, whose termination is proved under
  \<open>query_covers\<close>. Runs of the reference processors are finite numbers of steps, which the theorems
  quantify existentially or give. \<open>call_run\<close> has fuel 5: the longest path of a call has five steps.
  A call of a function (\<open>exec\<close>) is a \<open>partial_function\<close>, which has a value only if it returns; \<open>call_within\<close>
  runs it with fuel 5 to 12, and a result within the fuel is the result (\<open>call_within_call\<close>).

  Sums of an address and the length of an instruction or thunk wrap, as in release builds
  (\<open>calculate_displacement\<close>, \<open>emit_loop\<close>); in debug builds they panic when the code lies within that
  length of \<^verbatim>\<open>isize::MAX\<close> or of the end of the address space, where no process has memory to hook.
  The search for free memory, where the end of the address space matters, keeps the panic.

  \<^bold>\<open>Not modelled.\<close> The \<^verbatim>\<open>Debug\<close> implementations; the handles that restore page protections, of
  which only the result of the request is modelled; the inner mutex of the allocator, since the
  outer one is held whenever it is taken, except when chunks are dropped; the assembly behind
  \<^verbatim>\<open>flush_icache_arm\<close> and \<^verbatim>\<open>flush_icache_riscv\<close>, which are external functions. The reference
  processors cover the instructions the library generates or replaces and a set of others to
  run them with; stores of a prolog are left out of the simulations. Toggles,
  creations and drops of a detour are single steps of a session and of a thread: they run under
  the lock of the pool. Boxes get fresh addresses; atomic operations are sequentially
  consistent, as in the source (its drop, which has exclusive access, apart). In the macros a type, an attribute and a path are single tokens,
  as the compiler hands them on. The tests
  run on machine code at fixed addresses (the function at 0x400020, its detour at 0x400820, trampolines
  from 0x500000 on), assembled by hand where the source leaves it to a compiler; what the stack
  holds, and registers the code does not use, are left out. The test of a static detour in
  \<^verbatim>\<open>tests/lib.rs\<close> is not modelled, since the code of the generated function is the compiler's. Module
  declarations and re-exports have no behaviour.
\<close>

end
